(* ===== verification/Prelude.thy ===== *)
theory Prelude
  imports Main "HOL-Library.Word" "HOL-Library.State_Monad" "HOL-Library.Multiset"
begin

text \<open>
  The vocabulary shared by every theory of the library.

  \<^item> \<open>Base types.\<close> A \<open>uuid.UUID\<close> is a 16-byte array that Go compares with
    \<open>bytes.Compare\<close> and PostgreSQL with \<open>memcmp\<close>; both orders are the unsigned order of
    the 128-bit big-endian number, so a UUID is a \<open>128 word\<close> and \<open>uuid.Nil\<close> is \<open>0\<close>.
    A \<open>time.Time\<close> is an \<open>int\<close>: microseconds (the resolution of \<open>timestamptz\<close>) since Go's
    zero time, so \<open>t.IsZero()\<close> is \<open>t = 0\<close>. A \<open>time.Duration\<close> is counted in the same unit.
    Go strings are byte strings; \<open>string\<close> is a list of 8-bit characters and \<open>length\<close>
    is Go's \<open>len\<close>.
  \<^item> \<open>Tables.\<close> A SQL table is the list of its rows; the combinators below are the
    row-level meaning of \<open>SELECT\<close>, \<open>UPDATE ... WHERE\<close> and \<open>DELETE ... WHERE\<close>, with the
    laws of a table with a primary key.
  \<^item> \<open>State transformers.\<close> The service code is written in the library's state monad; the
    locale \<open>transition_preorder\<close> shows once that a property of every single statement
    that is reflexive and transitive holds of every program built from such statements.
\<close>

named_theorems stmt_defs "definitions of the SQL statements"
named_theorems run_simps "evaluation of statements and programs"

type_synonym uuid = "128 word"
type_synonym time = int
type_synonym duration = int

abbreviation uuid_nil :: uuid where
  "uuid_nil \<equiv> 0"

definition IsZero :: "time \<Rightarrow> bool" where
  "IsZero t \<longleftrightarrow> t = 0"

text \<open>Durations, in microseconds.\<close>

definition Second :: duration where
  "Second = 1000000"

definition Hour :: duration where
  "Hour = 3600 * Second"

text \<open>The conversion \<open>int32(x)\<close> of Go keeps the low 32 bits, in two's complement.\<close>

definition int32 :: "int \<Rightarrow> int" where
  "int32 x = (x + 2 ^ 31) mod 2 ^ 32 - 2 ^ 31"

text \<open>
  \<open>strings.ToLower\<close>: on an ASCII string every upper-case letter is shifted; a string with
  another byte goes through the Unicode case table, which is the parameter \<open>unicode_lower\<close>.
\<close>

definition ascii_byte :: "char \<Rightarrow> bool" where
  "ascii_byte c \<longleftrightarrow> (of_char c :: nat) < 128"

definition ascii_lower :: "char \<Rightarrow> char" where
  "ascii_lower c =
     (if 65 \<le> (of_char c :: nat) \<and> (of_char c :: nat) \<le> 90
      then char_of ((of_char c :: nat) + 32) else c)"

definition ToLower :: "(string \<Rightarrow> string) \<Rightarrow> string \<Rightarrow> string" where
  "ToLower unicode_lower s =
     (if list_all ascii_byte s then map ascii_lower s else unicode_lower s)"

text \<open>The verb \<open>%d\<close> of \<open>fmt\<close>: decimal digits, with a sign for a negative number.\<close>

fun decimal :: "nat \<Rightarrow> string" where
  "decimal n = (if n < 10 then [char_of (48 + n)] else decimal (n div 10) @ [char_of (48 + n mod 10)])"

declare decimal.simps [simp del]

definition Sprint_d :: "int \<Rightarrow> string" where
  "Sprint_d i = (if i < 0 then ''-'' @ decimal (nat (- i)) else decimal (nat i))"

text \<open>PostgreSQL's \<open>text\<close> type cannot hold the byte zero.\<close>

definition text_ok :: "string \<Rightarrow> bool" where
  "text_ok s \<longleftrightarrow> list_all (\<lambda>c. (of_char c :: nat) \<noteq> 0) s"

text \<open>Row-level combinators.\<close>

definition exists_row :: "('r \<Rightarrow> bool) \<Rightarrow> 'r list \<Rightarrow> bool" where
  "exists_row P rows \<longleftrightarrow> list_ex P rows"

definition update_where :: "('r \<Rightarrow> bool) \<Rightarrow> ('r \<Rightarrow> 'r) \<Rightarrow> 'r list \<Rightarrow> 'r list" where
  "update_where P f rows = map (\<lambda>r. if P r then f r else r) rows"

definition delete_where :: "('r \<Rightarrow> bool) \<Rightarrow> 'r list \<Rightarrow> 'r list" where
  "delete_where P rows = filter (\<lambda>r. \<not> P r) rows"

text \<open>
  The lexicographic order on pairs: the comparison function of the mutation sort and the
  keyset position \<open>(timestamp, id)\<close> of the paginated lists.
\<close>

datatype ('a, 'b) lexpair = LexPair (lex_major: 'a) (lex_minor: 'b)

instantiation lexpair :: (linorder, linorder) linorder
begin

definition less_eq_lexpair :: "('a, 'b) lexpair \<Rightarrow> ('a, 'b) lexpair \<Rightarrow> bool" where
  "p \<le> q \<longleftrightarrow> lex_major p < lex_major q \<or> lex_major p = lex_major q \<and> lex_minor p \<le> lex_minor q"

definition less_lexpair :: "('a, 'b) lexpair \<Rightarrow> ('a, 'b) lexpair \<Rightarrow> bool" where
  "p < q \<longleftrightarrow> lex_major p < lex_major q \<or> lex_major p = lex_major q \<and> lex_minor p < lex_minor q"

instance
  by standard (auto simp: less_eq_lexpair_def less_lexpair_def intro: lexpair.expand)

end

text \<open>
  Every list endpoint asks for one row more than the page, sets \<open>has_more\<close> when it got it
  and cuts the slice: \<open>hasMore := len(rows) > limit; if hasMore { rows = rows[:limit] }\<close>.
  A negative bound of the slice expression panics, which is \<open>None\<close>.
\<close>

definition cut_page :: "int \<Rightarrow> 'r list \<Rightarrow> ('r list \<times> bool) option" where
  "cut_page limit rows =
     (if limit < int (length rows)
      then if limit < 0 then None else Some (take (nat limit) rows, True)
      else Some (rows, False))"


subsection \<open>Generic lemmas\<close>

lemma less_lexpair_iff [simp]:
  "LexPair a b < LexPair c d \<longleftrightarrow> a < c \<or> a = c \<and> b < d"
  "LexPair a b \<le> LexPair c d \<longleftrightarrow> a < c \<or> a = c \<and> b \<le> d"
  by (simp_all add: less_lexpair_def less_eq_lexpair_def)

lemma int32_id: "- (2 ^ 31) \<le> x \<Longrightarrow> x < 2 ^ 31 \<Longrightarrow> int32 x = x"
  by (simp add: int32_def)

lemma int32_range: "- (2 ^ 31) \<le> int32 x" "int32 x < 2 ^ 31"
  by (simp_all add: int32_def)

lemma cut_page_nonneg:
  "0 \<le> limit \<Longrightarrow> cut_page limit rows = Some (take (nat limit) rows, limit < int (length rows))"
  by (auto simp: cut_page_def)

lemma update_where_simps [simp]:
  "update_where P f [] = []"
  "update_where P f (r # rows) = (if P r then f r else r) # update_where P f rows"
  by (simp_all add: update_where_def)

lemma length_update_where [simp]: "length (update_where P f rows) = length rows"
  by (simp add: update_where_def)

lemma update_where_append [simp]:
  "update_where P f (xs @ ys) = update_where P f xs @ update_where P f ys"
  by (simp add: update_where_def)

lemma set_update_where:
  "set (update_where P f rows) = {r \<in> set rows. \<not> P r} \<union> f ` {r \<in> set rows. P r}"
  by (induction rows) auto

lemma update_where_none: "(\<And>r. r \<in> set rows \<Longrightarrow> \<not> P r) \<Longrightarrow> update_where P f rows = rows"
  by (induction rows) auto

lemma filter_update_where_other:
  "(\<And>r. P r \<Longrightarrow> \<not> Q r \<and> \<not> Q (f r)) \<Longrightarrow> filter Q (update_where P f rows) = filter Q rows"
  by (induction rows) auto

lemma set_delete_where [simp]: "set (delete_where P rows) = {r \<in> set rows. \<not> P r}"
  by (auto simp: delete_where_def)

lemma exists_row_iff: "exists_row P rows \<longleftrightarrow> (\<exists>r\<in>set rows. P r)"
  by (simp add: exists_row_def list_ex_iff)

lemma find_Some_in: "List.find P xs = Some x \<Longrightarrow> x \<in> set xs \<and> P x"
  by (auto simp: find_Some_iff)

lemma find_append: "List.find P (xs @ ys) =
  (case List.find P xs of Some x \<Rightarrow> Some x | None \<Rightarrow> List.find P ys)"
  by (induction xs) auto

lemma find_exists_row: "List.find P rows = None \<longleftrightarrow> \<not> exists_row P rows"
  by (auto simp: find_None_iff exists_row_iff)

lemma filter_sort_key_id:
  "sorted (map f xs) \<Longrightarrow> sort_key f xs = xs"
  by (rule sort_key_id_if_sorted)

lemma ToLower_ascii: "list_all ascii_byte s \<Longrightarrow> ToLower ul s = map ascii_lower s"
  by (simp add: ToLower_def)


subsection \<open>Tables with a primary key\<close>

text \<open>
  \<open>key\<close> is the primary key of the rows. Primary-key uniqueness is \<open>keys_distinct\<close>; a
  statement whose \<open>WHERE\<close> clause fixes the key touches that row only.
\<close>

definition keys_distinct :: "('r \<Rightarrow> 'k) \<Rightarrow> 'r list \<Rightarrow> bool" where
  "keys_distinct key rows \<longleftrightarrow> distinct (map key rows)"

definition row_at :: "('r \<Rightarrow> 'k) \<Rightarrow> 'k \<Rightarrow> 'r list \<Rightarrow> 'r option" where
  "row_at key k rows = List.find (\<lambda>r. key r = k) rows"

lemma row_at_simps [simp]:
  "row_at key k [] = None"
  "row_at key k (r # rows) = (if key r = k then Some r else row_at key k rows)"
  by (simp_all add: row_at_def)

lemma row_at_Some: "row_at key k rows = Some r \<Longrightarrow> r \<in> set rows \<and> key r = k"
  by (auto simp: row_at_def dest: find_Some_in)

lemma row_at_None: "row_at key k rows = None \<longleftrightarrow> (\<forall>r\<in>set rows. key r \<noteq> k)"
  by (auto simp: row_at_def find_None_iff)

lemma row_at_append:
  "row_at key k (xs @ ys) =
     (case row_at key k xs of Some r \<Rightarrow> Some r | None \<Rightarrow> row_at key k ys)"
  by (induction xs) auto

lemma row_at_in:
  "keys_distinct key rows \<Longrightarrow> r \<in> set rows \<Longrightarrow> row_at key (key r) rows = Some r"
  by (induction rows) (auto simp: keys_distinct_def)

lemma row_at_iff:
  "keys_distinct key rows \<Longrightarrow> row_at key k rows = Some r \<longleftrightarrow> r \<in> set rows \<and> key r = k"
  using row_at_in row_at_Some by metis

lemma row_at_update_where:
  assumes "\<And>r. key (f r) = key r"
  shows "row_at key k (update_where P f rows) =
    map_option (\<lambda>r. if P r then f r else r) (row_at key k rows)"
  using assms by (induction rows) auto

lemma map_key_update_where:
  assumes "\<And>r. key (f r) = key r"
  shows "map key (update_where P f rows) = map key rows"
  using assms by (induction rows) auto

lemma keys_distinct_update_where:
  assumes "\<And>r. key (f r) = key r"
  shows "keys_distinct key (update_where P f rows) = keys_distinct key rows"
  unfolding keys_distinct_def by (subst map_key_update_where) (simp_all add: assms)

lemma keys_distinct_append:
  "keys_distinct key rows \<Longrightarrow> row_at key (key r) rows = None \<Longrightarrow> keys_distinct key (rows @ [r])"
  by (auto simp: keys_distinct_def row_at_None)

lemma keys_distinct_filter: "keys_distinct key rows \<Longrightarrow> keys_distinct key (filter P rows)"
  by (simp add: keys_distinct_def distinct_map_filter)

lemma keys_distinct_delete_where:
  "keys_distinct key rows \<Longrightarrow> keys_distinct key (delete_where P rows)"
  by (simp add: delete_where_def keys_distinct_filter)

text \<open>
  An \<open>UPDATE ... WHERE key = k AND g RETURNING *\<close> finds its row by the whole clause; with a
  distinct key that is the row at the key, if the guard holds of it.
\<close>

lemma find_guarded_key:
  assumes "keys_distinct key rows"
  shows "List.find (\<lambda>r. key r = k \<and> g r) rows =
    (case row_at key k rows of Some r \<Rightarrow> if g r then Some r else None | None \<Rightarrow> None)"
  using assms
proof (induction rows)
  case (Cons r rows)
  then have IH: "List.find (\<lambda>r. key r = k \<and> g r) rows =
    (case row_at key k rows of Some r \<Rightarrow> if g r then Some r else None | None \<Rightarrow> None)"
    and new: "key r \<notin> key ` set rows"
    by (auto simp: keys_distinct_def)
  show ?case
  proof (cases "key r = k")
    case True
    with new have "row_at key k rows = None" unfolding row_at_None by (metis imageI)
    with IH True show ?thesis by auto
  next
    case False
    with IH show ?thesis by auto
  qed
qed simp


lemma update_where_guarded:
  assumes "keys_distinct key rows" "row_at key k rows = Some r" "g r"
  shows "update_where (\<lambda>x. key x = k \<and> g x) f rows = update_where (\<lambda>x. key x = k) (\<lambda>_. f r) rows"
proof -
  have "x = r" if "x \<in> set rows" "key x = k" for x
    using assms(1,2) that row_at_in by fastforce
  then show ?thesis
    unfolding update_where_def using assms(3) by (auto intro!: map_cong)
qed

subsection \<open>Programs that only make related steps\<close>

lemma state_io_relD: "state_io_rel R prog \<Longrightarrow> run_state prog s = (x, s') \<Longrightarrow> R s s'"
  by (auto simp: state_io_rel_def) (metis snd_conv)

lemma state_io_relI: "(\<And>s x s'. run_state prog s = (x, s') \<Longrightarrow> R s s') \<Longrightarrow> state_io_rel R prog"
  by (simp add: state_io_rel_def) (metis prod.collapse)

locale transition_preorder =
  fixes R :: "'s \<Rightarrow> 's \<Rightarrow> bool"
  assumes R_refl: "R s s"
    and R_trans: "R s t \<Longrightarrow> R t u \<Longrightarrow> R s u"
begin

lemma io_return [intro]: "state_io_rel R (State_Monad.return x)"
  by (auto simp: state_io_rel_def R_refl)

lemma io_bind [intro]:
  assumes "state_io_rel R m" and "\<And>x. state_io_rel R (f x)"
  shows "state_io_rel R (State_Monad.bind m f)"
  using assms R_trans by (auto simp: state_io_rel_def split: prod.splits) (metis snd_conv)

lemma io_if [intro]:
  "state_io_rel R m \<Longrightarrow> state_io_rel R n \<Longrightarrow> state_io_rel R (if b then m else n)"
  by simp

lemma io_option [intro]:
  "state_io_rel R m \<Longrightarrow> (\<And>x. state_io_rel R (f x)) \<Longrightarrow>
   state_io_rel R (case z of None \<Rightarrow> m | Some x \<Rightarrow> f x)"
  by (cases z) auto

lemma io_sum [intro]:
  "(\<And>x. state_io_rel R (f x)) \<Longrightarrow> (\<And>y. state_io_rel R (g y)) \<Longrightarrow>
   state_io_rel R (case z of Inl x \<Rightarrow> f x | Inr y \<Rightarrow> g y)"
  by (cases z) auto

end

end
