(* ===== verification/Models.thy ===== *)
theory Models
  imports Prelude
begin

text \<open>
  The data model: the request, response and entity types of \<open>internal/sync/models.go\<close>, the
  table rows of \<open>internal/store/db/models.go\<close>, and the error values of the service.

  Field names carry a prefix for their type, since HOL record fields share one name space.
  A pointer or nullable column is an \<open>option\<close>. A \<open>json.RawMessage\<close> that the server produces
  (a change payload, a conflict body, a stored outcome) is the document it encodes, a value
  of \<open>document\<close>: the columns are \<open>jsonb\<close>, which keeps the value and not its text. The
  \<open>data\<close> a client sends is its raw text, which only \<open>json.Unmarshal\<close> reads.
\<close>

record Device =
  d_id :: uuid
  d_name :: string
  d_platform :: string

record Mutation =
  m_id :: uuid
  m_entity :: string
  m_entity_id :: uuid
  m_operation :: string
  m_base_version :: int
  m_data :: string

record Request =
  rq_cursor :: int
  rq_device :: Device
  rq_mutations :: "Mutation list"
  rq_limit :: int

record Session =
  s_id :: uuid
  s_name :: string
  s_event :: string
  s_kind :: string
  s_started_at :: time
  s_ended_at :: "time option"
  s_archived :: bool
  s_version :: int
  s_updated_at :: time
  s_deleted_at :: "time option"

record Solve =
  sv_id :: uuid
  sv_session_id :: "uuid option"
  sv_duration_ms :: int
  sv_penalty :: string
  sv_solved_at :: time
  sv_scramble :: string
  sv_event :: string
  sv_timing_device :: string
  sv_version :: int
  sv_updated_at :: time
  sv_deleted_at :: "time option"

record DeleteStub =
  ds_id :: uuid
  ds_version :: int
  ds_deleted_at :: "time option"

record ConflictStub =
  cf_id :: uuid
  cf_version :: int
  cf_updated_at :: time

datatype document =
    SessionDoc Session
  | SolveDoc Solve
  | DeleteDoc DeleteStub
  | ConflictDoc ConflictStub

text \<open>
  \<open>json.Marshal\<close> of these documents fails on one thing only: a \<open>time.Time\<close> whose year is not
  in \<open>[0, 9999]\<close> (\<open>Time.MarshalJSON\<close>). Days are counted from January 1 of year 1; times read
  from the database are in UTC.
\<close>

definition json_time_ok :: "time \<Rightarrow> bool" where
  "json_time_ok t \<longleftrightarrow> - (366 * (24 * Hour)) \<le> t \<and> t < 3652059 * (24 * Hour)"

definition json_times_ok :: "time list \<Rightarrow> time option list \<Rightarrow> bool" where
  "json_times_ok ts os \<longleftrightarrow> list_all json_time_ok ts \<and> list_all (\<lambda>o'. case o' of None \<Rightarrow> True | Some t \<Rightarrow> json_time_ok t) os"

definition document_json_ok :: "document \<Rightarrow> bool" where
  "document_json_ok doc =
     (case doc of
        SessionDoc x \<Rightarrow> json_times_ok [s_started_at x, s_updated_at x] [s_ended_at x, s_deleted_at x]
      | SolveDoc x \<Rightarrow> json_times_ok [sv_solved_at x, sv_updated_at x] [sv_deleted_at x]
      | DeleteDoc x \<Rightarrow> json_times_ok [] [ds_deleted_at x]
      | ConflictDoc x \<Rightarrow> json_times_ok [cf_updated_at x] [])"

record MutationOutcome =
  mo_mutation_id :: uuid
  mo_status :: string
  mo_version :: int
  mo_code :: string
  mo_message :: string
  mo_current :: "document option"

record Change =
  ch_cursor :: int
  ch_entity :: string
  ch_entity_id :: uuid
  ch_operation :: string
  ch_version :: int
  ch_data :: document
  ch_changed_at :: time

record Response =
  rs_outcomes :: "MutationOutcome list"
  rs_changes :: "Change list"
  rs_next_cursor :: int
  rs_has_more :: bool

record SnapshotRequest =
  sq_device :: Device
  sq_cursor :: int
  sq_after_id :: uuid
  sq_entity :: string
  sq_page_size :: int

record SnapshotResponse =
  sr_sessions :: "Session list"
  sr_solves :: "Solve list"
  sr_cursor :: int
  sr_has_more :: bool
  sr_next_entity :: string
  sr_next_after_id :: uuid


subsection \<open>Table rows (\<open>internal/store/db/models.go\<close>)\<close>

record ChangeLog =
  cl_change_id :: int
  cl_user_id :: uuid
  cl_entity_type :: string
  cl_entity_id :: uuid
  cl_operation :: string
  cl_version :: int
  cl_payload :: document
  cl_created_at :: time

record CubeSession =
  cs_id :: uuid
  cs_user_id :: uuid
  cs_name :: string
  cs_event :: string
  cs_kind :: string
  cs_started_at :: time
  cs_ended_at :: "time option"
  cs_archived :: bool
  cs_version :: int
  cs_updated_at :: time
  cs_deleted_at :: "time option"

record DeviceRow =
  dv_id :: uuid
  dv_user_id :: uuid
  dv_name :: string
  dv_platform :: string
  dv_first_seen_at :: time
  dv_last_seen_at :: time
  dv_last_ack_cursor :: int

record Identity =
  id_id :: uuid
  id_user_id :: uuid
  id_provider :: string
  id_subject :: string
  id_email :: "string option"
  id_created_at :: time

record OneTimeToken =
  ot_id :: uuid
  ot_user_id :: uuid
  ot_kind :: string
  ot_token_hash :: string
  ot_expires_at :: time
  ot_used_at :: "time option"
  ot_created_at :: time

record PasswordCredential =
  pc_user_id :: uuid
  pc_password_hash :: string
  pc_updated_at :: time

record ProcessedMutation =
  pm_user_id :: uuid
  pm_device_id :: uuid
  pm_mutation_id :: uuid
  pm_outcome :: MutationOutcome
  pm_created_at :: time

record RefreshToken =
  rt_id :: uuid
  rt_family_id :: uuid
  rt_user_id :: uuid
  rt_token_hash :: string
  rt_expires_at :: time
  rt_used_at :: "time option"
  rt_revoked_at :: "time option"
  rt_created_at :: time

record RequestError =
  qe_id :: int
  qe_created_at :: time
  qe_user_id :: "uuid option"
  qe_method :: string
  qe_route :: string
  qe_status_code :: int
  qe_code :: string
  qe_message :: string

record RequestStatsHourly =
  qh_bucket_hour :: time
  qh_method :: string
  qh_route :: string
  qh_status_code :: int
  qh_request_count :: int
  qh_total_duration_ms :: int
  qh_max_duration_ms :: int

record Solf =
  sf_id :: uuid
  sf_user_id :: uuid
  sf_session_id :: "uuid option"
  sf_duration_ms :: int
  sf_penalty :: string
  sf_solved_at :: time
  sf_scramble :: string
  sf_event :: string
  sf_version :: int
  sf_updated_at :: time
  sf_deleted_at :: "time option"
  sf_timing_device :: string

record UserRow =
  us_id :: uuid
  us_email :: string
  us_email_verified_at :: "time option"
  us_created_at :: time
  us_updated_at :: time
  us_user_role :: string


subsection \<open>Errors\<close>

text \<open>
  What a statement can answer besides its result. \<open>ErrNoRows\<close> is pgx's answer to an empty
  result of a \<open>:one\<close> query and leaves a transaction usable; every other value is an error of
  the server or the connection. The violations are the SQLSTATE classes the code tests for
  (\<open>23505\<close>, \<open>23503\<close>) and those its statements can raise (\<open>23514\<close>, \<open>22021\<close>, \<open>2201W\<close>, \<open>22003\<close>);
  \<open>InFailedTransaction\<close> is \<open>25P02\<close>.
\<close>

datatype pgerror =
    ErrNoRows
  | UniqueViolation
  | ForeignKeyViolation
  | CheckViolation
  | InvalidText
  | NegativeLimit
  | OutOfRange
  | InFailedTransaction
  | ConnectionFailure
  | TxCommitRollback

text \<open>
  A Go \<open>error\<close>: wrapping with \<open>fmt.Errorf("...: %w", err)\<close> keeps the cause, which is all that
  \<open>errors.Is\<close> and \<open>errors.As\<close> look at, so the wrapped error is represented by its cause.
  \<open>GoPanic\<close> is a run-time panic, which the \<open>Recoverer\<close> middleware turns into a 500.
\<close>

datatype error =
    PgError pgerror
  | ClientError string string
  | AuthError string string
  | AdminError string string
  | OtherError string
  | GoPanic

definition isForeignKeyViolation :: "pgerror \<Rightarrow> bool" where
  "isForeignKeyViolation e \<longleftrightarrow> e = ForeignKeyViolation"

definition isUniqueViolation :: "pgerror \<Rightarrow> bool" where
  "isUniqueViolation e \<longleftrightarrow> e = UniqueViolation"

text \<open>The pattern \<open>err != nil && !errors.Is(err, pgx.ErrNoRows)\<close>: no row is not a failure.\<close>

definition optional_row :: "pgerror + 'a \<Rightarrow> pgerror + 'a option" where
  "optional_row r =
     (case r of Inr x \<Rightarrow> Inr (Some x)
      | Inl e \<Rightarrow> if e = ErrNoRows then Inr None else Inl e)"

lemma optional_row_simps [simp]:
  "optional_row (Inr x) = Inr (Some x)"
  "optional_row (Inl ErrNoRows) = Inr None"
  "e \<noteq> ErrNoRows \<Longrightarrow> optional_row (Inl e) = Inl e"
  by (simp_all add: optional_row_def)

end
