(* ===== verification/Schema.thy ===== *)
theory Schema
  imports Models
begin

text \<open>
  The database and its transactions.

  \<open>db\<close> holds the tables of \<open>db/migrations\<close> that the modelled services use, and the
  \<open>bigserial\<close> sequences behind \<open>change_log.change_id\<close> and \<open>request_errors.id\<close>. A SQL statement is a state
  transformer of the database that answers a row or an error.

  \<open>exec\<close> runs a statement inside a transaction the way PostgreSQL does: an error puts the
  transaction into the failed state, in which every later statement is refused until the
  end of the block (SQLSTATE \<open>25P02\<close>). \<open>in_tx\<close> is the pattern
  \<open>tx := Begin(); defer tx.Rollback(); ...; tx.Commit()\<close>. \<open>exec_pool\<close> runs a statement on
  the pool, in a transaction of its own.

  The connection may fail at any statement. Which ones fail is part of the state, a list
  with one entry per round trip (no entry: no failure): \<open>Lost\<close> is a failure before the
  server did anything, \<open>LostAck\<close> a failure after it did the work and before the answer
  arrived, which matters for a commit and for statements on the pool.
\<close>

record db =
  users :: "UserRow list"
  password_credentials :: "PasswordCredential list"
  identities :: "Identity list"
  refresh_tokens :: "RefreshToken list"
  one_time_tokens :: "OneTimeToken list"
  devices :: "DeviceRow list"
  cube_sessions :: "CubeSession list"
  solves :: "Solf list"
  processed_mutations :: "ProcessedMutation list"
  change_log :: "ChangeLog list"
  change_seq :: int
  request_stats_hourly :: "RequestStatsHourly list"
  request_errors :: "RequestError list"
  request_errors_id_seq :: int

definition empty_db :: db where
  "empty_db = \<lparr> users = [], password_credentials = [], identities = [], refresh_tokens = [],
     one_time_tokens = [], devices = [], cube_sessions = [], solves = [],
     processed_mutations = [], change_log = [], change_seq = 0, request_stats_hourly = [], request_errors = [],
     request_errors_id_seq = 0 \<rparr>"

type_synonym 'a stmt = "db \<Rightarrow> (pgerror + 'a) \<times> db"

datatype fault = Delivered | Lost | LostAck

record tx =
  tables :: db
  aborted :: bool
  tx_faults :: "fault list"
  held_locks :: "int list"

record world =
  committed :: db
  faults :: "fault list"

definition next_fault :: "fault list \<Rightarrow> fault" where
  "next_fault fs = (case fs of [] \<Rightarrow> Delivered | f # _ \<Rightarrow> f)"

definition exec :: "'a stmt \<Rightarrow> (tx, pgerror + 'a) state" where
  "exec st = State (\<lambda>t.
     let t' = t\<lparr>tx_faults := tl (tx_faults t)\<rparr> in
     if next_fault (tx_faults t) \<noteq> Delivered then (Inl ConnectionFailure, t'\<lparr>aborted := True\<rparr>)
     else if aborted t then (Inl InFailedTransaction, t')
     else case st (tables t) of
            (Inr x, d) \<Rightarrow> (Inr x, t'\<lparr>tables := d\<rparr>)
          | (Inl e, d) \<Rightarrow> (Inl e, t'\<lparr>tables := d, aborted := (e \<noteq> ErrNoRows)\<rparr>))"

definition exec_pool :: "'a stmt \<Rightarrow> (world, pgerror + 'a) state" where
  "exec_pool st = State (\<lambda>w.
     let w' = w\<lparr>faults := tl (faults w)\<rparr> in
     case next_fault (faults w) of
       Lost \<Rightarrow> (Inl ConnectionFailure, w')
     | LostAck \<Rightarrow> (Inl ConnectionFailure, w'\<lparr>committed := snd (st (committed w))\<rparr>)
     | Delivered \<Rightarrow> (fst (st (committed w)), w'\<lparr>committed := snd (st (committed w))\<rparr>))"

text \<open>
  How the body of a transaction ends: it returns before \<open>Commit\<close> with an error, and the
  deferred \<open>Rollback\<close> discards its work, or it calls \<open>Commit\<close> and returns a result, which
  may itself be an error.
\<close>

datatype 'a tx_end = RolledBack error | Commits "error + 'a"

text \<open>
  A rollback undoes the tables; sequence values that were drawn stay drawn. The other sequence is
  never drawn from in a transaction with more than one statement.
\<close>

definition rollback :: "db \<Rightarrow> db \<Rightarrow> db" where
  "rollback before after = before\<lparr>change_seq := change_seq after\<rparr>"

definition in_tx :: "(tx, 'a tx_end) state \<Rightarrow> (world, error + 'a) state" where
  "in_tx body = State (\<lambda>w.
     if next_fault (faults w) \<noteq> Delivered
     then (Inl (PgError ConnectionFailure), w\<lparr>faults := tl (faults w)\<rparr>)
     else case run_state body \<lparr> tables = committed w, aborted = False,
                                tx_faults = tl (faults w), held_locks = [] \<rparr> of
       (RolledBack e, t) \<Rightarrow>
         (Inl e, w\<lparr>committed := rollback (committed w) (tables t), faults := tx_faults t\<rparr>)
     | (Commits r, t) \<Rightarrow>
         let fs = tl (tx_faults t); f = next_fault (tx_faults t) in
         if aborted t then
           (Inl (PgError (if f = Delivered then TxCommitRollback else ConnectionFailure)),
            w\<lparr>committed := rollback (committed w) (tables t), faults := fs\<rparr>)
         else if f = Lost then
           (Inl (PgError ConnectionFailure),
            w\<lparr>committed := rollback (committed w) (tables t), faults := fs\<rparr>)
         else if f = LostAck then
           (Inl (PgError ConnectionFailure), w\<lparr>committed := tables t, faults := fs\<rparr>)
         else (r, w\<lparr>committed := tables t, faults := fs\<rparr>))"


subsection \<open>Evaluation\<close>

lemma next_fault_simps [simp]: "next_fault [] = Delivered" "next_fault (f # fs) = f"
  by (simp_all add: next_fault_def)

lemma run_exec_clean [run_simps]:
  assumes "tx_faults t = []" "\<not> aborted t"
  shows "run_state (exec st) t =
    (case st (tables t) of (Inr x, d) \<Rightarrow> (Inr x, t\<lparr>tables := d\<rparr>)
     | (Inl e, d) \<Rightarrow> (Inl e, t\<lparr>tables := d, aborted := (e \<noteq> ErrNoRows)\<rparr>))"
  using assms by (auto simp: exec_def split: sum.splits prod.splits)

lemma run_exec_aborted:
  assumes "aborted t" "run_state (exec st) t = (r, t')"
  shows "aborted t' \<and> tables t' = tables t \<and>
    (r = Inl InFailedTransaction \<or> r = Inl ConnectionFailure)"
  using assms by (auto simp: exec_def Let_def split: if_splits)

lemma run_exec_pool_clean [run_simps]:
  "faults w = [] \<Longrightarrow> run_state (exec_pool st) w =
    (fst (st (committed w)), w\<lparr>committed := snd (st (committed w))\<rparr>)"
  by (simp add: exec_pool_def)

lemma run_in_tx_clean [run_simps]:
  "faults w = [] \<Longrightarrow> run_state (in_tx body) w =
    (case run_state body \<lparr> tables = committed w, aborted = False, tx_faults = [], held_locks = [] \<rparr> of
       (RolledBack e, t) \<Rightarrow>
         (Inl e, w\<lparr>committed := rollback (committed w) (tables t), faults := tx_faults t\<rparr>)
     | (Commits r, t) \<Rightarrow>
         let fs = tl (tx_faults t); f = next_fault (tx_faults t) in
         if aborted t then
           (Inl (PgError (if f = Delivered then TxCommitRollback else ConnectionFailure)),
            w\<lparr>committed := rollback (committed w) (tables t), faults := fs\<rparr>)
         else if f = Lost then
           (Inl (PgError ConnectionFailure),
            w\<lparr>committed := rollback (committed w) (tables t), faults := fs\<rparr>)
         else if f = LostAck then
           (Inl (PgError ConnectionFailure), w\<lparr>committed := tables t, faults := fs\<rparr>)
         else (r, w\<lparr>committed := tables t, faults := fs\<rparr>))"
  by (simp add: in_tx_def)

subsection \<open>What a statement inside a transaction can answer\<close>

text \<open>
  Either the transaction is (now) in the failed state, or it was and is usable and the
  statement answered a row or no row.
\<close>

lemma exec_cases [consumes 1, case_names failed no_rows row]:
  assumes "run_state (exec st) t = (r, t')"
  obtains (failed) err where "r = Inl err" "err \<noteq> ErrNoRows" "aborted t'"
  | (no_rows) "r = Inl ErrNoRows" "\<not> aborted t" "\<not> aborted t'" "st (tables t) = (Inl ErrNoRows, tables t')"
  | (row) x where "r = Inr x" "\<not> aborted t" "\<not> aborted t'" "st (tables t) = (Inr x, tables t')"
proof (cases "next_fault (tx_faults t) = Delivered \<and> \<not> aborted t")
  case False
  with assms have "aborted t'" "r = Inl ConnectionFailure \<or> r = Inl InFailedTransaction"
    by (auto simp: exec_def Let_def split: if_splits)
  with failed show thesis by blast
next
  case True
  obtain q d where q: "st (tables t) = (q, d)" by fastforce
  show thesis
  proof (cases q)
    case (Inl err)
    with True q assms have "r = Inl err" "tables t' = d" "aborted t' = (err \<noteq> ErrNoRows)"
      by (auto simp: exec_def Let_def)
    with True q Inl failed no_rows show thesis by (cases "err = ErrNoRows") simp_all
  next
    case (Inr x)
    with True q assms have "r = Inr x" "tables t' = d" "aborted t' = aborted t"
      by (auto simp: exec_def Let_def)
    with True q Inr row show thesis by simp
  qed
qed

lemma exec_Inr:
  assumes "run_state (exec st) t = (Inr x, t')"
  shows "\<not> aborted t \<and> \<not> aborted t' \<and> st (tables t) = (Inr x, tables t')"
  using assms by (cases rule: exec_cases) auto

end
