(* ===== verification/Sync_Queries.thy ===== *)
theory Sync_Queries
  imports Schema
begin

text \<open>
  The statements of \<open>internal/store/db/sync.sql.go\<close> and \<open>snapshot.sql.go\<close>, with the
  constraints of the schema they run against: primary keys, foreign keys, \<open>CHECK\<close> clauses
  and the column defaults. \<open>now\<close> is the server's \<open>now()\<close>. A statement that fails leaves the
  tables as they were.
\<close>

definition user_exists :: "uuid \<Rightarrow> db \<Rightarrow> bool" where
  "user_exists u d \<longleftrightarrow> exists_row (\<lambda>r. us_id r = u) (users d)"

definition cs_key :: "CubeSession \<Rightarrow> uuid \<times> uuid" where
  "cs_key r = (cs_user_id r, cs_id r)"

definition sf_key :: "Solf \<Rightarrow> uuid \<times> uuid" where
  "sf_key r = (sf_user_id r, sf_id r)"

definition dv_key :: "DeviceRow \<Rightarrow> uuid \<times> uuid" where
  "dv_key r = (dv_user_id r, dv_id r)"

definition pm_key :: "ProcessedMutation \<Rightarrow> uuid \<times> uuid \<times> uuid" where
  "pm_key r = (pm_user_id r, pm_device_id r, pm_mutation_id r)"

definition AppendChange ::
  "time \<Rightarrow> uuid \<Rightarrow> string \<Rightarrow> uuid \<Rightarrow> string \<Rightarrow> int \<Rightarrow> document \<Rightarrow> int stmt" where
  "AppendChange now user_id entity_type entity_id operation version payload d =
     (let change_id = change_seq d + 1; d' = d\<lparr>change_seq := change_id\<rparr> in
      if entity_type \<notin> {''session'', ''solve''} \<or> operation \<notin> {''upsert'', ''delete''}
      then (Inl CheckViolation, d')
      else if \<not> user_exists user_id d then (Inl ForeignKeyViolation, d')
      else (Inr change_id, d'\<lparr>change_log := change_log d @
        [\<lparr> cl_change_id = change_id, cl_user_id = user_id, cl_entity_type = entity_type,
           cl_entity_id = entity_id, cl_operation = operation, cl_version = version,
           cl_payload = payload, cl_created_at = now \<rparr>]\<rparr>))"

definition tombstone_session :: "time \<Rightarrow> CubeSession \<Rightarrow> CubeSession" where
  "tombstone_session now r =
     r\<lparr>cs_version := cs_version r + 1, cs_updated_at := now, cs_deleted_at := Some now\<rparr>"

definition DeleteSession :: "time \<Rightarrow> uuid \<Rightarrow> uuid \<Rightarrow> int \<Rightarrow> CubeSession stmt" where
  "DeleteSession now user_id i version d =
     (let P = (\<lambda>r. cs_key r = (user_id, i) \<and> cs_version r = version \<and> cs_deleted_at r = None) in
      case List.find P (cube_sessions d) of
        None \<Rightarrow> (Inl ErrNoRows, d)
      | Some r \<Rightarrow> (Inr (tombstone_session now r),
          d\<lparr>cube_sessions := update_where P (tombstone_session now) (cube_sessions d)\<rparr>))"

definition tombstone_solve :: "time \<Rightarrow> Solf \<Rightarrow> Solf" where
  "tombstone_solve now r =
     r\<lparr>sf_version := sf_version r + 1, sf_updated_at := now, sf_deleted_at := Some now\<rparr>"

definition DeleteSolve :: "time \<Rightarrow> uuid \<Rightarrow> uuid \<Rightarrow> int \<Rightarrow> Solf stmt" where
  "DeleteSolve now user_id i version d =
     (let P = (\<lambda>r. sf_key r = (user_id, i) \<and> sf_version r = version \<and> sf_deleted_at r = None) in
      case List.find P (solves d) of
        None \<Rightarrow> (Inl ErrNoRows, d)
      | Some r \<Rightarrow> (Inr (tombstone_solve now r),
          d\<lparr>solves := update_where P (tombstone_solve now) (solves d)\<rparr>))"

definition GetProcessedMutation :: "uuid \<Rightarrow> uuid \<Rightarrow> uuid \<Rightarrow> MutationOutcome stmt" where
  "GetProcessedMutation user_id device_id mutation_id d =
     (case row_at pm_key (user_id, device_id, mutation_id) (processed_mutations d) of
        None \<Rightarrow> (Inl ErrNoRows, d) | Some r \<Rightarrow> (Inr (pm_outcome r), d))"

definition GetSessionForUpdate :: "uuid \<Rightarrow> uuid \<Rightarrow> CubeSession stmt" where
  "GetSessionForUpdate user_id i d =
     (case row_at cs_key (user_id, i) (cube_sessions d) of
        None \<Rightarrow> (Inl ErrNoRows, d) | Some r \<Rightarrow> (Inr r, d))"

definition GetSolveForUpdate :: "uuid \<Rightarrow> uuid \<Rightarrow> Solf stmt" where
  "GetSolveForUpdate user_id i d =
     (case row_at sf_key (user_id, i) (solves d) of
        None \<Rightarrow> (Inl ErrNoRows, d) | Some r \<Rightarrow> (Inr r, d))"

text \<open>The client-supplied columns of a session, as \<open>InsertSessionParams\<close> lists them.\<close>

definition session_row :: "time \<Rightarrow> uuid \<Rightarrow> int \<Rightarrow> Session \<Rightarrow> CubeSession" where
  "session_row now user_id version x =
     \<lparr> cs_id = s_id x, cs_user_id = user_id, cs_name = s_name x, cs_event = s_event x,
       cs_kind = s_kind x, cs_started_at = s_started_at x, cs_ended_at = s_ended_at x,
       cs_archived = s_archived x, cs_version = version, cs_updated_at = now,
       cs_deleted_at = None \<rparr>"

definition session_text_ok :: "Session \<Rightarrow> bool" where
  "session_text_ok x \<longleftrightarrow> text_ok (s_name x) \<and> text_ok (s_event x) \<and> text_ok (s_kind x)"

definition session_check :: "Session \<Rightarrow> bool" where
  "session_check x \<longleftrightarrow> s_kind x \<in> {''manual'', ''automatic''}"

definition InsertSession :: "time \<Rightarrow> uuid \<Rightarrow> Session \<Rightarrow> CubeSession stmt" where
  "InsertSession now user_id x d =
     (if \<not> session_text_ok x then (Inl InvalidText, d)
      else if \<not> session_check x then (Inl CheckViolation, d)
      else if row_at cs_key (user_id, s_id x) (cube_sessions d) \<noteq> None
      then (Inl UniqueViolation, d)
      else if \<not> user_exists user_id d then (Inl ForeignKeyViolation, d)
      else (Inr (session_row now user_id 1 x),
            d\<lparr>cube_sessions := cube_sessions d @ [session_row now user_id 1 x]\<rparr>))"

definition UpdateSession :: "time \<Rightarrow> uuid \<Rightarrow> Session \<Rightarrow> int \<Rightarrow> CubeSession stmt" where
  "UpdateSession now user_id x version d =
     (let P = (\<lambda>r. cs_key r = (user_id, s_id x) \<and> cs_version r = version);
          upd = (\<lambda>r. session_row now user_id (cs_version r + 1) x) in
      if \<not> session_text_ok x then (Inl InvalidText, d)
      else case List.find P (cube_sessions d) of
        None \<Rightarrow> (Inl ErrNoRows, d)
      | Some r \<Rightarrow>
          if \<not> session_check x then (Inl CheckViolation, d)
          else (Inr (upd r), d\<lparr>cube_sessions := update_where P upd (cube_sessions d)\<rparr>))"

definition solve_row :: "time \<Rightarrow> uuid \<Rightarrow> int \<Rightarrow> Solve \<Rightarrow> Solf" where
  "solve_row now user_id version x =
     \<lparr> sf_id = sv_id x, sf_user_id = user_id, sf_session_id = sv_session_id x,
       sf_duration_ms = sv_duration_ms x, sf_penalty = sv_penalty x,
       sf_solved_at = sv_solved_at x, sf_scramble = sv_scramble x, sf_event = sv_event x,
       sf_version = version, sf_updated_at = now, sf_deleted_at = None,
       sf_timing_device = sv_timing_device x \<rparr>"

definition solve_text_ok :: "Solve \<Rightarrow> bool" where
  "solve_text_ok x \<longleftrightarrow> text_ok (sv_penalty x) \<and> text_ok (sv_scramble x) \<and>
     text_ok (sv_event x) \<and> text_ok (sv_timing_device x)"

definition solve_check :: "Solve \<Rightarrow> bool" where
  "solve_check x \<longleftrightarrow> 0 \<le> sv_duration_ms x \<and> sv_penalty x \<in> {''none'', ''plus_two'', ''dnf''} \<and>
     sv_timing_device x \<in> {''keyboard'', ''external_timer'', ''smart_cube''}"

text \<open>The foreign key \<open>(user_id, session_id)\<close>: a null reference is not checked.\<close>

definition session_ref_ok :: "uuid \<Rightarrow> uuid option \<Rightarrow> db \<Rightarrow> bool" where
  "session_ref_ok user_id ref d \<longleftrightarrow>
     (case ref of None \<Rightarrow> True
      | Some i \<Rightarrow> row_at cs_key (user_id, i) (cube_sessions d) \<noteq> None)"

definition InsertSolve :: "time \<Rightarrow> uuid \<Rightarrow> Solve \<Rightarrow> Solf stmt" where
  "InsertSolve now user_id x d =
     (if \<not> solve_text_ok x then (Inl InvalidText, d)
      else if \<not> solve_check x then (Inl CheckViolation, d)
      else if row_at sf_key (user_id, sv_id x) (solves d) \<noteq> None then (Inl UniqueViolation, d)
      else if \<not> user_exists user_id d \<or> \<not> session_ref_ok user_id (sv_session_id x) d
      then (Inl ForeignKeyViolation, d)
      else (Inr (solve_row now user_id 1 x),
            d\<lparr>solves := solves d @ [solve_row now user_id 1 x]\<rparr>))"

definition UpdateSolve :: "time \<Rightarrow> uuid \<Rightarrow> Solve \<Rightarrow> int \<Rightarrow> Solf stmt" where
  "UpdateSolve now user_id x version d =
     (let P = (\<lambda>r. sf_key r = (user_id, sv_id x) \<and> sf_version r = version);
          upd = (\<lambda>r. solve_row now user_id (sf_version r + 1) x) in
      if \<not> solve_text_ok x then (Inl InvalidText, d)
      else case List.find P (solves d) of
        None \<Rightarrow> (Inl ErrNoRows, d)
      | Some r \<Rightarrow>
          if \<not> solve_check x then (Inl CheckViolation, d)
          else if \<not> session_ref_ok user_id (sv_session_id x) d
          then (Inl ForeignKeyViolation, d)
          else (Inr (upd r), d\<lparr>solves := update_where P upd (solves d)\<rparr>))"

definition LatestChangeCursor :: "uuid \<Rightarrow> int stmt" where
  "LatestChangeCursor user_id d =
     (let ids = map cl_change_id (filter (\<lambda>c. cl_user_id c = user_id) (change_log d)) in
      (Inr (if ids = [] then 0 else Max (set ids)), d))"

definition changes_after :: "uuid \<Rightarrow> int \<Rightarrow> db \<Rightarrow> ChangeLog list" where
  "changes_after user_id cursor d =
     sort_key cl_change_id
       (filter (\<lambda>c. cl_user_id c = user_id \<and> cursor < cl_change_id c) (change_log d))"

definition ListChanges :: "uuid \<Rightarrow> int \<Rightarrow> int \<Rightarrow> ChangeLog list stmt" where
  "ListChanges user_id change_id lim d =
     (if lim < 0 then (Inl NegativeLimit, d)
      else (Inr (take (nat lim) (changes_after user_id change_id d)), d))"

definition ListUsersWithChanges :: "uuid list stmt" where
  "ListUsersWithChanges d =
     (Inr (filter (\<lambda>u. exists_row (\<lambda>c. cl_user_id c = u) (change_log d)) (map us_id (users d))), d)"

definition MinValidCursorForUser :: "uuid \<Rightarrow> time \<Rightarrow> int stmt" where
  "MinValidCursorForUser user_id last_seen_at d =
     (let acks = map dv_last_ack_cursor
                   (filter (\<lambda>r. dv_user_id r = user_id \<and> last_seen_at < dv_last_seen_at r) (devices d)) in
      (Inr (if acks = [] then 0 else Min (set acks)), d))"

definition PruneChangeLog :: "uuid \<Rightarrow> int \<Rightarrow> int stmt" where
  "PruneChangeLog user_id change_id d =
     (let P = (\<lambda>c. cl_user_id c = user_id \<and> cl_change_id c < change_id) in
      (Inr (int (length (filter P (change_log d)))),
       d\<lparr>change_log := delete_where P (change_log d)\<rparr>))"

definition PruneProcessedMutations :: "uuid \<Rightarrow> time \<Rightarrow> int stmt" where
  "PruneProcessedMutations user_id created_at d =
     (let P = (\<lambda>r. pm_user_id r = user_id \<and> pm_created_at r < created_at) in
      (Inr (int (length (filter P (processed_mutations d)))),
       d\<lparr>processed_mutations := delete_where P (processed_mutations d)\<rparr>))"

definition RecordProcessedMutation ::
  "time \<Rightarrow> uuid \<Rightarrow> uuid \<Rightarrow> uuid \<Rightarrow> MutationOutcome \<Rightarrow> unit stmt" where
  "RecordProcessedMutation now user_id device_id mutation_id outcome d =
     (if row_at pm_key (user_id, device_id, mutation_id) (processed_mutations d) \<noteq> None
      then (Inr (), d)
      else if \<not> user_exists user_id d \<or> row_at dv_key (user_id, device_id) (devices d) = None
      then (Inl ForeignKeyViolation, d)
      else (Inr (), d\<lparr>processed_mutations := processed_mutations d @
        [\<lparr> pm_user_id = user_id, pm_device_id = device_id, pm_mutation_id = mutation_id,
           pm_outcome = outcome, pm_created_at = now \<rparr>]\<rparr>))"

definition UpdateDeviceAckCursor :: "uuid \<Rightarrow> uuid \<Rightarrow> int \<Rightarrow> unit stmt" where
  "UpdateDeviceAckCursor user_id i cursor d =
     (Inr (), d\<lparr>devices := update_where (\<lambda>r. dv_key r = (user_id, i) \<and> dv_last_ack_cursor r < cursor)
                             (\<lambda>r. r\<lparr>dv_last_ack_cursor := cursor\<rparr>) (devices d)\<rparr>)"

definition UpsertDevice :: "time \<Rightarrow> uuid \<Rightarrow> uuid \<Rightarrow> string \<Rightarrow> string \<Rightarrow> unit stmt" where
  "UpsertDevice now i user_id name platform d =
     (if \<not> text_ok name \<or> \<not> text_ok platform then (Inl InvalidText, d)
      else if row_at dv_key (user_id, i) (devices d) \<noteq> None
      then (Inr (), d\<lparr>devices := update_where (\<lambda>r. dv_key r = (user_id, i))
             (\<lambda>r. r\<lparr>dv_name := name, dv_platform := platform, dv_last_seen_at := now\<rparr>) (devices d)\<rparr>)
      else if \<not> user_exists user_id d then (Inl ForeignKeyViolation, d)
      else (Inr (), d\<lparr>devices := devices d @
        [\<lparr> dv_id = i, dv_user_id = user_id, dv_name = name, dv_platform = platform,
           dv_first_seen_at = now, dv_last_seen_at = now, dv_last_ack_cursor = 0 \<rparr>]\<rparr>))"

text \<open>
  \<open>pg_advisory_xact_lock\<close> waits for the lock and holds it to the end of the transaction; it
  changes no table.
\<close>

definition AcquireAdvisoryLockByID :: "int \<Rightarrow> (tx, pgerror + unit) state" where
  "AcquireAdvisoryLockByID key = do {
     r \<leftarrow> exec (\<lambda>d. (Inr (), d));
     case r of
       Inl e \<Rightarrow> State_Monad.return (Inl e)
     | Inr _ \<Rightarrow> State (\<lambda>t. (Inr (), t\<lparr>held_locks := key # held_locks t\<rparr>))
   }"

definition SnapshotSessionsKeyset :: "uuid \<Rightarrow> uuid \<Rightarrow> int \<Rightarrow> CubeSession list stmt" where
  "SnapshotSessionsKeyset user_id i lim d =
     (if lim < 0 then (Inl NegativeLimit, d)
      else (Inr (take (nat lim) (sort_key cs_id
             (filter (\<lambda>r. cs_user_id r = user_id \<and> i < cs_id r) (cube_sessions d)))), d))"

definition SnapshotSolvesKeyset :: "uuid \<Rightarrow> uuid \<Rightarrow> int \<Rightarrow> Solf list stmt" where
  "SnapshotSolvesKeyset user_id i lim d =
     (if lim < 0 then (Inl NegativeLimit, d)
      else (Inr (take (nat lim) (sort_key sf_id
             (filter (\<lambda>r. sf_user_id r = user_id \<and> i < sf_id r) (solves d)))), d))"

subsection \<open>Keys and columns of the rows the statements write\<close>

lemma session_row_key [simp]: "cs_key (session_row now u v x) = (u, s_id x)"
  by (simp add: cs_key_def session_row_def)

lemma solve_row_key [simp]: "sf_key (solve_row now u v x) = (u, sv_id x)"
  by (simp add: sf_key_def solve_row_def)

lemma tombstone_session_key [simp]: "cs_key (tombstone_session now r) = cs_key r"
  by (simp add: cs_key_def tombstone_session_def)

lemma tombstone_solve_key [simp]: "sf_key (tombstone_solve now r) = sf_key r"
  by (simp add: sf_key_def tombstone_solve_def)

lemma session_row_simps [simp]:
  "cs_user_id (session_row now u v x) = u" "cs_id (session_row now u v x) = s_id x"
  "cs_version (session_row now u v x) = v" "cs_deleted_at (session_row now u v x) = None"
  by (simp_all add: session_row_def)

lemma solve_row_simps [simp]:
  "sf_user_id (solve_row now u v x) = u" "sf_id (solve_row now u v x) = sv_id x"
  "sf_version (solve_row now u v x) = v" "sf_deleted_at (solve_row now u v x) = None"
  "sf_session_id (solve_row now u v x) = sv_session_id x"
  by (simp_all add: solve_row_def)

lemma tombstone_session_simps [simp]:
  "cs_user_id (tombstone_session now r) = cs_user_id r" "cs_id (tombstone_session now r) = cs_id r"
  "cs_version (tombstone_session now r) = cs_version r + 1"
  "cs_deleted_at (tombstone_session now r) = Some now"
  by (simp_all add: tombstone_session_def)

lemma tombstone_solve_simps [simp]:
  "sf_user_id (tombstone_solve now r) = sf_user_id r" "sf_id (tombstone_solve now r) = sf_id r"
  "sf_version (tombstone_solve now r) = sf_version r + 1"
  "sf_deleted_at (tombstone_solve now r) = Some now"
  "sf_session_id (tombstone_solve now r) = sf_session_id r"
  by (simp_all add: tombstone_solve_def)

lemma row_at_cs_key: "row_at cs_key (u, i) rows = Some r \<Longrightarrow> cs_user_id r = u \<and> cs_id r = i"
  by (auto simp: cs_key_def dest: row_at_Some)

lemma row_at_sf_key: "row_at sf_key (u, i) rows = Some r \<Longrightarrow> sf_user_id r = u \<and> sf_id r = i"
  by (auto simp: sf_key_def dest: row_at_Some)

end
