(* ===== verification/Sync_Apply.thy ===== *)
theory Sync_Apply
  imports Sync_Queries
begin

text \<open>
  One mutation: validation and \<open>applySession\<close>, \<open>applySolve\<close>, \<open>applyMutation\<close> of
  \<open>internal/sync/service.go\<close>.

  \<open>env\<close> collects what the code takes from outside: the process clock (\<open>time.Now\<close>) and the
  server's \<open>now()\<close>, what \<open>json.Unmarshal\<close> makes of a client's bytes, the length of the text
  of a document in the change feed and in a snapshot, the Unicode case table and the text form of a UUID.
\<close>

record env =
  go_now :: time
  db_now :: time
  unmarshalSession :: "string \<Rightarrow> Session option"
  unmarshalSolve :: "string \<Rightarrow> Solve option"
  doc_len :: "document \<Rightarrow> nat"
  marshal_len :: "document \<Rightarrow> nat"
  unicode_lower :: "string \<Rightarrow> string"
  uuid_string :: "uuid \<Rightarrow> string"

definition maxSolveDurationMS :: int where
  "maxSolveDurationMS = 24 * 60 * 60 * 1000"

definition accepted :: "uuid \<Rightarrow> int \<Rightarrow> MutationOutcome" where
  "accepted i version =
     \<lparr> mo_mutation_id = i, mo_status = ''accepted'', mo_version = version, mo_code = [],
       mo_message = [], mo_current = None \<rparr>"

definition rejected :: "uuid \<Rightarrow> string \<Rightarrow> string \<Rightarrow> MutationOutcome" where
  "rejected i code message =
     \<lparr> mo_mutation_id = i, mo_status = ''rejected'', mo_version = 0, mo_code = code,
       mo_message = message, mo_current = None \<rparr>"

definition sessionFromDB :: "CubeSession \<Rightarrow> Session" where
  "sessionFromDB row =
     \<lparr> s_id = cs_id row, s_name = cs_name row, s_event = cs_event row, s_kind = cs_kind row,
       s_started_at = cs_started_at row, s_ended_at = cs_ended_at row,
       s_archived = cs_archived row, s_version = cs_version row,
       s_updated_at = cs_updated_at row, s_deleted_at = cs_deleted_at row \<rparr>"

definition solveFromDB :: "Solf \<Rightarrow> Solve" where
  "solveFromDB row =
     \<lparr> sv_id = sf_id row, sv_session_id = sf_session_id row,
       sv_duration_ms = sf_duration_ms row, sv_penalty = sf_penalty row,
       sv_solved_at = sf_solved_at row, sv_scramble = sf_scramble row,
       sv_event = sf_event row, sv_timing_device = sf_timing_device row,
       sv_version = sf_version row, sv_updated_at = sf_updated_at row,
       sv_deleted_at = sf_deleted_at row \<rparr>"

text \<open>The error of \<open>json.Marshal\<close> is dropped, and with it the body of the conflict.\<close>

definition conflict_outcome :: "uuid \<Rightarrow> int \<Rightarrow> document \<Rightarrow> MutationOutcome" where
  "conflict_outcome i version doc =
     \<lparr> mo_mutation_id = i, mo_status = ''conflict'', mo_version = version, mo_code = [],
       mo_message = [], mo_current = (if document_json_ok doc then Some doc else None) \<rparr>"

definition sessionConflict :: "uuid \<Rightarrow> CubeSession \<Rightarrow> int \<Rightarrow> MutationOutcome" where
  "sessionConflict mutationID current protoVersion =
     conflict_outcome mutationID (cs_version current)
       (if 2 \<le> protoVersion
        then ConflictDoc \<lparr> cf_id = cs_id current, cf_version = cs_version current,
                           cf_updated_at = cs_updated_at current \<rparr>
        else SessionDoc (sessionFromDB current))"

definition solveConflict :: "uuid \<Rightarrow> Solf \<Rightarrow> int \<Rightarrow> MutationOutcome" where
  "solveConflict mutationID current protoVersion =
     conflict_outcome mutationID (sf_version current)
       (if 2 \<le> protoVersion
        then ConflictDoc \<lparr> cf_id = sf_id current, cf_version = sf_version current,
                           cf_updated_at = sf_updated_at current \<rparr>
        else SolveDoc (solveFromDB current))"

definition validEvent :: "env \<Rightarrow> string \<Rightarrow> bool" where
  "validEvent e value \<longleftrightarrow> ToLower (unicode_lower e) value \<in>
     {''2x2'', ''3x3'', ''4x4'', ''5x5'', ''megaminx'', ''pyraminx''}"

definition validateMutationEnvelope :: "Mutation \<Rightarrow> MutationOutcome option" where
  "validateMutationEnvelope m =
     (if m_id m = uuid_nil
      then Some (rejected (m_id m) ''invalid_mutation_id'' ''mutation id is required'')
      else if m_entity_id m = uuid_nil
      then Some (rejected (m_id m) ''invalid_entity_id'' ''entity id is required'')
      else if m_base_version m < 0
      then Some (rejected (m_id m) ''invalid_version'' ''base_version cannot be negative'')
      else if m_operation m \<noteq> ''upsert'' \<and> m_operation m \<noteq> ''delete''
      then Some (rejected (m_id m) ''invalid_operation'' ''operation must be upsert or delete'')
      else None)"

text \<open>The validators answer the message of the first failed check; the empty string is success.\<close>

definition validateSession :: "env \<Rightarrow> Session \<Rightarrow> uuid \<Rightarrow> string" where
  "validateSession e value expectedID =
     (if s_id value \<noteq> expectedID then ''data.id must match entity_id''
      else if 120 < length (s_name value) then ''name is too long''
      else if \<not> validEvent e (s_event value) then ''event is not supported''
      else if s_kind value \<noteq> ''manual'' \<and> s_kind value \<noteq> ''automatic''
      then ''kind must be manual or automatic''
      else if IsZero (s_started_at value) then ''started_at is required''
      else if (case s_ended_at value of None \<Rightarrow> False | Some t \<Rightarrow> t < s_started_at value)
      then ''ended_at cannot be before started_at''
      else [])"

definition validateSolve :: "env \<Rightarrow> Solve \<Rightarrow> uuid \<Rightarrow> string" where
  "validateSolve e value expectedID =
     (let device = (if sv_timing_device value = [] then ''keyboard'' else sv_timing_device value) in
      if sv_id value \<noteq> expectedID then ''data.id must match entity_id''
      else if sv_duration_ms value < 0 \<or> maxSolveDurationMS < sv_duration_ms value
      then ''duration_ms is outside the supported range''
      else if sv_penalty value \<noteq> ''none'' \<and> sv_penalty value \<noteq> ''plus_two'' \<and> sv_penalty value \<noteq> ''dnf''
      then ''penalty must be none, plus_two, or dnf''
      else if IsZero (sv_solved_at value) then ''solved_at is required''
      else if 4096 < length (sv_scramble value) then ''scramble is too long''
      else if \<not> validEvent e (sv_event value) then ''event is not supported''
      else if device \<noteq> ''keyboard'' \<and> device \<noteq> ''external_timer'' \<and> device \<noteq> ''smart_cube''
      then ''timing_device must be keyboard, external_timer, or smart_cube''
      else [])"

definition appendSessionChange ::
  "env \<Rightarrow> uuid \<Rightarrow> string \<Rightarrow> CubeSession \<Rightarrow> (tx, error + int) state" where
  "appendSessionChange e userID operation row =
     (if \<not> document_json_ok (SessionDoc (sessionFromDB row)) then State_Monad.return (Inl (OtherError ''json''))
      else do {
        r \<leftarrow> exec (AppendChange (db_now e) userID ''session'' (cs_id row) operation (cs_version row)
                (SessionDoc (sessionFromDB row)));
        State_Monad.return (map_sum PgError id r)
      })"

definition appendSolveChange ::
  "env \<Rightarrow> uuid \<Rightarrow> string \<Rightarrow> Solf \<Rightarrow> (tx, error + int) state" where
  "appendSolveChange e userID operation row =
     (if \<not> document_json_ok (SolveDoc (solveFromDB row)) then State_Monad.return (Inl (OtherError ''json''))
      else do {
        r \<leftarrow> exec (AppendChange (db_now e) userID ''solve'' (sf_id row) operation (sf_version row)
                (SolveDoc (solveFromDB row)));
        State_Monad.return (map_sum PgError id r)
      })"

text \<open>The tail both branches share: log the row that was written and accept its version.\<close>

definition finishSession ::
  "env \<Rightarrow> uuid \<Rightarrow> Mutation \<Rightarrow> string \<Rightarrow> CubeSession \<Rightarrow> (tx, error + MutationOutcome) state" where
  "finishSession e userID m operation row = do {
     r \<leftarrow> appendSessionChange e userID operation row;
     case r of
       Inl err \<Rightarrow> State_Monad.return (Inl err)
     | Inr _ \<Rightarrow> State_Monad.return (Inr (accepted (m_id m) (cs_version row)))
   }"

text \<open>The branch \<open>m.Operation == "delete"\<close>.\<close>

definition deleteSessionBranch ::
  "env \<Rightarrow> uuid \<Rightarrow> Mutation \<Rightarrow> int \<Rightarrow> CubeSession option \<Rightarrow> (tx, error + MutationOutcome) state" where
  "deleteSessionBranch e userID m protoVersion current =
     (case current of
        None \<Rightarrow> State_Monad.return
          (Inr (rejected (m_id m) ''not_found'' ''session does not exist''))
      | Some cur \<Rightarrow>
          if cs_version cur \<noteq> m_base_version m
          then State_Monad.return (Inr (sessionConflict (m_id m) cur protoVersion))
          else if cs_deleted_at cur \<noteq> None
          then State_Monad.return (Inr (accepted (m_id m) (cs_version cur)))
          else do {
            del \<leftarrow> exec (DeleteSession (db_now e) userID (m_entity_id m) (m_base_version m));
            case del of
              Inl err \<Rightarrow>
                if err = ErrNoRows
                then State_Monad.return (Inr (sessionConflict (m_id m) cur protoVersion))
                else State_Monad.return (Inl (PgError err))
            | Inr deleted \<Rightarrow> finishSession e userID m ''delete'' deleted
          })"

text \<open>The rest of the function: decode, validate, insert or update.\<close>

definition upsertSessionBranch ::
  "env \<Rightarrow> uuid \<Rightarrow> Mutation \<Rightarrow> int \<Rightarrow> CubeSession option \<Rightarrow> (tx, error + MutationOutcome) state" where
  "upsertSessionBranch e userID m protoVersion current =
     (case unmarshalSession e (m_data m) of
        None \<Rightarrow> State_Monad.return
          (Inr (rejected (m_id m) ''invalid_session'' ''session data is invalid''))
      | Some input \<Rightarrow>
          let message = validateSession e input (m_entity_id m) in
          if message \<noteq> []
          then State_Monad.return (Inr (rejected (m_id m) ''invalid_session'' message))
          else case current of
            None \<Rightarrow>
              if m_base_version m \<noteq> 0
              then State_Monad.return
                (Inr (rejected (m_id m) ''not_found'' ''session does not exist''))
              else do {
                res \<leftarrow> exec (InsertSession (db_now e) userID input);
                case res of
                  Inl err \<Rightarrow> State_Monad.return (Inl (PgError err))
                | Inr row \<Rightarrow> finishSession e userID m ''upsert'' row
              }
          | Some cur \<Rightarrow>
              if cs_version cur \<noteq> m_base_version m
              then State_Monad.return (Inr (sessionConflict (m_id m) cur protoVersion))
              else do {
                res \<leftarrow> exec (UpdateSession (db_now e) userID input (m_base_version m));
                case res of
                  Inl err \<Rightarrow> State_Monad.return (Inl (PgError err))
                | Inr row \<Rightarrow> finishSession e userID m ''upsert'' row
              })"

definition applySession ::
  "env \<Rightarrow> uuid \<Rightarrow> Mutation \<Rightarrow> int \<Rightarrow> (tx, error + MutationOutcome) state" where
  "applySession e userID m protoVersion =
     (case validateMutationEnvelope m of
        Some outcome \<Rightarrow> State_Monad.return (Inr outcome)
      | None \<Rightarrow> do {
          got \<leftarrow> exec (GetSessionForUpdate userID (m_entity_id m));
          case optional_row got of
            Inl err \<Rightarrow> State_Monad.return (Inl (PgError err))
          | Inr current \<Rightarrow>
              if m_operation m = ''delete''
              then deleteSessionBranch e userID m protoVersion current
              else upsertSessionBranch e userID m protoVersion current
        })"

definition finishSolve ::
  "env \<Rightarrow> uuid \<Rightarrow> Mutation \<Rightarrow> string \<Rightarrow> Solf \<Rightarrow> (tx, error + MutationOutcome) state" where
  "finishSolve e userID m operation row = do {
     r \<leftarrow> appendSolveChange e userID operation row;
     case r of
       Inl err \<Rightarrow> State_Monad.return (Inl err)
     | Inr _ \<Rightarrow> State_Monad.return (Inr (accepted (m_id m) (sf_version row)))
   }"

text \<open>The error branch of a solve upsert: a foreign-key violation becomes an outcome.\<close>

definition solveUpsertResult ::
  "env \<Rightarrow> uuid \<Rightarrow> Mutation \<Rightarrow> pgerror + Solf \<Rightarrow> (tx, error + MutationOutcome) state" where
  "solveUpsertResult e userID m res =
     (case res of
        Inl err \<Rightarrow>
          if isForeignKeyViolation err
          then State_Monad.return
            (Inr (rejected (m_id m) ''invalid_session'' ''referenced session does not exist''))
          else State_Monad.return (Inl (PgError err))
      | Inr row \<Rightarrow> finishSolve e userID m ''upsert'' row)"

text \<open>The branch \<open>m.Operation == "delete"\<close>.\<close>

definition deleteSolveBranch ::
  "env \<Rightarrow> uuid \<Rightarrow> Mutation \<Rightarrow> int \<Rightarrow> Solf option \<Rightarrow> (tx, error + MutationOutcome) state" where
  "deleteSolveBranch e userID m protoVersion current =
     (case current of
        None \<Rightarrow> State_Monad.return
          (Inr (rejected (m_id m) ''not_found'' ''solve does not exist''))
      | Some cur \<Rightarrow>
          if sf_version cur \<noteq> m_base_version m
          then State_Monad.return (Inr (solveConflict (m_id m) cur protoVersion))
          else if sf_deleted_at cur \<noteq> None
          then State_Monad.return (Inr (accepted (m_id m) (sf_version cur)))
          else do {
            del \<leftarrow> exec (DeleteSolve (db_now e) userID (m_entity_id m) (m_base_version m));
            case del of
              Inl err \<Rightarrow>
                if err = ErrNoRows
                then State_Monad.return (Inr (solveConflict (m_id m) cur protoVersion))
                else State_Monad.return (Inl (PgError err))
            | Inr deleted \<Rightarrow> finishSolve e userID m ''delete'' deleted
          })"

text \<open>The rest of the function: decode, validate, insert or update.\<close>

definition upsertSolveBranch ::
  "env \<Rightarrow> uuid \<Rightarrow> Mutation \<Rightarrow> int \<Rightarrow> Solf option \<Rightarrow> (tx, error + MutationOutcome) state" where
  "upsertSolveBranch e userID m protoVersion current =
     (case unmarshalSolve e (m_data m) of
        None \<Rightarrow> State_Monad.return
          (Inr (rejected (m_id m) ''invalid_solve'' ''solve data is invalid''))
      | Some input0 \<Rightarrow>
          let message = validateSolve e input0 (m_entity_id m) in
          if message \<noteq> []
          then State_Monad.return (Inr (rejected (m_id m) ''invalid_solve'' message))
          else let input = (if sv_timing_device input0 = []
                            then input0\<lparr>sv_timing_device := ''keyboard''\<rparr> else input0) in
          case current of
            None \<Rightarrow>
              if m_base_version m \<noteq> 0
              then State_Monad.return
                (Inr (rejected (m_id m) ''not_found'' ''solve does not exist''))
              else do {
                res \<leftarrow> exec (InsertSolve (db_now e) userID input);
                solveUpsertResult e userID m res
              }
          | Some cur \<Rightarrow>
              if sf_version cur \<noteq> m_base_version m
              then State_Monad.return (Inr (solveConflict (m_id m) cur protoVersion))
              else do {
                res \<leftarrow> exec (UpdateSolve (db_now e) userID input (m_base_version m));
                solveUpsertResult e userID m res
              })"

definition applySolve ::
  "env \<Rightarrow> uuid \<Rightarrow> Mutation \<Rightarrow> int \<Rightarrow> (tx, error + MutationOutcome) state" where
  "applySolve e userID m protoVersion =
     (case validateMutationEnvelope m of
        Some outcome \<Rightarrow> State_Monad.return (Inr outcome)
      | None \<Rightarrow> do {
          got \<leftarrow> exec (GetSolveForUpdate userID (m_entity_id m));
          case optional_row got of
            Inl err \<Rightarrow> State_Monad.return (Inl (PgError err))
          | Inr current \<Rightarrow>
              if m_operation m = ''delete''
              then deleteSolveBranch e userID m protoVersion current
              else upsertSolveBranch e userID m protoVersion current
        })"

definition dispatchMutation ::
  "env \<Rightarrow> uuid \<Rightarrow> Mutation \<Rightarrow> int \<Rightarrow> (tx, error + MutationOutcome) state" where
  "dispatchMutation e userID m protoVersion =
     (if m_entity m = ''session'' then applySession e userID m protoVersion
      else if m_entity m = ''solve'' then applySolve e userID m protoVersion
      else State_Monad.return
        (Inr (rejected (m_id m) ''invalid_entity'' ''entity must be session or solve'')))"

definition applyMutation ::
  "env \<Rightarrow> uuid \<Rightarrow> uuid \<Rightarrow> Mutation \<Rightarrow> int \<Rightarrow> (tx, error + MutationOutcome) state" where
  "applyMutation e userID deviceID m protoVersion = do {
     stored \<leftarrow> (if m_id m \<noteq> uuid_nil
                then exec (GetProcessedMutation userID deviceID (m_id m))
                else State_Monad.return (Inl ErrNoRows));
     case optional_row stored of
       Inl err \<Rightarrow> State_Monad.return (Inl (PgError err))
     | Inr (Some outcome) \<Rightarrow> State_Monad.return (Inr outcome)
     | Inr None \<Rightarrow> do {
         res \<leftarrow> dispatchMutation e userID m protoVersion;
         case res of
           Inl err \<Rightarrow> State_Monad.return (Inl err)
         | Inr outcome \<Rightarrow>
             if m_id m \<noteq> uuid_nil then do {
               saved \<leftarrow> exec (RecordProcessedMutation (db_now e) userID deviceID (m_id m) outcome);
               case saved of
                 Inl err \<Rightarrow> State_Monad.return (Inl (PgError err))
               | Inr _ \<Rightarrow> State_Monad.return (Inr outcome)
             }
             else State_Monad.return (Inr outcome)
       }
   }"

end
