(* ===== verification/Sync_Service.thy ===== *)
theory Sync_Service
  imports Sync_Apply
begin

unbundle bit_operations_syntax

text \<open>
  \<open>Service.Sync\<close> of \<open>internal/sync/service.go\<close>: request validation, the cursor-expiry check,
  the mutation batch in one transaction, the page of changes and the acknowledgement; and
  \<open>window.go\<close>, which the expiry check shares with retention.
\<close>

record SyncService =
  maxMutations :: int
  defaultMaxChange :: int
  maxResponseBytes :: int
  inactiveDeviceWindow :: duration

definition changeEnvelopeOverhead :: int where
  "changeEnvelopeOverhead = 200"

definition defaultInactiveDeviceWindow :: duration where
  "defaultInactiveDeviceWindow = 90 * 24 * Hour"

definition effectiveInactiveWindow :: "duration \<Rightarrow> duration" where
  "effectiveInactiveWindow d = (if d \<le> 0 then defaultInactiveDeviceWindow else d)"

definition entityRank :: "string \<Rightarrow> int" where
  "entityRank entity = (if entity = ''session'' then 0 else if entity = ''solve'' then 1 else 2)"

text \<open>FNV-1a over the parts, each followed by a zero byte; the 64-bit sum as a signed key.\<close>

definition fnv64a_step :: "64 word \<Rightarrow> 8 word \<Rightarrow> 64 word" where
  "fnv64a_step h b = (h XOR ucast b) * 1099511628211"

definition fnv64a_write :: "64 word \<Rightarrow> string \<Rightarrow> 64 word" where
  "fnv64a_write h s = foldl (\<lambda>h c. fnv64a_step h (of_char c)) h s"

definition advisoryLockKey :: "string list \<Rightarrow> int" where
  "advisoryLockKey parts =
     sint (foldl (\<lambda>h p. fnv64a_step (fnv64a_write h p) 0) (14695981039346656037 :: 64 word) parts)"

definition mutation_pos :: "Mutation \<Rightarrow> (int, uuid) lexpair" where
  "mutation_pos m = LexPair (entityRank (m_entity m)) (m_entity_id m)"

definition order_mutations :: "Mutation list \<Rightarrow> Mutation list" where
  "order_mutations ms = sort_key mutation_pos ms"

fun checkMutationIDs :: "uuid set \<Rightarrow> Mutation list \<Rightarrow> error option" where
  "checkMutationIDs seen [] = None"
| "checkMutationIDs seen (m # ms) =
     (if m_id m = uuid_nil
      then Some (ClientError ''invalid_mutation_id'' ''every mutation id must be a non-zero UUID'')
      else if m_id m \<in> seen
      then Some (ClientError ''duplicate_mutation_id'' ''mutation ids must be unique within a request'')
      else checkMutationIDs (insert (m_id m) seen) ms)"

definition checkCursorNotExpired ::
  "SyncService \<Rightarrow> env \<Rightarrow> uuid \<Rightarrow> int \<Rightarrow> (world, error + unit) state" where
  "checkCursorNotExpired s e userID cursor =
     (if cursor \<le> 0 then State_Monad.return (Inr ())
      else do {
        r \<leftarrow> exec_pool (MinValidCursorForUser userID
               (go_now e - effectiveInactiveWindow (inactiveDeviceWindow s)));
        case r of
          Inl err \<Rightarrow> State_Monad.return (Inl (PgError err))
        | Inr minValid \<Rightarrow>
            if 0 < minValid \<and> cursor < minValid
            then State_Monad.return (Inl (ClientError ''cursor_expired''
                   ''your sync cursor has expired; perform a full resync''))
            else State_Monad.return (Inr ())
      })"

text \<open>\<open>json.Unmarshal(row.Payload, \&payload)\<close> into a struct with the one field \<open>deleted_at\<close>.\<close>

definition payload_deleted_at :: "document \<Rightarrow> time option" where
  "payload_deleted_at doc =
     (case doc of SessionDoc x \<Rightarrow> s_deleted_at x | SolveDoc x \<Rightarrow> sv_deleted_at x
      | DeleteDoc x \<Rightarrow> ds_deleted_at x | ConflictDoc _ \<Rightarrow> None)"

text \<open>When the stub cannot be encoded, the stored payload is sent.\<close>

definition buildChange :: "int \<Rightarrow> ChangeLog \<Rightarrow> Change" where
  "buildChange protoVersion row =
     \<lparr> ch_cursor = cl_change_id row, ch_entity = cl_entity_type row,
       ch_entity_id = cl_entity_id row, ch_operation = cl_operation row,
       ch_version = cl_version row,
       ch_data = (let stub = DeleteDoc \<lparr> ds_id = cl_entity_id row, ds_version = cl_version row,
                                   ds_deleted_at = payload_deleted_at (cl_payload row) \<rparr> in
                  if 2 \<le> protoVersion \<and> cl_operation row = ''delete'' \<and> document_json_ok stub
                  then stub else cl_payload row),
       ch_changed_at = cl_created_at row \<rparr>"

fun buildChanges :: "ChangeLog list \<Rightarrow> int \<Rightarrow> int \<Rightarrow> Change list \<times> int" where
  "buildChanges [] baseCursor protoVersion = ([], baseCursor)"
| "buildChanges (row # rows) baseCursor protoVersion =
     (let (changes, nextCursor) = buildChanges rows (cl_change_id row) protoVersion in
      (buildChange protoVersion row # changes, nextCursor))"

text \<open>
  The loop of \<open>applyByteLimit\<close>: index, running total and cursor are the loop state; \<open>Some i\<close>
  is the early return in iteration \<open>i\<close>.
\<close>

fun byteLimitLoop ::
  "(document \<Rightarrow> nat) \<Rightarrow> int \<Rightarrow> ChangeLog list \<Rightarrow> nat \<Rightarrow> int \<Rightarrow> int \<Rightarrow> Change list \<Rightarrow> nat option \<times> int" where
  "byteLimitLoop len maxBytes rows i sum0 nextCursor [] = (None, nextCursor)"
| "byteLimitLoop len maxBytes rows i sum0 nextCursor (c # cs) =
     (let sum' = sum0 + (int (len (ch_data c)) + changeEnvelopeOverhead) in
      if maxBytes < sum' \<and> 0 < i then (Some i, nextCursor)
      else byteLimitLoop len maxBytes rows (Suc i) sum'
             (if i < length rows then cl_change_id (rows ! i) else nextCursor) cs)"

definition applyByteLimit ::
  "(document \<Rightarrow> nat) \<Rightarrow> int \<Rightarrow> Change list \<Rightarrow> ChangeLog list \<Rightarrow> int \<Rightarrow> bool \<Rightarrow> Change list \<times> bool \<times> int" where
  "applyByteLimit len maxBytes changes rows baseCursor hasMore =
     (case byteLimitLoop len maxBytes rows 0 0 baseCursor changes of
        (Some i, nextCursor) \<Rightarrow> (take i changes, True, nextCursor)
      | (None, nextCursor) \<Rightarrow> (changes, hasMore, nextCursor))"

text \<open>
  The page of a response from the rows of \<open>ListChanges\<close>: the code after the query, which
  \<open>Sync\<close> and \<open>pullOnly\<close> share line by line.
\<close>

definition change_page ::
  "SyncService \<Rightarrow> env \<Rightarrow> int \<Rightarrow> int \<Rightarrow> int \<Rightarrow> ChangeLog list \<Rightarrow> (Change list \<times> bool \<times> int) option" where
  "change_page s e limit cursor protoVersion fetched =
     (case cut_page limit fetched of
        None \<Rightarrow> None
      | Some (rows, hasMore) \<Rightarrow>
          let (changes, nextCursor) = buildChanges rows cursor protoVersion in
          Some (if 0 < maxResponseBytes s
                then applyByteLimit (doc_len e) (maxResponseBytes s) changes rows cursor hasMore
                else (changes, hasMore, nextCursor)))"

definition pullOnly ::
  "SyncService \<Rightarrow> env \<Rightarrow> uuid \<Rightarrow> Request \<Rightarrow> int \<Rightarrow> int \<Rightarrow> (world, error + Response) state" where
  "pullOnly s e userID req limit protoVersion = do {
     up \<leftarrow> exec_pool (UpsertDevice (db_now e) (d_id (rq_device req)) userID
            (d_name (rq_device req)) (d_platform (rq_device req)));
     case up of
       Inl err \<Rightarrow> State_Monad.return (Inl (PgError err))
     | Inr _ \<Rightarrow> do {
         got \<leftarrow> exec_pool (ListChanges userID (rq_cursor req) (int32 (limit + 1)));
         case got of
           Inl err \<Rightarrow> State_Monad.return (Inl (PgError err))
         | Inr fetched \<Rightarrow>
             (case change_page s e limit (rq_cursor req) protoVersion fetched of
                None \<Rightarrow> State_Monad.return (Inl GoPanic)
              | Some (changes, hasMore, nextCursor) \<Rightarrow> do {
                  _ \<leftarrow> (if 0 < rq_cursor req
                        then exec_pool (UpdateDeviceAckCursor userID (d_id (rq_device req)) (rq_cursor req))
                        else State_Monad.return (Inr ()));
                  State_Monad.return (Inr \<lparr> rs_outcomes = [], rs_changes = changes,
                    rs_next_cursor = nextCursor, rs_has_more = hasMore \<rparr>)
                })
       }
   }"

text \<open>The zero value a Go map lookup answers for a missing key.\<close>

definition zero_outcome :: MutationOutcome where
  "zero_outcome = \<lparr> mo_mutation_id = uuid_nil, mo_status = [], mo_version = 0, mo_code = [],
     mo_message = [], mo_current = None \<rparr>"

fun applyAll ::
  "env \<Rightarrow> uuid \<Rightarrow> uuid \<Rightarrow> int \<Rightarrow> (uuid \<rightharpoonup> MutationOutcome) \<Rightarrow> Mutation list \<Rightarrow>
   (tx, error + (uuid \<rightharpoonup> MutationOutcome)) state" where
  "applyAll e userID deviceID protoVersion outcomeByID [] = State_Monad.return (Inr outcomeByID)"
| "applyAll e userID deviceID protoVersion outcomeByID (m # ms) = do {
     r \<leftarrow> applyMutation e userID deviceID m protoVersion;
     case r of
       Inl err \<Rightarrow> State_Monad.return (Inl err)
     | Inr outcome \<Rightarrow> applyAll e userID deviceID protoVersion (outcomeByID(m_id m \<mapsto> outcome)) ms
   }"

definition syncBody ::
  "SyncService \<Rightarrow> env \<Rightarrow> uuid \<Rightarrow> Request \<Rightarrow> int \<Rightarrow> int \<Rightarrow> (tx, Response tx_end) state" where
  "syncBody s e userID req limit protoVersion = do {
     lock \<leftarrow> AcquireAdvisoryLockByID (advisoryLockKey [uuid_string e userID, ''sync'']);
     case lock of
       Inl err \<Rightarrow> State_Monad.return (RolledBack (PgError err))
     | Inr _ \<Rightarrow> do {
         up \<leftarrow> exec (UpsertDevice (db_now e) (d_id (rq_device req)) userID
                (d_name (rq_device req)) (d_platform (rq_device req)));
         case up of
           Inl err \<Rightarrow> State_Monad.return (RolledBack (PgError err))
         | Inr _ \<Rightarrow> do {
             res \<leftarrow> applyAll e userID (d_id (rq_device req)) protoVersion Map.empty
                     (order_mutations (rq_mutations req));
             case res of
               Inl err \<Rightarrow> State_Monad.return (RolledBack err)
             | Inr outcomeByID \<Rightarrow> do {
                 got \<leftarrow> exec (ListChanges userID (rq_cursor req) (int32 (limit + 1)));
                 case got of
                   Inl err \<Rightarrow> State_Monad.return (RolledBack (PgError err))
                 | Inr fetched \<Rightarrow>
                     (case change_page s e limit (rq_cursor req) protoVersion fetched of
                        None \<Rightarrow> State_Monad.return (RolledBack GoPanic)
                      | Some (changes, hasMore, nextCursor) \<Rightarrow>
                          State_Monad.return (Commits (Inr
                            \<lparr> rs_outcomes = map (\<lambda>m. case outcomeByID (m_id m) of
                                Some o' \<Rightarrow> o' | None \<Rightarrow> zero_outcome) (rq_mutations req),
                              rs_changes = changes, rs_next_cursor = nextCursor,
                              rs_has_more = hasMore \<rparr>)))
               }
           }
       }
   }"

definition effective_limit :: "SyncService \<Rightarrow> int \<Rightarrow> int" where
  "effective_limit s limit =
     (if limit \<le> 0 \<or> defaultMaxChange s < limit then defaultMaxChange s else limit)"

definition validateRequest :: "SyncService \<Rightarrow> Request \<Rightarrow> error option" where
  "validateRequest s req =
     (if rq_cursor req < 0
      then Some (ClientError ''invalid_cursor'' ''cursor cannot be negative'')
      else if d_id (rq_device req) = uuid_nil
      then Some (ClientError ''invalid_device'' ''device.id is required'')
      else if 120 < length (d_name (rq_device req)) \<or> 40 < length (d_platform (rq_device req))
      then Some (ClientError ''invalid_device'' ''device metadata is too long'')
      else if maxMutations s < int (length (rq_mutations req))
      then Some (ClientError ''too_many_mutations''
        (''at most '' @ Sprint_d (maxMutations s) @ '' mutations are allowed''))
      else checkMutationIDs {} (rq_mutations req))"

definition Sync ::
  "SyncService \<Rightarrow> env \<Rightarrow> uuid \<Rightarrow> Request \<Rightarrow> int \<Rightarrow> (world, error + Response) state" where
  "Sync s e userID req protoVersion =
     (case validateRequest s req of
        Some err \<Rightarrow> State_Monad.return (Inl err)
      | None \<Rightarrow> do {
          let limit = effective_limit s (rq_limit req);
          expired \<leftarrow> checkCursorNotExpired s e userID (rq_cursor req);
          case expired of
            Inl err \<Rightarrow> State_Monad.return (Inl err)
          | Inr _ \<Rightarrow>
              if rq_mutations req = [] then pullOnly s e userID req limit protoVersion
              else do {
                r \<leftarrow> in_tx (syncBody s e userID req limit protoVersion);
                case r of
                  Inl err \<Rightarrow> State_Monad.return (Inl err)
                | Inr resp \<Rightarrow> do {
                    _ \<leftarrow> (if 0 < rq_cursor req
                          then exec_pool (UpdateDeviceAckCursor userID (d_id (rq_device req)) (rq_cursor req))
                          else State_Monad.return (Inr ()));
                    State_Monad.return (Inr resp)
                  }
              }
        })"

end
