(* ===== verification/Sync_Spec.thy ===== *)
theory Sync_Spec
  imports Sync_Service
begin

text \<open>
  What the synchronization store promises, without transactions, statements or failures.

  \<^item> \<open>mutation_step\<close> is the contract of one mutation: from a database, an outcome and the
    next database. A mutation that is accepted writes one row with the next version and
    appends one entry with the row's document to the change log (\<open>logged_write\<close>); every
    other outcome changes nothing. \<open>apply_step\<close> adds the table of processed mutations.
  \<^item> \<open>tables_ok\<close> is the schema invariant, \<open>rows_ok\<close> the validity of the stored entities.
  \<^item> \<open>replica_of\<close> is what a user's client should hold, \<open>journaled\<close> says that the change log
    carries a replica from one database to a later one.
\<close>

definition write_row :: "('r \<Rightarrow> 'k) \<Rightarrow> 'r \<Rightarrow> 'r list \<Rightarrow> 'r list" where
  "write_row key r rows =
     (if row_at key (key r) rows = None then rows @ [r]
      else update_where (\<lambda>x. key x = key r) (\<lambda>_. r) rows)"

definition log_entry ::
  "time \<Rightarrow> uuid \<times> uuid \<Rightarrow> string \<Rightarrow> string \<Rightarrow> int \<Rightarrow> document \<Rightarrow> int \<Rightarrow> ChangeLog" where
  "log_entry now k entity operation version doc change_id =
     \<lparr> cl_change_id = change_id, cl_user_id = fst k, cl_entity_type = entity,
       cl_entity_id = snd k, cl_operation = operation, cl_version = version,
       cl_payload = doc, cl_created_at = now \<rparr>"

definition append_log :: "(int \<Rightarrow> ChangeLog) \<Rightarrow> db \<Rightarrow> db" where
  "append_log entry d =
     d\<lparr>change_seq := change_seq d + 1, change_log := change_log d @ [entry (change_seq d + 1)]\<rparr>"

definition write_session :: "time \<Rightarrow> string \<Rightarrow> CubeSession \<Rightarrow> db \<Rightarrow> db" where
  "write_session now operation r d =
     append_log (log_entry now (cs_key r) ''session'' operation (cs_version r) (SessionDoc (sessionFromDB r)))
       (d\<lparr>cube_sessions := write_row cs_key r (cube_sessions d)\<rparr>)"

definition write_solve :: "time \<Rightarrow> string \<Rightarrow> Solf \<Rightarrow> db \<Rightarrow> db" where
  "write_solve now operation r d =
     append_log (log_entry now (sf_key r) ''solve'' operation (sf_version r) (SolveDoc (solveFromDB r)))
       (d\<lparr>solves := write_row sf_key r (solves d)\<rparr>)"

definition with_timing_device :: "Solve \<Rightarrow> Solve" where
  "with_timing_device x =
     (if sv_timing_device x = [] then x\<lparr>sv_timing_device := ''keyboard''\<rparr> else x)"

definition session_json_ok :: "CubeSession \<Rightarrow> bool" where
  "session_json_ok r = document_json_ok (SessionDoc (sessionFromDB r))"

definition solve_json_ok :: "Solf \<Rightarrow> bool" where
  "solve_json_ok r = document_json_ok (SolveDoc (solveFromDB r))"

inductive session_step ::
  "env \<Rightarrow> uuid \<Rightarrow> Mutation \<Rightarrow> int \<Rightarrow> db \<Rightarrow> MutationOutcome \<Rightarrow> db \<Rightarrow> bool"
  for e u m pv d where
  delete_missing:
    "m_operation m = ''delete'' \<Longrightarrow> row_at cs_key (u, m_entity_id m) (cube_sessions d) = None \<Longrightarrow>
     session_step e u m pv d (rejected (m_id m) ''not_found'' ''session does not exist'') d"
| conflict:
    "row_at cs_key (u, m_entity_id m) (cube_sessions d) = Some cur \<Longrightarrow>
     cs_version cur \<noteq> m_base_version m \<Longrightarrow>
     m_operation m = ''delete'' \<or>
       (\<exists>x. unmarshalSession e (m_data m) = Some x \<and> validateSession e x (m_entity_id m) = []) \<Longrightarrow>
     session_step e u m pv d (sessionConflict (m_id m) cur pv) d"
| delete_again:
    "m_operation m = ''delete'' \<Longrightarrow> row_at cs_key (u, m_entity_id m) (cube_sessions d) = Some cur \<Longrightarrow>
     cs_version cur = m_base_version m \<Longrightarrow> cs_deleted_at cur \<noteq> None \<Longrightarrow>
     session_step e u m pv d (accepted (m_id m) (m_base_version m)) d"
| delete:
    "m_operation m = ''delete'' \<Longrightarrow> row_at cs_key (u, m_entity_id m) (cube_sessions d) = Some cur \<Longrightarrow>
     cs_version cur = m_base_version m \<Longrightarrow> cs_deleted_at cur = None \<Longrightarrow>
     session_json_ok (tombstone_session (db_now e) cur) \<Longrightarrow>
     session_step e u m pv d (accepted (m_id m) (m_base_version m + 1))
       (write_session (db_now e) ''delete'' (tombstone_session (db_now e) cur) d)"
| bad_json:
    "m_operation m = ''upsert'' \<Longrightarrow> unmarshalSession e (m_data m) = None \<Longrightarrow>
     session_step e u m pv d (rejected (m_id m) ''invalid_session'' ''session data is invalid'') d"
| invalid:
    "m_operation m = ''upsert'' \<Longrightarrow> unmarshalSession e (m_data m) = Some x \<Longrightarrow>
     validateSession e x (m_entity_id m) \<noteq> [] \<Longrightarrow>
     session_step e u m pv d
       (rejected (m_id m) ''invalid_session'' (validateSession e x (m_entity_id m))) d"
| update_missing:
    "m_operation m = ''upsert'' \<Longrightarrow> unmarshalSession e (m_data m) = Some x \<Longrightarrow>
     validateSession e x (m_entity_id m) = [] \<Longrightarrow>
     row_at cs_key (u, m_entity_id m) (cube_sessions d) = None \<Longrightarrow> m_base_version m \<noteq> 0 \<Longrightarrow>
     session_step e u m pv d (rejected (m_id m) ''not_found'' ''session does not exist'') d"
| create:
    "m_operation m = ''upsert'' \<Longrightarrow> unmarshalSession e (m_data m) = Some x \<Longrightarrow>
     validateSession e x (m_entity_id m) = [] \<Longrightarrow> session_text_ok x \<Longrightarrow> user_exists u d \<Longrightarrow>
     row_at cs_key (u, m_entity_id m) (cube_sessions d) = None \<Longrightarrow> m_base_version m = 0 \<Longrightarrow>
     session_json_ok (session_row (db_now e) u 1 x) \<Longrightarrow>
     session_step e u m pv d (accepted (m_id m) 1)
       (write_session (db_now e) ''upsert'' (session_row (db_now e) u 1 x) d)"
| update:
    "m_operation m = ''upsert'' \<Longrightarrow> unmarshalSession e (m_data m) = Some x \<Longrightarrow>
     validateSession e x (m_entity_id m) = [] \<Longrightarrow> session_text_ok x \<Longrightarrow>
     row_at cs_key (u, m_entity_id m) (cube_sessions d) = Some cur \<Longrightarrow>
     cs_version cur = m_base_version m \<Longrightarrow>
     session_json_ok (session_row (db_now e) u (m_base_version m + 1) x) \<Longrightarrow>
     session_step e u m pv d (accepted (m_id m) (m_base_version m + 1))
       (write_session (db_now e) ''upsert'' (session_row (db_now e) u (m_base_version m + 1) x) d)"

inductive solve_step ::
  "env \<Rightarrow> uuid \<Rightarrow> Mutation \<Rightarrow> int \<Rightarrow> db \<Rightarrow> MutationOutcome \<Rightarrow> db \<Rightarrow> bool"
  for e u m pv d where
  delete_missing:
    "m_operation m = ''delete'' \<Longrightarrow> row_at sf_key (u, m_entity_id m) (solves d) = None \<Longrightarrow>
     solve_step e u m pv d (rejected (m_id m) ''not_found'' ''solve does not exist'') d"
| conflict:
    "row_at sf_key (u, m_entity_id m) (solves d) = Some cur \<Longrightarrow>
     sf_version cur \<noteq> m_base_version m \<Longrightarrow>
     m_operation m = ''delete'' \<or>
       (\<exists>x. unmarshalSolve e (m_data m) = Some x \<and> validateSolve e x (m_entity_id m) = []) \<Longrightarrow>
     solve_step e u m pv d (solveConflict (m_id m) cur pv) d"
| delete_again:
    "m_operation m = ''delete'' \<Longrightarrow> row_at sf_key (u, m_entity_id m) (solves d) = Some cur \<Longrightarrow>
     sf_version cur = m_base_version m \<Longrightarrow> sf_deleted_at cur \<noteq> None \<Longrightarrow>
     solve_step e u m pv d (accepted (m_id m) (m_base_version m)) d"
| delete:
    "m_operation m = ''delete'' \<Longrightarrow> row_at sf_key (u, m_entity_id m) (solves d) = Some cur \<Longrightarrow>
     sf_version cur = m_base_version m \<Longrightarrow> sf_deleted_at cur = None \<Longrightarrow>
     solve_json_ok (tombstone_solve (db_now e) cur) \<Longrightarrow>
     solve_step e u m pv d (accepted (m_id m) (m_base_version m + 1))
       (write_solve (db_now e) ''delete'' (tombstone_solve (db_now e) cur) d)"
| bad_json:
    "m_operation m = ''upsert'' \<Longrightarrow> unmarshalSolve e (m_data m) = None \<Longrightarrow>
     solve_step e u m pv d (rejected (m_id m) ''invalid_solve'' ''solve data is invalid'') d"
| invalid:
    "m_operation m = ''upsert'' \<Longrightarrow> unmarshalSolve e (m_data m) = Some x \<Longrightarrow>
     validateSolve e x (m_entity_id m) \<noteq> [] \<Longrightarrow>
     solve_step e u m pv d
       (rejected (m_id m) ''invalid_solve'' (validateSolve e x (m_entity_id m))) d"
| update_missing:
    "m_operation m = ''upsert'' \<Longrightarrow> unmarshalSolve e (m_data m) = Some x \<Longrightarrow>
     validateSolve e x (m_entity_id m) = [] \<Longrightarrow>
     row_at sf_key (u, m_entity_id m) (solves d) = None \<Longrightarrow> m_base_version m \<noteq> 0 \<Longrightarrow>
     solve_step e u m pv d (rejected (m_id m) ''not_found'' ''solve does not exist'') d"
| create:
    "m_operation m = ''upsert'' \<Longrightarrow> unmarshalSolve e (m_data m) = Some x \<Longrightarrow>
     validateSolve e x (m_entity_id m) = [] \<Longrightarrow> solve_text_ok (with_timing_device x) \<Longrightarrow>
     user_exists u d \<Longrightarrow> session_ref_ok u (sv_session_id x) d \<Longrightarrow>
     row_at sf_key (u, m_entity_id m) (solves d) = None \<Longrightarrow> m_base_version m = 0 \<Longrightarrow>
     solve_json_ok (solve_row (db_now e) u 1 (with_timing_device x)) \<Longrightarrow>
     solve_step e u m pv d (accepted (m_id m) 1)
       (write_solve (db_now e) ''upsert'' (solve_row (db_now e) u 1 (with_timing_device x)) d)"
| update:
    "m_operation m = ''upsert'' \<Longrightarrow> unmarshalSolve e (m_data m) = Some x \<Longrightarrow>
     validateSolve e x (m_entity_id m) = [] \<Longrightarrow> solve_text_ok (with_timing_device x) \<Longrightarrow>
     session_ref_ok u (sv_session_id x) d \<Longrightarrow>
     row_at sf_key (u, m_entity_id m) (solves d) = Some cur \<Longrightarrow>
     sf_version cur = m_base_version m \<Longrightarrow>
     solve_json_ok (solve_row (db_now e) u (m_base_version m + 1) (with_timing_device x)) \<Longrightarrow>
     solve_step e u m pv d (accepted (m_id m) (m_base_version m + 1))
       (write_solve (db_now e) ''upsert''
          (solve_row (db_now e) u (m_base_version m + 1) (with_timing_device x)) d)"

inductive mutation_step ::
  "env \<Rightarrow> uuid \<Rightarrow> Mutation \<Rightarrow> int \<Rightarrow> db \<Rightarrow> MutationOutcome \<Rightarrow> db \<Rightarrow> bool"
  for e u m pv d where
  envelope:
    "m_entity m \<in> {''session'', ''solve''} \<Longrightarrow> validateMutationEnvelope m = Some out \<Longrightarrow>
     mutation_step e u m pv d out d"
| session:
    "m_entity m = ''session'' \<Longrightarrow> validateMutationEnvelope m = None \<Longrightarrow>
     session_step e u m pv d out d' \<Longrightarrow> mutation_step e u m pv d out d'"
| solve:
    "m_entity m = ''solve'' \<Longrightarrow> validateMutationEnvelope m = None \<Longrightarrow>
     solve_step e u m pv d out d' \<Longrightarrow> mutation_step e u m pv d out d'"
| unknown_entity:
    "m_entity m \<notin> {''session'', ''solve''} \<Longrightarrow>
     mutation_step e u m pv d
       (rejected (m_id m) ''invalid_entity'' ''entity must be session or solve'') d"

definition record_outcome :: "time \<Rightarrow> uuid \<Rightarrow> uuid \<Rightarrow> uuid \<Rightarrow> MutationOutcome \<Rightarrow> db \<Rightarrow> db" where
  "record_outcome now u dev i out d =
     d\<lparr>processed_mutations := processed_mutations d @
        [\<lparr> pm_user_id = u, pm_device_id = dev, pm_mutation_id = i, pm_outcome = out,
           pm_created_at = now \<rparr>]\<rparr>"

inductive apply_step ::
  "env \<Rightarrow> uuid \<Rightarrow> uuid \<Rightarrow> Mutation \<Rightarrow> int \<Rightarrow> db \<Rightarrow> MutationOutcome \<Rightarrow> db \<Rightarrow> bool"
  for e u dev m pv d where
  replay:
    "row_at pm_key (u, dev, m_id m) (processed_mutations d) = Some r \<Longrightarrow>
     apply_step e u dev m pv d (pm_outcome r) d"
| fresh:
    "row_at pm_key (u, dev, m_id m) (processed_mutations d) = None \<Longrightarrow>
     mutation_step e u m pv d out d' \<Longrightarrow>
     user_exists u d \<Longrightarrow> row_at dv_key (u, dev) (devices d) \<noteq> None \<Longrightarrow>
     apply_step e u dev m pv d out (record_outcome (db_now e) u dev (m_id m) out d')"

text \<open>A batch: the outcomes of the mutations in the order they are applied.\<close>

inductive batch_steps ::
  "env \<Rightarrow> uuid \<Rightarrow> uuid \<Rightarrow> int \<Rightarrow> Mutation list \<Rightarrow> db \<Rightarrow> MutationOutcome list \<Rightarrow> db \<Rightarrow> bool"
  for e u dev pv where
  nil: "batch_steps e u dev pv [] d [] d"
| cons: "apply_step e u dev m pv d out d1 \<Longrightarrow> batch_steps e u dev pv ms d1 outs d' \<Longrightarrow>
     batch_steps e u dev pv (m # ms) d (out # outs) d'"


subsection \<open>Invariants\<close>

definition log_ok :: "db \<Rightarrow> bool" where
  "log_ok d \<longleftrightarrow> sorted_wrt (<) (map cl_change_id (change_log d)) \<and>
     (\<forall>c\<in>set (change_log d). 0 < cl_change_id c \<and> cl_change_id c \<le> change_seq d) \<and>
     0 \<le> change_seq d"

definition refs_ok :: "db \<Rightarrow> bool" where
  "refs_ok d \<longleftrightarrow> (\<forall>r\<in>set (solves d). session_ref_ok (sf_user_id r) (sf_session_id r) d)"

definition outcomes_ok :: "db \<Rightarrow> bool" where
  "outcomes_ok d \<longleftrightarrow>
     (\<forall>r\<in>set (processed_mutations d). mo_mutation_id (pm_outcome r) = pm_mutation_id r)"

definition tables_ok :: "db \<Rightarrow> bool" where
  "tables_ok d \<longleftrightarrow> keys_distinct cs_key (cube_sessions d) \<and> keys_distinct sf_key (solves d) \<and>
     keys_distinct dv_key (devices d) \<and> keys_distinct pm_key (processed_mutations d) \<and>
     log_ok d \<and> refs_ok d \<and> outcomes_ok d"

definition session_ok :: "env \<Rightarrow> CubeSession \<Rightarrow> bool" where
  "session_ok e r \<longleftrightarrow> cs_id r \<noteq> uuid_nil \<and> length (cs_name r) \<le> 120 \<and> validEvent e (cs_event r) \<and>
     cs_kind r \<in> {''manual'', ''automatic''} \<and> \<not> IsZero (cs_started_at r) \<and>
     (case cs_ended_at r of None \<Rightarrow> True | Some t \<Rightarrow> cs_started_at r \<le> t) \<and> 1 \<le> cs_version r \<and>
     session_json_ok r"

definition solve_ok :: "env \<Rightarrow> Solf \<Rightarrow> bool" where
  "solve_ok e r \<longleftrightarrow> sf_id r \<noteq> uuid_nil \<and> 0 \<le> sf_duration_ms r \<and> sf_duration_ms r \<le> maxSolveDurationMS \<and>
     sf_penalty r \<in> {''none'', ''plus_two'', ''dnf''} \<and> \<not> IsZero (sf_solved_at r) \<and>
     length (sf_scramble r) \<le> 4096 \<and> validEvent e (sf_event r) \<and>
     sf_timing_device r \<in> {''keyboard'', ''external_timer'', ''smart_cube''} \<and> 1 \<le> sf_version r \<and>
     solve_json_ok r"

definition rows_ok :: "env \<Rightarrow> db \<Rightarrow> bool" where
  "rows_ok e d \<longleftrightarrow> (\<forall>r\<in>set (cube_sessions d). session_ok e r) \<and> (\<forall>r\<in>set (solves d). solve_ok e r)"


subsection \<open>Replicas\<close>

type_synonym replica = "string \<times> uuid \<Rightarrow> document option"

definition replica_of :: "uuid \<Rightarrow> db \<Rightarrow> replica" where
  "replica_of u d = (\<lambda>(entity, i).
     if entity = ''session''
     then map_option (\<lambda>r. SessionDoc (sessionFromDB r)) (row_at cs_key (u, i) (cube_sessions d))
     else if entity = ''solve''
     then map_option (\<lambda>r. SolveDoc (solveFromDB r)) (row_at sf_key (u, i) (solves d))
     else None)"

definition replay_entry :: "replica \<Rightarrow> ChangeLog \<Rightarrow> replica" where
  "replay_entry R c = R((cl_entity_type c, cl_entity_id c) \<mapsto> cl_payload c)"

definition user_log :: "uuid \<Rightarrow> db \<Rightarrow> ChangeLog list" where
  "user_log u d = filter (\<lambda>c. cl_user_id c = u) (change_log d)"

definition journaled :: "db \<Rightarrow> db \<Rightarrow> bool" where
  "journaled d d' \<longleftrightarrow> change_seq d \<le> change_seq d' \<and>
     (\<exists>new. change_log d' = change_log d @ new \<and>
        (\<forall>c\<in>set new. change_seq d < cl_change_id c) \<and>
        (\<forall>u. replica_of u d' = foldl replay_entry (replica_of u d) (filter (\<lambda>c. cl_user_id c = u) new)))"

end
