(* ===== verification/Sync_Refine.thy ===== *)
theory Sync_Refine
  imports Sync_Spec
begin

text \<open>
  The service implements the contract: whenever \<open>applySession\<close>, \<open>applySolve\<close> or
  \<open>applyMutation\<close> answers an outcome and the transaction is still usable, the tables and the
  outcome are related by \<open>session_step\<close>, \<open>solve_step\<close>, \<open>apply_step\<close>, whatever statements
  fail on the way; and a batch that commits is a sequence of such steps.
\<close>

lemma write_row_eq_update:
  "row_at key (key r) rows \<noteq> None \<Longrightarrow>
   write_row key r rows = update_where (\<lambda>x. key x = key r) (\<lambda>_. r) rows"
  by (auto simp: write_row_def)

lemma AppendChange_Inr:
  assumes "AppendChange now u entity i operation v doc d = (Inr x, d')"
  shows "d' = append_log (log_entry now (u, i) entity operation v doc) d" "user_exists u d"
  using assms by (auto simp: AppendChange_def append_log_def log_entry_def Let_def split: if_splits)

lemma envelope_None:
  assumes "validateMutationEnvelope m = None"
  shows "m_id m \<noteq> uuid_nil" "m_entity_id m \<noteq> uuid_nil" "0 \<le> m_base_version m"
    "m_operation m = ''upsert'' \<or> m_operation m = ''delete''"
  using assms by (auto simp: validateMutationEnvelope_def split: if_splits)


subsection \<open>Sessions\<close>

lemma validateSession_ok:
  assumes "validateSession e x i = []"
  shows "s_id x = i" "length (s_name x) \<le> 120" "validEvent e (s_event x)"
    "s_kind x = ''manual'' \<or> s_kind x = ''automatic''" "\<not> IsZero (s_started_at x)"
    "case s_ended_at x of None \<Rightarrow> True | Some t \<Rightarrow> s_started_at x \<le> t"
  using assms by (auto simp: validateSession_def split: if_splits option.splits)


lemma GetSession_result:
  "GetSessionForUpdate u i d = (r, d') \<longleftrightarrow> d' = d \<and>
     r = (case row_at cs_key (u, i) (cube_sessions d) of None \<Rightarrow> Inl ErrNoRows | Some x \<Rightarrow> Inr x)"
  by (auto simp: GetSessionForUpdate_def split: option.splits)

lemma InsertSession_Inr:
  assumes "InsertSession now u x d = (Inr row, d')"
  shows "row = session_row now u 1 x" "session_text_ok x" "user_exists u d"
    "d' = d\<lparr>cube_sessions := write_row cs_key row (cube_sessions d)\<rparr>"
  using assms by (auto simp: InsertSession_def write_row_def split: if_splits)

lemma UpdateSession_Inr:
  assumes "UpdateSession now u x v d = (Inr row, d')" and k: "keys_distinct cs_key (cube_sessions d)"
  shows "row = session_row now u (v + 1) x" "session_text_ok x"
    "d' = d\<lparr>cube_sessions := write_row cs_key row (cube_sessions d)\<rparr>"
proof -
  from assms obtain cur where cur: "row_at cs_key (u, s_id x) (cube_sessions d) = Some cur"
      "cs_version cur = v" "session_text_ok x" "row = session_row now u (cs_version cur + 1) x"
      and d': "d' = d\<lparr>cube_sessions := update_where (\<lambda>r. cs_key r = (u, s_id x) \<and> cs_version r = v)
                  (\<lambda>r. session_row now u (cs_version r + 1) x) (cube_sessions d)\<rparr>"
    by (auto simp: UpdateSession_def Let_def find_guarded_key [OF k] split: if_splits option.splits)
  from cur show "row = session_row now u (v + 1) x" "session_text_ok x" by auto
  show "d' = d\<lparr>cube_sessions := write_row cs_key row (cube_sessions d)\<rparr>"
    unfolding d' using cur
    by (subst update_where_guarded [OF k, where r = cur]) (auto simp: write_row_eq_update)
qed

lemma DeleteSession_result:
  assumes k: "keys_distinct cs_key (cube_sessions d)"
    and cur: "row_at cs_key (u, i) (cube_sessions d) = Some cur" "cs_version cur = v" "cs_deleted_at cur = None"
  shows "DeleteSession now u i v d = (Inr (tombstone_session now cur),
    d\<lparr>cube_sessions := write_row cs_key (tombstone_session now cur) (cube_sessions d)\<rparr>)"
proof -
  have key: "cs_key cur = (u, i)" using cur(1) by (auto dest: row_at_Some)
  show ?thesis
    using cur key
    by (auto simp: DeleteSession_def find_guarded_key [OF k] update_where_guarded [OF k cur(1)] write_row_eq_update)
qed

lemma finishSession_Inr:
  assumes "run_state (finishSession e u m operation row) t = (Inr out, t')" "cs_user_id row = u"
  shows "out = accepted (m_id m) (cs_version row)" "\<not> aborted t" "\<not> aborted t'" "user_exists u (tables t)"
    "session_json_ok row" "tables t' = append_log (log_entry (db_now e) (cs_key row) ''session'' operation (cs_version row)
       (SessionDoc (sessionFromDB row))) (tables t)"
proof -
  from assms(1) obtain x where x: "out = accepted (m_id m) (cs_version row)" "session_json_ok row"
    "run_state (exec (AppendChange (db_now e) u ''session'' (cs_id row) operation (cs_version row)
       (SessionDoc (sessionFromDB row)))) t = (Inr x, t')"
    by (auto simp: finishSession_def appendSessionChange_def session_json_ok_def map_sum_def split: prod.splits sum.splits if_splits)
  have ex: "AppendChange (db_now e) u ''session'' (cs_id row) operation (cs_version row)
      (SessionDoc (sessionFromDB row)) (tables t) = (Inr x, tables t')"
    using exec_Inr [OF x(3)] by simp
  from x(1,2) exec_Inr [OF x(3)] AppendChange_Inr [OF ex] assms(2)
  show "out = accepted (m_id m) (cs_version row)" "\<not> aborted t" "\<not> aborted t'" "user_exists u (tables t)"
    "session_json_ok row" "tables t' = append_log (log_entry (db_now e) (cs_key row) ''session'' operation (cs_version row)
       (SessionDoc (sessionFromDB row))) (tables t)"
    by (simp_all add: cs_key_def)
qed

lemma session_current:
  assumes run: "run_state (exec (GetSessionForUpdate u i)) t = (got, t1)"
    and cur: "optional_row got = Inr current"
  shows "\<not> aborted t \<and> \<not> aborted t1 \<and> tables t1 = tables t \<and>
    row_at cs_key (u, i) (cube_sessions (tables t)) = current"
  using run
proof (cases rule: exec_cases)
  case failed
  with cur show ?thesis by simp
next
  case no_rows
  with cur show ?thesis by (auto simp: GetSession_result split: option.splits)
next
  case (row x)
  with cur show ?thesis by (auto simp: GetSession_result split: option.splits)
qed

lemma deleteSessionBranch_sim:
  assumes run: "run_state (deleteSessionBranch e u m pv current) t = (Inr out, t')"
    and k: "keys_distinct cs_key (cube_sessions (tables t))"
    and cur: "row_at cs_key (u, m_entity_id m) (cube_sessions (tables t)) = current"
    and del: "m_operation m = ''delete''"
  shows "session_step e u m pv (tables t) out (tables t')"
proof (cases "\<exists>r. current = Some r \<and> cs_version r = m_base_version m \<and> cs_deleted_at r = None")
  case False
  with run cur del show ?thesis
    by (cases current)
      (auto simp: deleteSessionBranch_def intro: session_step.intros split: if_splits)
next
  case True
  then obtain r where r: "current = Some r" "cs_version r = m_base_version m" "cs_deleted_at r = None"
    by blast
  note at = cur [unfolded r(1)]
  obtain res t1 where ex: "run_state (exec (DeleteSession (db_now e) u (m_entity_id m) (m_base_version m))) t = (res, t1)"
    by fastforce
  have run1: "res = Inr (tombstone_session (db_now e) r)"
    "tables t1 = (tables t)\<lparr>cube_sessions := write_row cs_key (tombstone_session (db_now e) r) (cube_sessions (tables t))\<rparr>"
    "run_state (finishSession e u m ''delete'' (tombstone_session (db_now e) r)) t1 = (Inr out, t')"
    using ex run r DeleteSession_result [OF k at r(2,3), of "db_now e"]
    by (cases rule: exec_cases; auto simp: deleteSessionBranch_def split: if_splits)+
  have "cs_user_id (tombstone_session (db_now e) r) = u"
    using row_at_cs_key [OF at] by simp
  from finishSession_Inr [OF run1(3) this] run1(2) r(2)
  have "out = accepted (m_id m) (m_base_version m + 1)"
    "session_json_ok (tombstone_session (db_now e) r)"
    "tables t' = write_session (db_now e) ''delete'' (tombstone_session (db_now e) r) (tables t)"
    by (simp_all add: write_session_def)
  with session_step.delete [OF del at r(2,3)] show ?thesis by simp
qed

lemma upsertSessionBranch_sim:
  assumes run: "run_state (upsertSessionBranch e u m pv current) t = (Inr out, t')"
    and k: "keys_distinct cs_key (cube_sessions (tables t))"
    and cur: "row_at cs_key (u, m_entity_id m) (cube_sessions (tables t)) = current"
    and up: "m_operation m = ''upsert''"
  shows "session_step e u m pv (tables t) out (tables t')"
proof (cases "\<exists>x. unmarshalSession e (m_data m) = Some x \<and> validateSession e x (m_entity_id m) = []")
  case False
  with run up show ?thesis
    by (cases "unmarshalSession e (m_data m)")
      (auto simp: upsertSessionBranch_def Let_def intro: session_step.intros split: if_splits)
next
  case True
  then obtain x where x: "unmarshalSession e (m_data m) = Some x" "validateSession e x (m_entity_id m) = []"
    by blast
  have id: "s_id x = m_entity_id m" using validateSession_ok(1) [OF x(2)] .
  show ?thesis
  proof (cases current)
    case None
    show ?thesis
    proof (cases "m_base_version m = 0")
      case False
      with run x cur None up show ?thesis
        by (auto simp: upsertSessionBranch_def intro: session_step.update_missing)
    next
      case True
      from run x None True obtain row t1 where ex:
        "run_state (exec (InsertSession (db_now e) u x)) t = (Inr row, t1)"
        and fin: "run_state (finishSession e u m ''upsert'' row) t1 = (Inr out, t')"
        by (auto simp: upsertSessionBranch_def split: prod.splits sum.splits)
      note ins = InsertSession_Inr [OF exec_Inr [OF ex, THEN conjunct2, THEN conjunct2]]
      have "cs_user_id row = u" using ins(1) by simp
      from finishSession_Inr [OF fin this] ins
      have "out = accepted (m_id m) 1"
        "session_json_ok (session_row (db_now e) u 1 x)"
        "tables t' = write_session (db_now e) ''upsert'' (session_row (db_now e) u 1 x) (tables t)"
        by (simp_all add: write_session_def)
      with session_step.create [OF up x ins(2,3) _ True] cur None show ?thesis by simp
    qed
  next
    case (Some r)
    show ?thesis
    proof (cases "cs_version r = m_base_version m")
      case False
      with run x cur Some show ?thesis
        by (auto simp: upsertSessionBranch_def intro: session_step.conflict)
    next
      case True
      from run x Some True obtain row t1 where ex:
        "run_state (exec (UpdateSession (db_now e) u x (m_base_version m))) t = (Inr row, t1)"
        and fin: "run_state (finishSession e u m ''upsert'' row) t1 = (Inr out, t')"
        by (auto simp: upsertSessionBranch_def split: prod.splits sum.splits)
      note upd = UpdateSession_Inr [OF exec_Inr [OF ex, THEN conjunct2, THEN conjunct2] k]
      have "cs_user_id row = u" using upd(1) by simp
      from finishSession_Inr [OF fin this] upd True
      have "out = accepted (m_id m) (m_base_version m + 1)"
        "session_json_ok (session_row (db_now e) u (m_base_version m + 1) x)"
        "tables t' = write_session (db_now e) ''upsert'' (session_row (db_now e) u (m_base_version m + 1) x) (tables t)"
        by (simp_all add: write_session_def)
      with session_step.update [OF up x upd(2) _ True] cur Some show ?thesis by simp
    qed
  qed
qed

lemma applySession_sim:
  assumes run: "run_state (applySession e u m pv) t = (Inr out, t')"
    and k: "keys_distinct cs_key (cube_sessions (tables t))"
    and env: "validateMutationEnvelope m = None"
  shows "session_step e u m pv (tables t) out (tables t')"
proof -
  obtain got t1 where ex: "run_state (exec (GetSessionForUpdate u (m_entity_id m))) t = (got, t1)"
    by fastforce
  with run env obtain current where cur: "optional_row got = Inr current"
    by (cases "optional_row got") (auto simp: applySession_def)
  from session_current [OF ex cur] have t1: "tables t1 = tables t"
    and at: "row_at cs_key (u, m_entity_id m) (cube_sessions (tables t1)) = current" by auto
  from run ex cur env have body: "run_state (if m_operation m = ''delete'' then deleteSessionBranch e u m pv current
      else upsertSessionBranch e u m pv current) t1 = (Inr out, t')"
    by (simp add: applySession_def)
  note k1 = k [folded t1]
  have "session_step e u m pv (tables t1) out (tables t')"
    using deleteSessionBranch_sim [OF _ k1 at] upsertSessionBranch_sim [OF _ k1 at] body envelope_None(4) [OF env]
    by (auto split: if_splits)
  with t1 show ?thesis by simp
qed


subsection \<open>Solves\<close>

lemma validateSolve_ok:
  assumes "validateSolve e x i = []"
  shows "sv_id x = i" "0 \<le> sv_duration_ms x" "sv_duration_ms x \<le> maxSolveDurationMS"
    "sv_penalty x \<in> {''none'', ''plus_two'', ''dnf''}" "\<not> IsZero (sv_solved_at x)"
    "length (sv_scramble x) \<le> 4096" "validEvent e (sv_event x)"
    "sv_timing_device (with_timing_device x) \<in> {''keyboard'', ''external_timer'', ''smart_cube''}"
  using assms by (auto simp: validateSolve_def with_timing_device_def Let_def split: if_splits)

lemma with_timing_device_simps [simp]:
  "sv_id (with_timing_device x) = sv_id x" "sv_session_id (with_timing_device x) = sv_session_id x"
  "sv_duration_ms (with_timing_device x) = sv_duration_ms x"
  "sv_penalty (with_timing_device x) = sv_penalty x" "sv_solved_at (with_timing_device x) = sv_solved_at x"
  "sv_scramble (with_timing_device x) = sv_scramble x" "sv_event (with_timing_device x) = sv_event x"
  by (simp_all add: with_timing_device_def)

lemma GetSolve_result:
  "GetSolveForUpdate u i d = (r, d') \<longleftrightarrow> d' = d \<and>
     r = (case row_at sf_key (u, i) (solves d) of None \<Rightarrow> Inl ErrNoRows | Some x \<Rightarrow> Inr x)"
  by (auto simp: GetSolveForUpdate_def split: option.splits)

lemma InsertSolve_Inr:
  assumes "InsertSolve now u x d = (Inr row, d')"
  shows "row = solve_row now u 1 x" "solve_text_ok x" "user_exists u d"
    "session_ref_ok u (sv_session_id x) d" "d' = d\<lparr>solves := write_row sf_key row (solves d)\<rparr>"
  using assms by (auto simp: InsertSolve_def write_row_def split: if_splits)

lemma UpdateSolve_Inr:
  assumes "UpdateSolve now u x v d = (Inr row, d')" and k: "keys_distinct sf_key (solves d)"
  shows "row = solve_row now u (v + 1) x" "solve_text_ok x" "session_ref_ok u (sv_session_id x) d"
    "d' = d\<lparr>solves := write_row sf_key row (solves d)\<rparr>"
proof -
  from assms obtain cur where cur: "row_at sf_key (u, sv_id x) (solves d) = Some cur"
      "sf_version cur = v" "solve_text_ok x" "session_ref_ok u (sv_session_id x) d" "row = solve_row now u (sf_version cur + 1) x"
      and d': "d' = d\<lparr>solves := update_where (\<lambda>r. sf_key r = (u, sv_id x) \<and> sf_version r = v)
                  (\<lambda>r. solve_row now u (sf_version r + 1) x) (solves d)\<rparr>"
    by (auto simp: UpdateSolve_def Let_def find_guarded_key [OF k] split: if_splits option.splits)
  from cur show "row = solve_row now u (v + 1) x" "solve_text_ok x" "session_ref_ok u (sv_session_id x) d"
    by auto
  show "d' = d\<lparr>solves := write_row sf_key row (solves d)\<rparr>"
    unfolding d' using cur
    by (subst update_where_guarded [OF k, where r = cur]) (auto simp: write_row_eq_update)
qed

lemma DeleteSolve_result:
  assumes k: "keys_distinct sf_key (solves d)"
    and cur: "row_at sf_key (u, i) (solves d) = Some cur" "sf_version cur = v" "sf_deleted_at cur = None"
  shows "DeleteSolve now u i v d = (Inr (tombstone_solve now cur),
    d\<lparr>solves := write_row sf_key (tombstone_solve now cur) (solves d)\<rparr>)"
proof -
  have key: "sf_key cur = (u, i)" using cur(1) by (auto dest: row_at_Some)
  show ?thesis
    using cur key
    by (auto simp: DeleteSolve_def find_guarded_key [OF k] update_where_guarded [OF k cur(1)] write_row_eq_update)
qed

lemma finishSolve_Inr:
  assumes "run_state (finishSolve e u m operation row) t = (Inr out, t')" "sf_user_id row = u"
  shows "out = accepted (m_id m) (sf_version row)" "\<not> aborted t" "\<not> aborted t'" "user_exists u (tables t)"
    "solve_json_ok row" "tables t' = append_log (log_entry (db_now e) (sf_key row) ''solve'' operation (sf_version row)
       (SolveDoc (solveFromDB row))) (tables t)"
proof -
  from assms(1) obtain x where x: "out = accepted (m_id m) (sf_version row)" "solve_json_ok row"
    "run_state (exec (AppendChange (db_now e) u ''solve'' (sf_id row) operation (sf_version row)
       (SolveDoc (solveFromDB row)))) t = (Inr x, t')"
    by (auto simp: finishSolve_def appendSolveChange_def solve_json_ok_def map_sum_def split: prod.splits sum.splits if_splits)
  have ex: "AppendChange (db_now e) u ''solve'' (sf_id row) operation (sf_version row)
      (SolveDoc (solveFromDB row)) (tables t) = (Inr x, tables t')"
    using exec_Inr [OF x(3)] by simp
  from x(1,2) exec_Inr [OF x(3)] AppendChange_Inr [OF ex] assms(2)
  show "out = accepted (m_id m) (sf_version row)" "\<not> aborted t" "\<not> aborted t'" "user_exists u (tables t)"
    "solve_json_ok row" "tables t' = append_log (log_entry (db_now e) (sf_key row) ''solve'' operation (sf_version row)
       (SolveDoc (solveFromDB row))) (tables t)"
    by (simp_all add: sf_key_def)
qed

lemma solve_current:
  assumes run: "run_state (exec (GetSolveForUpdate u i)) t = (got, t1)"
    and cur: "optional_row got = Inr current"
  shows "\<not> aborted t \<and> \<not> aborted t1 \<and> tables t1 = tables t \<and>
    row_at sf_key (u, i) (solves (tables t)) = current"
  using run
proof (cases rule: exec_cases)
  case failed
  with cur show ?thesis by simp
next
  case no_rows
  with cur show ?thesis by (auto simp: GetSolve_result split: option.splits)
next
  case (row x)
  with cur show ?thesis by (auto simp: GetSolve_result split: option.splits)
qed

lemma deleteSolveBranch_sim:
  assumes run: "run_state (deleteSolveBranch e u m pv current) t = (Inr out, t')"
    and k: "keys_distinct sf_key (solves (tables t))"
    and cur: "row_at sf_key (u, m_entity_id m) (solves (tables t)) = current"
    and del: "m_operation m = ''delete''"
  shows "solve_step e u m pv (tables t) out (tables t')"
proof (cases "\<exists>r. current = Some r \<and> sf_version r = m_base_version m \<and> sf_deleted_at r = None")
  case False
  with run cur del show ?thesis
    by (cases current)
      (auto simp: deleteSolveBranch_def intro: solve_step.intros split: if_splits)
next
  case True
  then obtain r where r: "current = Some r" "sf_version r = m_base_version m" "sf_deleted_at r = None"
    by blast
  note at = cur [unfolded r(1)]
  obtain res t1 where ex: "run_state (exec (DeleteSolve (db_now e) u (m_entity_id m) (m_base_version m))) t = (res, t1)"
    by fastforce
  have run1: "res = Inr (tombstone_solve (db_now e) r)"
    "tables t1 = (tables t)\<lparr>solves := write_row sf_key (tombstone_solve (db_now e) r) (solves (tables t))\<rparr>"
    "run_state (finishSolve e u m ''delete'' (tombstone_solve (db_now e) r)) t1 = (Inr out, t')"
    using ex run r DeleteSolve_result [OF k at r(2,3), of "db_now e"]
    by (cases rule: exec_cases; auto simp: deleteSolveBranch_def split: if_splits)+
  have "sf_user_id (tombstone_solve (db_now e) r) = u"
    using row_at_sf_key [OF at] by simp
  from finishSolve_Inr [OF run1(3) this] run1(2) r(2)
  have "out = accepted (m_id m) (m_base_version m + 1)"
    "solve_json_ok (tombstone_solve (db_now e) r)"
    "tables t' = write_solve (db_now e) ''delete'' (tombstone_solve (db_now e) r) (tables t)"
    by (simp_all add: write_solve_def)
  with solve_step.delete [OF del at r(2,3)] show ?thesis by simp
qed

text \<open>
  A foreign-key violation is answered as a rejected mutation, but it has failed the
  transaction: a usable transaction means that the statement returned its row.
\<close>

lemma solveUpsert_row:
  assumes "run_state (do { res \<leftarrow> exec st; solveUpsertResult e u m res }) t = (Inr out, t')"
    and "\<not> aborted t'"
  obtains row t1 where "run_state (exec st) t = (Inr row, t1)"
    "run_state (finishSolve e u m ''upsert'' row) t1 = (Inr out, t')"
proof -
  obtain res t1 where ex: "run_state (exec st) t = (res, t1)" by fastforce
  then show thesis
  proof (cases rule: exec_cases)
    case (failed err)
    with ex assms show ?thesis by (simp add: solveUpsertResult_def split: if_splits)
  next
    case no_rows
    with ex assms show ?thesis by (simp add: solveUpsertResult_def isForeignKeyViolation_def)
  next
    case (row x)
    with ex assms that show ?thesis by (simp add: solveUpsertResult_def)
  qed
qed

lemma upsertSolveBranch_sim:
  assumes run: "run_state (upsertSolveBranch e u m pv current) t = (Inr out, t')"
    and na: "\<not> aborted t'"
    and k: "keys_distinct sf_key (solves (tables t))"
    and cur: "row_at sf_key (u, m_entity_id m) (solves (tables t)) = current"
    and up: "m_operation m = ''upsert''"
  shows "solve_step e u m pv (tables t) out (tables t')"
proof (cases "\<exists>x. unmarshalSolve e (m_data m) = Some x \<and> validateSolve e x (m_entity_id m) = []")
  case False
  with run up show ?thesis
    by (cases "unmarshalSolve e (m_data m)")
      (auto simp: upsertSolveBranch_def Let_def intro: solve_step.intros split: if_splits)
next
  case True
  then obtain x where x: "unmarshalSolve e (m_data m) = Some x" "validateSolve e x (m_entity_id m) = []"
    by blast
  let ?x = "with_timing_device x"
  have id: "sv_id ?x = m_entity_id m" using validateSolve_ok(1) [OF x(2)] by simp
  show ?thesis
  proof (cases current)
    case None
    show ?thesis
    proof (cases "m_base_version m = 0")
      case False
      with run x cur None up show ?thesis
        by (auto simp: upsertSolveBranch_def intro: solve_step.update_missing)
    next
      case True
      have "run_state (do { res \<leftarrow> exec (InsertSolve (db_now e) u ?x); solveUpsertResult e u m res }) t = (Inr out, t')"
        using run x None True by (simp add: upsertSolveBranch_def with_timing_device_def)
      then obtain row t1 where
        ex: "run_state (exec (InsertSolve (db_now e) u ?x)) t = (Inr row, t1)"
        and fin: "run_state (finishSolve e u m ''upsert'' row) t1 = (Inr out, t')"
        using na by (rule solveUpsert_row)
      note ins = InsertSolve_Inr [OF exec_Inr [OF ex, THEN conjunct2, THEN conjunct2]]
      have "sf_user_id row = u" using ins(1) by simp
      from finishSolve_Inr [OF fin this] ins
      have "out = accepted (m_id m) 1"
        "solve_json_ok (solve_row (db_now e) u 1 ?x)"
        "tables t' = write_solve (db_now e) ''upsert'' (solve_row (db_now e) u 1 ?x) (tables t)"
        by (simp_all add: write_solve_def)
      with solve_step.create [OF up x ins(2,3) _ _ True] ins(4) cur None show ?thesis by simp
    qed
  next
    case (Some r)
    show ?thesis
    proof (cases "sf_version r = m_base_version m")
      case False
      with run x cur Some show ?thesis
        by (auto simp: upsertSolveBranch_def intro: solve_step.conflict)
    next
      case True
      have run': "run_state (do { res \<leftarrow> exec (UpdateSolve (db_now e) u ?x (m_base_version m));
          solveUpsertResult e u m res }) t = (Inr out, t')"
        using run x Some True by (simp add: upsertSolveBranch_def with_timing_device_def)
      then obtain row t1 where
        ex: "run_state (exec (UpdateSolve (db_now e) u ?x (m_base_version m))) t = (Inr row, t1)"
        and fin: "run_state (finishSolve e u m ''upsert'' row) t1 = (Inr out, t')"
        using na by (rule solveUpsert_row)
      note upd = UpdateSolve_Inr [OF exec_Inr [OF ex, THEN conjunct2, THEN conjunct2] k]
      have "sf_user_id row = u" using upd(1) by simp
      from finishSolve_Inr [OF fin this] upd True
      have "out = accepted (m_id m) (m_base_version m + 1)"
        "solve_json_ok (solve_row (db_now e) u (m_base_version m + 1) ?x)"
        "tables t' = write_solve (db_now e) ''upsert'' (solve_row (db_now e) u (m_base_version m + 1) ?x) (tables t)"
        by (simp_all add: write_solve_def)
      with solve_step.update [OF up x upd(2) _ _ True] upd(3) cur Some show ?thesis by simp
    qed
  qed
qed

lemma applySolve_sim:
  assumes run: "run_state (applySolve e u m pv) t = (Inr out, t')"
    and na: "\<not> aborted t'"
    and k: "keys_distinct sf_key (solves (tables t))"
    and env: "validateMutationEnvelope m = None"
  shows "solve_step e u m pv (tables t) out (tables t')"
proof -
  obtain got t1 where ex: "run_state (exec (GetSolveForUpdate u (m_entity_id m))) t = (got, t1)"
    by fastforce
  with run env obtain current where cur: "optional_row got = Inr current"
    by (cases "optional_row got") (auto simp: applySolve_def)
  from solve_current [OF ex cur] have t1: "tables t1 = tables t"
    and at: "row_at sf_key (u, m_entity_id m) (solves (tables t1)) = current" by auto
  from run ex cur env have body: "run_state (if m_operation m = ''delete'' then deleteSolveBranch e u m pv current
      else upsertSolveBranch e u m pv current) t1 = (Inr out, t')"
    by (simp add: applySolve_def)
  note k1 = k [folded t1]
  have "solve_step e u m pv (tables t1) out (tables t')"
    using deleteSolveBranch_sim [OF _ k1 at] upsertSolveBranch_sim [OF _ na k1 at] body envelope_None(4) [OF env]
    by (auto split: if_splits)
  with t1 show ?thesis by simp
qed


end
