(* ===== verification/Sync_Invariants.thy ===== *)
theory Sync_Invariants
  imports Sync_Refine
begin

text \<open>
  What the steps of the contract keep. The two entity tables share the locale
  \<open>logged_table\<close>: a write replaces one row and appends its document to the change log. The
  locale \<open>store_preorder\<close> lifts a relation that every single write respects to a mutation, an
  outcome and a whole batch; it is interpreted on the schema invariant, the validity of the
  stored rows, the change-log correspondence, the growth of versions and the isolation of
  users.
\<close>

definition rows_grow :: "('r \<Rightarrow> 'k) \<Rightarrow> ('r \<Rightarrow> int) \<Rightarrow> 'r list \<Rightarrow> 'r list \<Rightarrow> bool" where
  "rows_grow key version rows rows' \<longleftrightarrow>
     (\<forall>k r. row_at key k rows = Some r \<longrightarrow>
        (\<exists>r'. row_at key k rows' = Some r' \<and> (r' = r \<or> version r < version r')))"

definition versions_kept :: "db \<Rightarrow> db \<Rightarrow> bool" where
  "versions_kept d d' \<longleftrightarrow> rows_grow cs_key cs_version (cube_sessions d) (cube_sessions d') \<and>
     rows_grow sf_key sf_version (solves d) (solves d')"

definition others_kept :: "uuid \<Rightarrow> db \<Rightarrow> db \<Rightarrow> bool" where
  "others_kept u d d' \<longleftrightarrow>
     users d' = users d \<and> password_credentials d' = password_credentials d \<and>
     identities d' = identities d \<and> refresh_tokens d' = refresh_tokens d \<and>
     one_time_tokens d' = one_time_tokens d \<and>
     filter (\<lambda>r. dv_user_id r \<noteq> u) (devices d') = filter (\<lambda>r. dv_user_id r \<noteq> u) (devices d) \<and>
     filter (\<lambda>r. cs_user_id r \<noteq> u) (cube_sessions d') = filter (\<lambda>r. cs_user_id r \<noteq> u) (cube_sessions d) \<and>
     filter (\<lambda>r. sf_user_id r \<noteq> u) (solves d') = filter (\<lambda>r. sf_user_id r \<noteq> u) (solves d) \<and>
     filter (\<lambda>r. pm_user_id r \<noteq> u) (processed_mutations d') =
       filter (\<lambda>r. pm_user_id r \<noteq> u) (processed_mutations d) \<and>
     filter (\<lambda>c. cl_user_id c \<noteq> u) (change_log d') = filter (\<lambda>c. cl_user_id c \<noteq> u) (change_log d)"

lemma row_at_write_row:
  "row_at key k (write_row key r rows) = (if k = key r then Some r else row_at key k rows)"
proof (cases "row_at key (key r) rows = None")
  case True
  then show ?thesis by (auto simp: write_row_def row_at_append split: option.splits)
next
  case False
  have "row_at key k (update_where (\<lambda>x. key x = key r) (\<lambda>_. r) rows) =
      (if k = key r then map_option (\<lambda>_. r) (row_at key k rows) else row_at key k rows)"
    by (induction rows) auto
  with False show ?thesis by (auto simp: write_row_def)
qed

lemma keys_distinct_write_row:
  assumes "keys_distinct key rows"
  shows "keys_distinct key (write_row key r rows)"
proof (cases "row_at key (key r) rows = None")
  case True
  with assms show ?thesis by (auto simp: write_row_def intro: keys_distinct_append)
next
  case False
  have "map key (update_where (\<lambda>x. key x = key r) (\<lambda>_. r) rows) = map key rows"
    by (induction rows) auto
  with assms False show ?thesis by (auto simp: write_row_def keys_distinct_def)
qed

lemma set_write_row: "set (write_row key r rows) \<subseteq> insert r (set rows)"
  by (auto simp: write_row_def set_update_where)

lemma filter_write_row:
  assumes "\<And>x. key x = key r \<Longrightarrow> \<not> Q x"
  shows "filter Q (write_row key r rows) = filter Q rows"
  using assms by (auto simp: write_row_def intro: filter_update_where_other)


subsection \<open>The two logged tables\<close>

locale logged_table =
  fixes key :: "'r \<Rightarrow> uuid \<times> uuid"
    and rows :: "db \<Rightarrow> 'r list"
    and entity :: string
    and version :: "'r \<Rightarrow> int"
    and doc :: "'r \<Rightarrow> document"
    and put :: "time \<Rightarrow> string \<Rightarrow> 'r \<Rightarrow> db \<Rightarrow> db"
  assumes rows_write: "rows (put now operation r d) = write_row key r (rows d)"
    and log_write: "change_log (put now operation r d) = change_log d @
          [log_entry now (key r) entity operation (version r) (doc r) (change_seq d + 1)]"
    and seq_write: "change_seq (put now operation r d) = change_seq d + 1"
    and replica_write: "replica_of u (put now operation r d) =
          (if fst (key r) = u then (replica_of u d)((entity, snd (key r)) \<mapsto> doc r) else replica_of u d)"
begin

lemma log_ok_write:
  assumes "log_ok d"
  shows "log_ok (put now operation r d)"
  using assms
  by (auto simp: log_ok_def log_write seq_write log_entry_def sorted_wrt_append)

lemma journaled_write: "journaled d (put now operation r d)"
  by (auto simp: journaled_def log_write seq_write log_entry_def replica_write replay_entry_def)

lemma row_at_write:
  "row_at key k (rows (put now operation r d)) = (if k = key r then Some r else row_at key k (rows d))"
  by (simp add: rows_write row_at_write_row)

lemma grow_write:
  assumes "\<And>cur. row_at key (key r) (rows d) = Some cur \<Longrightarrow> version cur < version r"
  shows "rows_grow key version (rows d) (rows (put now operation r d))"
  using assms by (simp add: rows_grow_def row_at_write)

end

lemma write_session_simps [simp]:
  "users (write_session now operation r d) = users d"
  "password_credentials (write_session now operation r d) = password_credentials d"
  "identities (write_session now operation r d) = identities d"
  "refresh_tokens (write_session now operation r d) = refresh_tokens d"
  "one_time_tokens (write_session now operation r d) = one_time_tokens d"
  "devices (write_session now operation r d) = devices d"
  "cube_sessions (write_session now operation r d) = write_row cs_key r (cube_sessions d)"
  "solves (write_session now operation r d) = solves d"
  "processed_mutations (write_session now operation r d) = processed_mutations d"
  by (simp_all add: write_session_def append_log_def)

lemma write_solve_simps [simp]:
  "users (write_solve now operation r d) = users d"
  "password_credentials (write_solve now operation r d) = password_credentials d"
  "identities (write_solve now operation r d) = identities d"
  "refresh_tokens (write_solve now operation r d) = refresh_tokens d"
  "one_time_tokens (write_solve now operation r d) = one_time_tokens d"
  "devices (write_solve now operation r d) = devices d"
  "cube_sessions (write_solve now operation r d) = cube_sessions d"
  "solves (write_solve now operation r d) = write_row sf_key r (solves d)"
  "processed_mutations (write_solve now operation r d) = processed_mutations d"
  by (simp_all add: write_solve_def append_log_def)

interpretation ses: logged_table cs_key cube_sessions "''session''" cs_version
  "\<lambda>r. SessionDoc (sessionFromDB r)" write_session
proof unfold_locales
  fix now operation r d u
  show "replica_of u (write_session now operation r d) =
    (if fst (cs_key r) = u then (replica_of u d)((''session'', snd (cs_key r)) \<mapsto> SessionDoc (sessionFromDB r))
     else replica_of u d)"
    by (cases "cs_key r") (auto simp: fun_eq_iff replica_of_def row_at_write_row)
qed (simp_all add: write_session_def append_log_def)

interpretation slv: logged_table sf_key solves "''solve''" sf_version
  "\<lambda>r. SolveDoc (solveFromDB r)" write_solve
proof unfold_locales
  fix now operation r d u
  show "replica_of u (write_solve now operation r d) =
    (if fst (sf_key r) = u then (replica_of u d)((''solve'', snd (sf_key r)) \<mapsto> SolveDoc (solveFromDB r))
     else replica_of u d)"
    by (cases "sf_key r") (auto simp: fun_eq_iff replica_of_def row_at_write_row)
qed (simp_all add: write_solve_def append_log_def)


subsection \<open>Relations kept by every step\<close>

text \<open>
  \<open>store_write\<close> is the relation of a single write of the user's data: the rules of the contract
  that change an entity table, with what they know of the row they replace.
\<close>

inductive store_write :: "env \<Rightarrow> uuid \<Rightarrow> db \<Rightarrow> db \<Rightarrow> bool" for e u d where
  session_tombstone:
    "row_at cs_key (u, i) (cube_sessions d) = Some cur \<Longrightarrow> cs_deleted_at cur = None \<Longrightarrow>
     session_json_ok (tombstone_session (db_now e) cur) \<Longrightarrow>
     store_write e u d (write_session (db_now e) ''delete'' (tombstone_session (db_now e) cur) d)"
| session_put:
    "validateSession e x (s_id x) = [] \<Longrightarrow> s_id x \<noteq> uuid_nil \<Longrightarrow>
     v = (case row_at cs_key (u, s_id x) (cube_sessions d) of None \<Rightarrow> 1 | Some cur \<Rightarrow> cs_version cur + 1) \<Longrightarrow>
     1 \<le> v \<Longrightarrow> session_json_ok (session_row (db_now e) u v x) \<Longrightarrow>
     store_write e u d (write_session (db_now e) ''upsert'' (session_row (db_now e) u v x) d)"
| solve_tombstone:
    "row_at sf_key (u, i) (solves d) = Some cur \<Longrightarrow> sf_deleted_at cur = None \<Longrightarrow>
     solve_json_ok (tombstone_solve (db_now e) cur) \<Longrightarrow>
     store_write e u d (write_solve (db_now e) ''delete'' (tombstone_solve (db_now e) cur) d)"
| solve_put:
    "validateSolve e x (sv_id x) = [] \<Longrightarrow> sv_id x \<noteq> uuid_nil \<Longrightarrow>
     session_ref_ok u (sv_session_id x) d \<Longrightarrow>
     v = (case row_at sf_key (u, sv_id x) (solves d) of None \<Rightarrow> 1 | Some cur \<Rightarrow> sf_version cur + 1) \<Longrightarrow>
     1 \<le> v \<Longrightarrow> solve_json_ok (solve_row (db_now e) u v (with_timing_device x)) \<Longrightarrow>
     store_write e u d (write_solve (db_now e) ''upsert'' (solve_row (db_now e) u v (with_timing_device x)) d)"


lemma session_step_write:
  assumes "session_step e u m pv d out d'" "m_entity_id m \<noteq> uuid_nil" "0 \<le> m_base_version m"
  shows "d' = d \<or> store_write e u d d'"
  using assms
proof (cases rule: session_step.cases)
  case (delete cur)
  then show ?thesis by (auto intro: session_tombstone)
next
  case (create x)
  moreover note validateSession_ok(1) [OF create(5)]
  ultimately show ?thesis using assms(2) by (auto intro!: session_put)
next
  case (update x cur)
  moreover note validateSession_ok(1) [OF update(5)]
  ultimately show ?thesis using assms(2,3) by (auto intro!: session_put)
qed auto

lemma solve_step_write:
  assumes "solve_step e u m pv d out d'" "m_entity_id m \<noteq> uuid_nil" "0 \<le> m_base_version m"
  shows "d' = d \<or> store_write e u d d'"
  using assms
proof (cases rule: solve_step.cases)
  case (delete cur)
  then show ?thesis by (auto intro: solve_tombstone)
next
  case (create x)
  moreover note validateSolve_ok(1) [OF create(5)]
  ultimately show ?thesis using assms(2) by (auto intro!: solve_put)
next
  case (update x cur)
  moreover note validateSolve_ok(1) [OF update(5)]
  ultimately show ?thesis using assms(2,3) by (auto intro!: solve_put)
qed auto

lemma mutation_step_write:
  assumes "mutation_step e u m pv d out d'"
  shows "d' = d \<or> store_write e u d d'"
  using assms
proof (cases rule: mutation_step.cases)
  case session
  with envelope_None [OF session(2)] show ?thesis by (blast dest: session_step_write)
next
  case solve
  with envelope_None [OF solve(2)] show ?thesis by (blast dest: solve_step_write)
qed auto

lemma outcome_ids [simp]:
  "mo_mutation_id (accepted i v) = i" "mo_mutation_id (rejected i code message) = i"
  "mo_mutation_id (sessionConflict i cs pv) = i" "mo_mutation_id (solveConflict i sf pv) = i"
  by (simp_all add: accepted_def rejected_def sessionConflict_def solveConflict_def conflict_outcome_def)

lemma mutation_step_id:
  assumes "mutation_step e u m pv d out d'"
  shows "mo_mutation_id out = m_id m"
  using assms
  by (auto elim!: mutation_step.cases session_step.cases solve_step.cases
      simp: validateMutationEnvelope_def split: if_splits)

lemma store_write_frame:
  assumes "store_write e u d d'"
  shows "users d' = users d" "devices d' = devices d" "processed_mutations d' = processed_mutations d"
  using assms by (auto elim: store_write.cases)

lemma record_outcome_simps [simp]:
  "cube_sessions (record_outcome now u dev i out d) = cube_sessions d"
  "solves (record_outcome now u dev i out d) = solves d"
  "users (record_outcome now u dev i out d) = users d"
  "devices (record_outcome now u dev i out d) = devices d"
  "change_log (record_outcome now u dev i out d) = change_log d"
  "change_seq (record_outcome now u dev i out d) = change_seq d"
  by (simp_all add: record_outcome_def)

locale store_preorder = transition_preorder R for R :: "db \<Rightarrow> db \<Rightarrow> bool" +
  fixes e :: env and u :: uuid
  assumes R_write: "store_write e u d d' \<Longrightarrow> R d d'"
    and R_record: "row_at pm_key (u, dev, i) (processed_mutations d) = None \<Longrightarrow>
          mo_mutation_id out = i \<Longrightarrow> R d (record_outcome now u dev i out d)"
    and R_device: "R d (snd (UpsertDevice now i u name platform d))"
    and R_ack: "R d (snd (UpdateDeviceAckCursor u i cursor d))"
    and R_seq: "change_seq d \<le> n \<Longrightarrow> R d (d\<lparr>change_seq := n\<rparr>)"
begin

lemma mutation_R: "mutation_step e u m pv d out d' \<Longrightarrow> R d d'"
  using mutation_step_write R_write R_refl by blast

lemma apply_R:
  assumes "apply_step e u dev m pv d out d'"
  shows "R d d'"
  using assms
proof (cases rule: apply_step.cases)
  case replay
  then show ?thesis by (simp add: R_refl)
next
  case (fresh d1)
  have "processed_mutations d1 = processed_mutations d"
    using mutation_step_write [OF fresh(3)] store_write_frame(3) by auto
  with fresh(1,2) R_trans [OF mutation_R [OF fresh(3)] R_record] mutation_step_id [OF fresh(3)]
  show ?thesis by simp
qed

lemma batch_R: "batch_steps e u dev pv ms d outs d' \<Longrightarrow> R d d'"
  by (induction rule: batch_steps.induct) (auto intro: R_refl R_trans apply_R)

end



subsection \<open>The interpretations\<close>

lemma UpsertDevice_frame:
  "\<exists>ds. snd (UpsertDevice now i u name platform d) = d\<lparr>devices := ds\<rparr> \<and>
     (keys_distinct dv_key (devices d) \<longrightarrow> keys_distinct dv_key ds) \<and>
     filter (\<lambda>r. dv_user_id r \<noteq> u) ds = filter (\<lambda>r. dv_user_id r \<noteq> u) (devices d)"
proof (cases "row_at dv_key (u, i) (devices d) \<noteq> None")
  case True
  let ?f = "\<lambda>r. r\<lparr>dv_name := name, dv_platform := platform, dv_last_seen_at := now\<rparr>"
  have "filter (\<lambda>r. dv_user_id r \<noteq> u) (update_where (\<lambda>r. dv_key r = (u, i)) ?f (devices d)) =
      filter (\<lambda>r. dv_user_id r \<noteq> u) (devices d)"
    by (rule filter_update_where_other) (auto simp: dv_key_def)
  moreover have "keys_distinct dv_key (update_where (\<lambda>r. dv_key r = (u, i)) ?f (devices d)) =
      keys_distinct dv_key (devices d)"
    by (rule keys_distinct_update_where) (simp add: dv_key_def)
  ultimately show ?thesis
    using True by (auto simp: UpsertDevice_def intro: exI [of _ "devices d"])
next
  case False
  then show ?thesis
    by (auto simp: UpsertDevice_def dv_key_def [abs_def] intro: exI [of _ "devices d"] intro!: keys_distinct_append)
qed

lemma UpdateDeviceAckCursor_frame:
  "\<exists>ds. snd (UpdateDeviceAckCursor u i cursor d) = d\<lparr>devices := ds\<rparr> \<and>
     (keys_distinct dv_key (devices d) \<longrightarrow> keys_distinct dv_key ds) \<and>
     filter (\<lambda>r. dv_user_id r \<noteq> u) ds = filter (\<lambda>r. dv_user_id r \<noteq> u) (devices d)"
proof -
  let ?P = "\<lambda>r. dv_key r = (u, i) \<and> dv_last_ack_cursor r < cursor"
  let ?f = "\<lambda>r. r\<lparr>dv_last_ack_cursor := cursor\<rparr>"
  have "filter (\<lambda>r. dv_user_id r \<noteq> u) (update_where ?P ?f (devices d)) =
      filter (\<lambda>r. dv_user_id r \<noteq> u) (devices d)"
    by (rule filter_update_where_other) (auto simp: dv_key_def)
  moreover have "keys_distinct dv_key (update_where ?P ?f (devices d)) = keys_distinct dv_key (devices d)"
    by (rule keys_distinct_update_where) (simp add: dv_key_def)
  ultimately show ?thesis by (auto simp: UpdateDeviceAckCursor_def)
qed

text \<open>Statements that change the devices only.\<close>

lemma device_frame_R:
  assumes "\<And>ds. (keys_distinct dv_key (devices d) \<longrightarrow> keys_distinct dv_key ds) \<Longrightarrow>
      filter (\<lambda>r. dv_user_id r \<noteq> u) ds = filter (\<lambda>r. dv_user_id r \<noteq> u) (devices d) \<Longrightarrow> R d (d\<lparr>devices := ds\<rparr>)"
  shows "R d (snd (UpsertDevice now i u name platform d))" "R d (snd (UpdateDeviceAckCursor u i cursor d))"
  using assms UpsertDevice_frame [of now i u name platform d] UpdateDeviceAckCursor_frame [of u i cursor d]
  by auto

lemma session_row_ok:
  assumes "validateSession e x (s_id x) = []" "s_id x \<noteq> uuid_nil" "1 \<le> v" "session_json_ok (session_row now u v x)"
  shows "session_ok e (session_row now u v x)"
  using validateSession_ok [OF assms(1)] assms(2-4) by (auto simp: session_ok_def session_row_def split: option.splits)

lemma solve_row_ok:
  assumes "validateSolve e x (sv_id x) = []" "sv_id x \<noteq> uuid_nil" "1 \<le> v" "solve_json_ok (solve_row now u v (with_timing_device x))"
  shows "solve_ok e (solve_row now u v (with_timing_device x))"
  using validateSolve_ok [OF assms(1)] assms(2-4) by (auto simp: solve_ok_def solve_row_def)

lemma session_ref_mono:
  assumes "\<And>k. row_at cs_key k (cube_sessions d) \<noteq> None \<Longrightarrow> row_at cs_key k (cube_sessions d') \<noteq> None"
    and "session_ref_ok u ref d"
  shows "session_ref_ok u ref d'"
  using assms by (auto simp: session_ref_ok_def split: option.splits)

lemma refs_ok_write_session: "refs_ok d \<Longrightarrow> refs_ok (write_session now operation r d)"
  unfolding refs_ok_def using session_ref_mono [of d "write_session now operation r d"]
  by (simp add: row_at_write_row)

lemma refs_ok_write_solve:
  assumes "refs_ok d" "session_ref_ok (sf_user_id r) (sf_session_id r) d"
  shows "refs_ok (write_solve now operation r d)"
proof -
  have "session_ref_ok v ref (write_solve now operation r d) = session_ref_ok v ref d" for v ref
    by (simp add: session_ref_ok_def split: option.splits)
  with assms show ?thesis unfolding refs_ok_def using set_write_row [of sf_key r "solves d"] by auto
qed

lemma tables_ok_store_write:
  assumes "store_write e u d d'" "tables_ok d"
  shows "tables_ok d'"
  using assms
proof (cases rule: store_write.cases)
  case (solve_tombstone i cur)
  moreover have "session_ref_ok (sf_user_id cur) (sf_session_id cur) d"
    using assms(2) row_at_Some [OF solve_tombstone(2)] by (auto simp: tables_ok_def refs_ok_def)
  ultimately show ?thesis
    using assms(2) by (auto simp: tables_ok_def outcomes_ok_def keys_distinct_write_row slv.log_ok_write intro: refs_ok_write_solve)
qed (use assms(2) in \<open>auto simp: tables_ok_def outcomes_ok_def keys_distinct_write_row slv.log_ok_write ses.log_ok_write
       intro: refs_ok_write_solve refs_ok_write_session\<close>)

lemma rows_ok_write_session:
  "rows_ok e d \<Longrightarrow> session_ok e r \<Longrightarrow> rows_ok e (write_session now operation r d)"
  using set_write_row [of cs_key r "cube_sessions d"] by (auto simp: rows_ok_def)

lemma rows_ok_write_solve:
  "rows_ok e d \<Longrightarrow> solve_ok e r \<Longrightarrow> rows_ok e (write_solve now operation r d)"
  using set_write_row [of sf_key r "solves d"] by (auto simp: rows_ok_def)

lemma rows_ok_store_write:
  assumes "store_write e u d d'" "rows_ok e d"
  shows "rows_ok e d'"
  using assms
proof (cases rule: store_write.cases)
  case (session_tombstone i cur)
  then have "session_ok e cur" using assms(2) by (auto simp: rows_ok_def dest: row_at_Some)
  with session_tombstone assms(2) show ?thesis
    by (auto intro!: rows_ok_write_session simp: session_ok_def tombstone_session_def split: option.splits)
next
  case (solve_tombstone i cur)
  then have "solve_ok e cur" using assms(2) by (auto simp: rows_ok_def dest: row_at_Some)
  with solve_tombstone assms(2) show ?thesis
    by (auto intro!: rows_ok_write_solve simp: solve_ok_def tombstone_solve_def)
qed (use assms(2) in \<open>auto intro: rows_ok_write_session rows_ok_write_solve session_row_ok solve_row_ok\<close>)


lemma journaled_refl: "journaled d d"
  by (auto simp: journaled_def)

lemma journaled_trans:
  assumes "journaled d d1" "journaled d1 d2"
  shows "journaled d d2"
proof -
  from assms obtain new new' where
    "change_log d1 = change_log d @ new" "\<forall>c\<in>set new. change_seq d < cl_change_id c"
    "\<forall>u. replica_of u d1 = foldl replay_entry (replica_of u d) (filter (\<lambda>c. cl_user_id c = u) new)"
    "change_log d2 = change_log d1 @ new'" "\<forall>c\<in>set new'. change_seq d1 < cl_change_id c"
    "\<forall>u. replica_of u d2 = foldl replay_entry (replica_of u d1) (filter (\<lambda>c. cl_user_id c = u) new')"
    "change_seq d \<le> change_seq d1" "change_seq d1 \<le> change_seq d2"
    unfolding journaled_def by metis
  then show ?thesis
    unfolding journaled_def by (auto intro!: exI [of _ "new @ new'"] split: if_splits)
qed

lemma journaled_same:
  assumes "cube_sessions d' = cube_sessions d" "solves d' = solves d" "change_log d' = change_log d"
    "change_seq d \<le> change_seq d'"
  shows "journaled d d'"
  using assms by (auto simp: journaled_def replica_of_def)

lemma tables_ok_same:
  assumes "tables_ok d" "cube_sessions d' = cube_sessions d" "solves d' = solves d"
    "change_log d' = change_log d" "change_seq d \<le> change_seq d'"
    "keys_distinct dv_key (devices d')" "keys_distinct pm_key (processed_mutations d')"
    "outcomes_ok d'"
  shows "tables_ok d'"
proof -
  have "session_ref_ok v ref d' = session_ref_ok v ref d" for v ref
    using assms(2) by (simp add: session_ref_ok_def split: option.splits)
  with assms show ?thesis by (auto simp: tables_ok_def log_ok_def refs_ok_def)
qed

lemma versions_kept_session:
  assumes "\<And>cur. row_at cs_key (cs_key r) (cube_sessions d) = Some cur \<Longrightarrow> cs_version cur < cs_version r"
  shows "versions_kept d (write_session now operation r d)"
  unfolding versions_kept_def using ses.grow_write [OF assms] by (simp add: rows_grow_def)

lemma versions_kept_solve:
  assumes "\<And>cur. row_at sf_key (sf_key r) (solves d) = Some cur \<Longrightarrow> sf_version cur < sf_version r"
  shows "versions_kept d (write_solve now operation r d)"
  unfolding versions_kept_def using slv.grow_write [OF assms] by (simp add: rows_grow_def)

lemma rows_grow_trans:
  "rows_grow key version rows rows1 \<Longrightarrow> rows_grow key version rows1 rows2 \<Longrightarrow>
   rows_grow key version rows rows2"
  unfolding rows_grow_def by (metis order.strict_trans)

lemma versions_store_write:
  assumes "store_write e u d d'"
  shows "versions_kept d d'"
  using assms
proof (cases rule: store_write.cases)
  case (session_tombstone i cur)
  with row_at_Some [OF session_tombstone(2)] show ?thesis by (auto intro!: versions_kept_session)
next
  case (solve_tombstone i cur)
  with row_at_Some [OF solve_tombstone(2)] show ?thesis by (auto intro!: versions_kept_solve)
qed (auto intro!: versions_kept_session versions_kept_solve)

lemma others_kept_session: "others_kept (cs_user_id r) d (write_session now operation r d)"
  by (auto simp: others_kept_def ses.log_write log_entry_def cs_key_def intro: filter_write_row)

lemma others_kept_solve: "others_kept (sf_user_id r) d (write_solve now operation r d)"
  by (auto simp: others_kept_def slv.log_write log_entry_def sf_key_def intro: filter_write_row)

lemma others_store_write:
  assumes "store_write e u d d'"
  shows "others_kept u d d'"
  using assms
proof (cases rule: store_write.cases)
  case (session_tombstone i cur)
  with others_kept_session [of "tombstone_session (db_now e) cur"] row_at_cs_key [OF session_tombstone(2)]
  show ?thesis by simp
next
  case (session_put x v)
  with others_kept_session [of "session_row (db_now e) u v x"] show ?thesis by simp
next
  case (solve_tombstone i cur)
  with others_kept_solve [of "tombstone_solve (db_now e) cur"] row_at_sf_key [OF solve_tombstone(2)]
  show ?thesis by simp
next
  case (solve_put x v)
  with others_kept_solve [of "solve_row (db_now e) u v (with_timing_device x)"] show ?thesis by simp
qed

interpretation tables: store_preorder "\<lambda>d d'. tables_ok d \<longrightarrow> tables_ok d'" e u for e u
proof unfold_locales
  fix d d' dev i out now name platform cursor n
  show "tables_ok d \<longrightarrow> tables_ok d" "\<And>d1 d2. tables_ok d \<longrightarrow> tables_ok d1 \<Longrightarrow> tables_ok d1 \<longrightarrow> tables_ok d2 \<Longrightarrow> tables_ok d \<longrightarrow> tables_ok d2"
    by blast+
  show "store_write e u d d' \<Longrightarrow> tables_ok d \<longrightarrow> tables_ok d'"
    by (auto intro: tables_ok_store_write)
  show "row_at pm_key (u, dev, i) (processed_mutations d) = None \<Longrightarrow> mo_mutation_id out = i \<Longrightarrow>
      tables_ok d \<longrightarrow> tables_ok (record_outcome now u dev i out d)"
    by (rule impI, rule tables_ok_same [of d])
      (simp_all add: tables_ok_def record_outcome_def outcomes_ok_def pm_key_def keys_distinct_append)
  show "tables_ok d \<longrightarrow> tables_ok (snd (UpsertDevice now i u name platform d))"
    "tables_ok d \<longrightarrow> tables_ok (snd (UpdateDeviceAckCursor u i cursor d))"
    by (rule device_frame_R [where R = "\<lambda>d d'. tables_ok d \<longrightarrow> tables_ok d'"]; rule impI, rule tables_ok_same [of d]; auto simp: tables_ok_def outcomes_ok_def)+
  show "change_seq d \<le> n \<Longrightarrow> tables_ok d \<longrightarrow> tables_ok (d\<lparr>change_seq := n\<rparr>)"
    by (rule impI, rule tables_ok_same [of d]) (auto simp: tables_ok_def outcomes_ok_def)
qed

interpretation rows: store_preorder "\<lambda>d d'. rows_ok e d \<longrightarrow> rows_ok e d'" e u for e u
proof unfold_locales
  fix d d' dev i out now name platform cursor n
  show "rows_ok e d \<longrightarrow> rows_ok e d" "\<And>d1 d2. rows_ok e d \<longrightarrow> rows_ok e d1 \<Longrightarrow> rows_ok e d1 \<longrightarrow> rows_ok e d2 \<Longrightarrow> rows_ok e d \<longrightarrow> rows_ok e d2"
    by blast+
  show "store_write e u d d' \<Longrightarrow> rows_ok e d \<longrightarrow> rows_ok e d'"
    by (auto intro: rows_ok_store_write)
  show "rows_ok e d \<longrightarrow> rows_ok e (snd (UpsertDevice now i u name platform d))"
    "rows_ok e d \<longrightarrow> rows_ok e (snd (UpdateDeviceAckCursor u i cursor d))"
    by (rule device_frame_R [where R = "\<lambda>d d'. rows_ok e d \<longrightarrow> rows_ok e d'"]; simp add: rows_ok_def)+
qed (simp_all add: rows_ok_def)

interpretation journal: store_preorder journaled e u for e u
proof unfold_locales
  fix d d' dev i out now name platform cursor n
  show "journaled d d" "\<And>d1 d2. journaled d d1 \<Longrightarrow> journaled d1 d2 \<Longrightarrow> journaled d d2"
    by (fact journaled_refl, fact journaled_trans)
  show "store_write e u d d' \<Longrightarrow> journaled d d'"
    by (erule store_write.cases) (simp_all add: ses.journaled_write slv.journaled_write)
  show "journaled d (snd (UpsertDevice now i u name platform d))"
    "journaled d (snd (UpdateDeviceAckCursor u i cursor d))"
    by (rule device_frame_R [where R = "journaled"]; simp add: journaled_same)+
qed (simp_all add: journaled_same)

interpretation versions: store_preorder versions_kept e u for e u
proof unfold_locales
  fix d d1 d2 d' dev i out now name platform cursor n
  show "versions_kept d d1 \<Longrightarrow> versions_kept d1 d2 \<Longrightarrow> versions_kept d d2"
    by (auto simp: versions_kept_def intro: rows_grow_trans)
  show "store_write e u d d' \<Longrightarrow> versions_kept d d'"
    by (rule versions_store_write)
  show "versions_kept d (snd (UpsertDevice now i u name platform d))"
    "versions_kept d (snd (UpdateDeviceAckCursor u i cursor d))"
    by (rule device_frame_R [where R = "versions_kept"]; simp add: versions_kept_def rows_grow_def)+
qed (simp_all add: versions_kept_def rows_grow_def)

interpretation others: store_preorder "others_kept u" e u for e u
proof unfold_locales
  fix d d' dev i out now name platform cursor n
  show "store_write e u d d' \<Longrightarrow> others_kept u d d'"
    by (rule others_store_write)
  show "others_kept u d (snd (UpsertDevice now i u name platform d))"
    "others_kept u d (snd (UpdateDeviceAckCursor u i cursor d))"
    by (rule device_frame_R [where R = "others_kept u"]; simp add: others_kept_def)+
qed (auto simp: others_kept_def record_outcome_def)

end
