(* ===== verification/Sync_Batch.thy ===== *)
theory Sync_Batch
  imports Sync_Invariants
begin

text \<open>
  From one mutation to the whole request. Inside a transaction two things only grow: the
  failed state and the sequence (\<open>failing\<close>, \<open>drawing\<close>, both instances of
  \<open>transition_preorder\<close>). With them the simulation of one mutation extends to the batch, and
  every relation of \<open>store_preorder\<close> holds between the databases before and after a call of
  \<open>Sync\<close>, whatever fails and however it ends.
\<close>

subsection \<open>The failed state is never left, the sequence never goes back\<close>

interpretation failing: transition_preorder "\<lambda>t t'. aborted t \<longrightarrow> aborted t'"
  by unfold_locales auto

interpretation drawing: transition_preorder "\<lambda>t t'. change_seq (tables t) \<le> change_seq (tables t')"
  by unfold_locales auto

lemma failing_exec [intro]: "state_io_rel (\<lambda>t t'. aborted t \<longrightarrow> aborted t') (exec st)"
  by (auto simp: state_io_rel_def exec_def Let_def split: sum.splits prod.splits)

lemma drawing_exec:
  assumes "\<And>d. change_seq d \<le> change_seq (snd (st d))"
  shows "state_io_rel (\<lambda>t t'. change_seq (tables t) \<le> change_seq (tables t')) (exec st)"
  using assms
  by (auto simp: state_io_rel_def exec_def Let_def split: sum.splits prod.splits) (metis snd_conv)+

named_theorems sync_programs "the programs of the sync service"

lemmas [sync_programs] = applyMutation_def dispatchMutation_def applySession_def deleteSessionBranch_def
  upsertSessionBranch_def finishSession_def appendSessionChange_def applySolve_def deleteSolveBranch_def
  upsertSolveBranch_def finishSolve_def appendSolveChange_def solveUpsertResult_def Let_def

lemma failing_applyMutation: "state_io_rel (\<lambda>t t'. aborted t \<longrightarrow> aborted t') (applyMutation e u dev m pv)"
  unfolding sync_programs by (intro failing.io_return failing.io_bind failing.io_if failing.io_option failing.io_sum failing_exec)

lemma failing_dispatchMutation: "state_io_rel (\<lambda>t t'. aborted t \<longrightarrow> aborted t') (dispatchMutation e u m pv)"
  unfolding sync_programs by (intro failing.io_return failing.io_bind failing.io_if failing.io_option failing.io_sum failing_exec)

lemma sync_statements_draw:
  "change_seq d \<le> change_seq (snd (AppendChange now u entity i operation v doc d))"
  "change_seq d \<le> change_seq (snd (GetSessionForUpdate u i d))"
  "change_seq d \<le> change_seq (snd (InsertSession now u x d))"
  "change_seq d \<le> change_seq (snd (UpdateSession now u x v d))"
  "change_seq d \<le> change_seq (snd (DeleteSession now u i v d))"
  "change_seq d \<le> change_seq (snd (GetSolveForUpdate u i d))"
  "change_seq d \<le> change_seq (snd (InsertSolve now u y d))"
  "change_seq d \<le> change_seq (snd (UpdateSolve now u y v d))"
  "change_seq d \<le> change_seq (snd (DeleteSolve now u i v d))"
  "change_seq d \<le> change_seq (snd (GetProcessedMutation u dev i d))"
  "change_seq d \<le> change_seq (snd (RecordProcessedMutation now u dev i out d))"
  "change_seq d \<le> change_seq (snd (UpsertDevice now i u name platform d))"
  "change_seq d \<le> change_seq (snd (ListChanges u cursor lim d))"
  by (simp_all add: AppendChange_def GetSessionForUpdate_def InsertSession_def UpdateSession_def
      DeleteSession_def GetSolveForUpdate_def InsertSolve_def UpdateSolve_def DeleteSolve_def
      GetProcessedMutation_def RecordProcessedMutation_def UpsertDevice_def ListChanges_def Let_def
      split: option.splits)

lemma drawing_applyMutation:
  "state_io_rel (\<lambda>t t'. change_seq (tables t) \<le> change_seq (tables t')) (applyMutation e u dev m pv)"
  unfolding sync_programs
  by (intro drawing.io_return drawing.io_bind drawing.io_if drawing.io_option drawing.io_sum
      drawing_exec sync_statements_draw)


lemma failing_applyAll: "state_io_rel (\<lambda>t t'. aborted t \<longrightarrow> aborted t') (applyAll e u dev pv acc ms)"
  by (induction ms arbitrary: acc)
    (auto intro!: failing.io_return failing.io_bind failing.io_sum failing_applyMutation)

lemma drawing_applyAll:
  "state_io_rel (\<lambda>t t'. change_seq (tables t) \<le> change_seq (tables t')) (applyAll e u dev pv acc ms)"
  by (induction ms arbitrary: acc)
    (auto intro!: drawing.io_return drawing.io_bind drawing.io_sum drawing_applyMutation)

lemma drawing_lock:
  "state_io_rel (\<lambda>t t'. change_seq (tables t) \<le> change_seq (tables t')) (AcquireAdvisoryLockByID key)"
  unfolding AcquireAdvisoryLockByID_def
  by (intro drawing.io_bind drawing_exec drawing.io_sum drawing.io_return) (auto simp: state_io_rel_def)

lemma drawing_syncBody:
  "state_io_rel (\<lambda>t t'. change_seq (tables t) \<le> change_seq (tables t')) (syncBody s e u req limit pv)"
  unfolding syncBody_def
  by (auto intro!: drawing.io_return drawing.io_bind drawing.io_sum drawing.io_option drawing_exec drawing_lock drawing_applyAll
     simp: sync_statements_draw split: option.splits prod.splits)

lemma run_failing:
  assumes "state_io_rel (\<lambda>t t'. aborted t \<longrightarrow> aborted t') prog" "run_state prog t = (x, t')" "\<not> aborted t'"
  shows "\<not> aborted t"
  using state_io_relD [OF assms(1,2)] assms(3) by blast


subsection \<open>One mutation\<close>

lemma dispatchMutation_sim:
  assumes run: "run_state (dispatchMutation e u m pv) t = (Inr out, t')"
    and na: "\<not> aborted t'" and ok: "tables_ok (tables t)"
  shows "mutation_step e u m pv (tables t) out (tables t')"
proof (cases "m_entity m \<in> {''session'', ''solve''} \<and> validateMutationEnvelope m = None")
  case True
  have k: "keys_distinct cs_key (cube_sessions (tables t))" "keys_distinct sf_key (solves (tables t))"
    using ok by (simp_all add: tables_ok_def)
  show ?thesis
  proof (cases "m_entity m = ''session''")
    case session: True
    with True run applySession_sim [OF _ k(1), of e u m pv out t'] show ?thesis
      by (auto simp: dispatchMutation_def intro: mutation_step.session)
  next
    case False
    with True run applySolve_sim [OF _ na k(2), of e u m pv out] show ?thesis
      by (auto simp: dispatchMutation_def intro: mutation_step.solve)
  qed
next
  case False
  with run show ?thesis
    by (auto simp: dispatchMutation_def applySession_def applySolve_def
        intro: mutation_step.envelope mutation_step.unknown_entity split: if_splits option.splits)
qed

lemma processed_lookup:
  assumes run: "run_state (exec (GetProcessedMutation u dev i)) t = (stored, t1)"
    and opt: "optional_row stored = Inr current"
  shows "\<not> aborted t \<and> tables t1 = tables t \<and>
    map_option pm_outcome (row_at pm_key (u, dev, i) (processed_mutations (tables t))) = current"
  using run
  by (cases rule: exec_cases) (use opt in \<open>auto simp: GetProcessedMutation_def split: option.splits\<close>)

lemma RecordProcessedMutation_Inr:
  assumes "RecordProcessedMutation now u dev i out d = (Inr x, d')"
    "row_at pm_key (u, dev, i) (processed_mutations d) = None"
  shows "d' = record_outcome now u dev i out d" "user_exists u d" "row_at dv_key (u, dev) (devices d) \<noteq> None"
  using assms by (auto simp: RecordProcessedMutation_def record_outcome_def split: if_splits)

lemma mutation_step_frame:
  assumes "mutation_step e u m pv d out d'"
  shows "users d' = users d" "devices d' = devices d" "processed_mutations d' = processed_mutations d"
  using mutation_step_write [OF assms] store_write_frame by auto

lemma applyMutation_sim:
  assumes run: "run_state (applyMutation e u dev m pv) t = (Inr out, t')"
    and na: "\<not> aborted t'" and ok: "tables_ok (tables t)" and id: "m_id m \<noteq> uuid_nil"
  shows "apply_step e u dev m pv (tables t) out (tables t')"
proof -
  obtain stored t1 where ex: "run_state (exec (GetProcessedMutation u dev (m_id m))) t = (stored, t1)"
    by fastforce
  with run id obtain current where cur: "optional_row stored = Inr current"
    by (cases "optional_row stored") (auto simp: applyMutation_def)
  note look = processed_lookup [OF ex cur]
  show ?thesis
  proof (cases current)
    case (Some o')
    with run ex cur id have "out = o'" "t' = t1" by (auto simp: applyMutation_def)
    with Some look show ?thesis by (auto intro: apply_step.replay)
  next
    case None
    with run ex cur id obtain t2 x where disp: "run_state (dispatchMutation e u m pv) t1 = (Inr out, t2)"
      and saved: "run_state (exec (RecordProcessedMutation (db_now e) u dev (m_id m) out)) t2 = (Inr x, t')"
      by (auto simp: applyMutation_def split: prod.splits sum.splits)
    note rec = exec_Inr [OF saved]
    have step: "mutation_step e u m pv (tables t) out (tables t2)"
      using dispatchMutation_sim [OF disp] rec look ok by simp
    note frame = mutation_step_frame [OF step]
    have none: "row_at pm_key (u, dev, m_id m) (processed_mutations (tables t)) = None"
      using look None by simp
    have "RecordProcessedMutation (db_now e) u dev (m_id m) out (tables t2) = (Inr x, tables t')"
      using rec by simp
    from RecordProcessedMutation_Inr [OF this] frame none step
    show ?thesis by (auto simp: user_exists_def intro: apply_step.fresh)
  qed
qed


subsection \<open>The batch\<close>

lemma applyAll_sim:
  assumes "run_state (applyAll e u dev pv acc ms) t = (Inr om, t')"
    and "\<not> aborted t'" "tables_ok (tables t)" "uuid_nil \<notin> m_id ` set ms"
  shows "\<exists>outs. batch_steps e u dev pv ms (tables t) outs (tables t') \<and> om = acc(map m_id ms [\<mapsto>] outs)"
  using assms
proof (induction ms arbitrary: acc t)
  case Nil
  then show ?case by (auto intro: batch_steps.nil)
next
  case (Cons m ms)
  from Cons.prems(1) obtain out t1 where
    m: "run_state (applyMutation e u dev m pv) t = (Inr out, t1)" and
    rest: "run_state (applyAll e u dev pv (acc(m_id m \<mapsto> out)) ms) t1 = (Inr om, t')"
    by (auto split: prod.splits sum.splits)
  have na1: "\<not> aborted t1" using run_failing [OF failing_applyAll rest Cons.prems(2)] .
  have step: "apply_step e u dev m pv (tables t) out (tables t1)"
    using applyMutation_sim [OF m na1 Cons.prems(3)] Cons.prems(4) by auto
  have ok1: "tables_ok (tables t1)" using tables.apply_R [OF step] Cons.prems(3) by blast
  have "uuid_nil \<notin> m_id ` set ms" using Cons.prems(4) by simp
  from Cons.IH [OF rest Cons.prems(2) ok1 this] obtain outs where
    "batch_steps e u dev pv ms (tables t1) outs (tables t')" "om = acc(m_id m \<mapsto> out, map m_id ms [\<mapsto>] outs)"
    by blast
  with step show ?case by (auto intro!: exI [of _ "out # outs"] batch_steps.cons)
qed


lemma lock_Inr:
  assumes "run_state (AcquireAdvisoryLockByID key) t = (Inr x, t')"
  shows "\<not> aborted t \<and> \<not> aborted t' \<and> tables t' = tables t \<and> key \<in> set (held_locks t')"
proof -
  from assms obtain t1 where "run_state (exec (\<lambda>d. (Inr (), d))) t = (Inr (), t1)" "t' = t1\<lparr>held_locks := key # held_locks t1\<rparr>"
    by (auto simp: AcquireAdvisoryLockByID_def split: prod.splits sum.splits)
  with exec_Inr [OF this(1)] show ?thesis by auto
qed

text \<open>
  What a transaction of \<open>Sync\<close> that reaches \<open>Commit\<close> in a usable state has done: the device
  is registered, the sorted mutations are a batch of contract steps, and the page is cut from
  the changes the transaction itself sees.
\<close>

definition outcome_list :: "Mutation list \<Rightarrow> (uuid \<rightharpoonup> MutationOutcome) \<Rightarrow> MutationOutcome list" where
  "outcome_list ms om = map (\<lambda>m. case om (m_id m) of Some o' \<Rightarrow> o' | None \<Rightarrow> zero_outcome) ms"

lemma syncBody_sim:
  assumes run: "run_state (syncBody s e u req limit pv) t = (Commits r, t')"
    and na: "\<not> aborted t'" and ok: "tables_ok (tables t)"
    and ids: "uuid_nil \<notin> m_id ` set (rq_mutations req)"
  obtains d1 outs fetched page more next_cursor where
    "UpsertDevice (db_now e) (d_id (rq_device req)) u (d_name (rq_device req)) (d_platform (rq_device req)) (tables t)
       = (Inr (), d1)"
    "batch_steps e u (d_id (rq_device req)) pv (order_mutations (rq_mutations req)) d1 outs (tables t')"
    "ListChanges u (rq_cursor req) (int32 (limit + 1)) (tables t') = (Inr fetched, tables t')"
    "change_page s e limit (rq_cursor req) pv fetched = Some (page, more, next_cursor)"
    "r = Inr \<lparr> rs_outcomes = outcome_list (rq_mutations req)
               (Map.empty(map m_id (order_mutations (rq_mutations req)) [\<mapsto>] outs)),
             rs_changes = page, rs_next_cursor = next_cursor, rs_has_more = more \<rparr>"
proof -
  let ?dev = "d_id (rq_device req)" and ?ms = "order_mutations (rq_mutations req)"
  from run obtain x0 t0 where lock: "run_state (AcquireAdvisoryLockByID (advisoryLockKey [uuid_string e u, ''sync''])) t = (Inr x0, t0)"
    by (auto simp: syncBody_def split: prod.splits sum.splits)
  from run lock obtain x1 t1 where up: "run_state (exec (UpsertDevice (db_now e) ?dev u (d_name (rq_device req))
      (d_platform (rq_device req)))) t0 = (Inr x1, t1)"
    by (auto simp: syncBody_def split: prod.splits sum.splits)
  from run lock up obtain om t2 where app: "run_state (applyAll e u ?dev pv Map.empty ?ms) t1 = (Inr om, t2)"
    by (auto simp: syncBody_def split: prod.splits sum.splits)
  from run lock up app obtain fetched t3 where lst: "run_state (exec (ListChanges u (rq_cursor req) (int32 (limit + 1)))) t2
      = (Inr fetched, t3)"
    by (auto simp: syncBody_def split: prod.splits sum.splits)
  from run lock up app lst obtain page more next_cursor where
    pg: "change_page s e limit (rq_cursor req) pv fetched = Some (page, more, next_cursor)" "t' = t3"
      "r = Inr \<lparr> rs_outcomes = outcome_list (rq_mutations req) om,
             rs_changes = page, rs_next_cursor = next_cursor, rs_has_more = more \<rparr>"
    by (auto simp: syncBody_def outcome_list_def split: prod.splits sum.splits option.splits)
  note e0 = lock_Inr [OF lock] and e1 = exec_Inr [OF up] and e3 = exec_Inr [OF lst]
  have "tables_ok (tables t1)"
    using tables.R_device [of "tables t0" "db_now e" ?dev u "d_name (rq_device req)" "d_platform (rq_device req)"] e0 e1 ok
    by simp
  moreover have "uuid_nil \<notin> m_id ` set ?ms" using ids by (simp add: order_mutations_def)
  ultimately obtain outs where outs: "batch_steps e u ?dev pv ?ms (tables t1) outs (tables t2)"
      "om = Map.empty(map m_id ?ms [\<mapsto>] outs)"
    using applyAll_sim [OF app] e3 by blast
  have "tables t3 = tables t2" using e3 by (auto simp: ListChanges_def split: if_splits)
  with that [of "tables t1" outs fetched page more next_cursor] outs pg e0 e1 e3 show thesis by simp
qed



subsection \<open>A call of \<open>Sync\<close>\<close>

lemma checkMutationIDs_None:
  assumes "checkMutationIDs seen ms = None"
  shows "uuid_nil \<notin> m_id ` set ms \<and> distinct (map m_id ms) \<and> m_id ` set ms \<inter> seen = {}"
  using assms by (induction seen ms rule: checkMutationIDs.induct) (auto split: if_splits)

lemma validateRequest_None:
  assumes "validateRequest s req = None"
  shows "0 \<le> rq_cursor req" "d_id (rq_device req) \<noteq> uuid_nil"
    "int (length (rq_mutations req)) \<le> maxMutations s"
    "uuid_nil \<notin> m_id ` set (rq_mutations req)" "distinct (map m_id (rq_mutations req))"
  using assms checkMutationIDs_None [of "{}" "rq_mutations req"]
  by (auto simp: validateRequest_def split: if_splits)

text \<open>How a transaction can leave the committed database.\<close>

lemma in_tx_cases [consumes 2, case_names rolled_back committed]:
  assumes "run_state (in_tx body) w = (r, w')"
    and draws: "state_io_rel (\<lambda>t t'. change_seq (tables t) \<le> change_seq (tables t')) body"
  obtains (rolled_back) n where "change_seq (committed w) \<le> n" "committed w' = (committed w)\<lparr>change_seq := n\<rparr>"
      "\<exists>err. r = Inl err"
  | (committed) t t' r' where "tables t = committed w" "\<not> aborted t" "run_state body t = (Commits r', t')"
      "\<not> aborted t'" "committed w' = tables t'" "r = r' \<or> r = Inl (PgError ConnectionFailure)"
proof (cases "next_fault (faults w) = Delivered")
  case False
  with assms(1) rolled_back [of "change_seq (committed w)"] show thesis by (auto simp: in_tx_def)
next
  case True
  define t where "t = \<lparr> tables = committed w, aborted = False, tx_faults = tl (faults w), held_locks = [] \<rparr>"
  obtain fin t' where run: "run_state body t = (fin, t')" by fastforce
  have seq: "change_seq (committed w) \<le> change_seq (tables t')"
    using state_io_relD [OF draws run] by (simp add: t_def)
  show thesis
  proof (cases "\<exists>r'. fin = Commits r' \<and> \<not> aborted t' \<and> next_fault (tx_faults t') \<noteq> Lost")
    case False
    with assms(1) True run seq rolled_back [of "change_seq (tables t')"] show thesis
      by (auto simp: in_tx_def rollback_def Let_def t_def split: tx_end.splits if_splits)
  next
    case ok: True
    with assms(1) True run committed [of t _ t'] show thesis
      by (auto simp: in_tx_def Let_def t_def split: if_splits)
  qed
qed

sublocale store_preorder \<subseteq> service: transition_preorder
  "\<lambda>w w'. tables_ok (committed w) \<longrightarrow> tables_ok (committed w') \<and> R (committed w) (committed w')"
  by unfold_locales (auto intro: R_refl R_trans)

context store_preorder
begin

lemma service_pool:
  assumes "\<And>d. R d (snd (st d))" "\<And>d. tables_ok d \<Longrightarrow> tables_ok (snd (st d))"
  shows "state_io_rel (\<lambda>w w'. tables_ok (committed w) \<longrightarrow> tables_ok (committed w') \<and> R (committed w) (committed w'))
    (exec_pool st)"
  using assms R_refl by (auto simp: state_io_rel_def exec_pool_def Let_def split: fault.splits)

lemma service_read:
  assumes "\<And>d. snd (st d) = d"
  shows "state_io_rel (\<lambda>w w'. tables_ok (committed w) \<longrightarrow> tables_ok (committed w') \<and> R (committed w) (committed w'))
    (exec_pool st)"
  using assms R_refl by (intro service_pool) auto

lemma service_syncBody:
  assumes "uuid_nil \<notin> m_id ` set (rq_mutations req)"
  shows "state_io_rel (\<lambda>w w'. tables_ok (committed w) \<longrightarrow> tables_ok (committed w') \<and> R (committed w) (committed w'))
    (in_tx (syncBody s e u req limit pv))"
proof -
  have "tables_ok (committed w') \<and> R (committed w) (committed w')"
    if ok: "tables_ok (committed w)" and run: "run_state (in_tx (syncBody s e u req limit pv)) w = (r, w')" for w w' r
    using run drawing_syncBody
  proof (cases rule: in_tx_cases)
    case (rolled_back n)
    then show ?thesis using R_seq [OF rolled_back(1)] tables.R_seq [OF rolled_back(1)] ok by simp
  next
    case (committed t t' r')
    obtain d1 outs where up: "UpsertDevice (db_now e) (d_id (rq_device req)) u (d_name (rq_device req))
        (d_platform (rq_device req)) (tables t) = (Inr (), d1)"
      and b: "batch_steps e u (d_id (rq_device req)) pv (order_mutations (rq_mutations req)) d1 outs (tables t')"
      using committed ok assms by (auto elim!: syncBody_sim)
    have "R (tables t) d1" "tables_ok (tables t) \<longrightarrow> tables_ok d1"
      using R_device [of "tables t"] tables.R_device [of "tables t"] up by (metis snd_conv)+
    with batch_R [OF b] tables.batch_R [OF b] committed ok show ?thesis by (auto intro: R_trans)
  qed
  then show ?thesis by (intro state_io_relI) blast
qed

lemma service_Sync:
  "state_io_rel (\<lambda>w w'. tables_ok (committed w) \<longrightarrow> tables_ok (committed w') \<and> R (committed w) (committed w'))
    (Sync s e u req pv)"
proof (cases "validateRequest s req")
  case (Some err)
  then show ?thesis by (simp add: Sync_def service.io_return)
next
  case None
  note ack = service_pool [OF R_ack tables.R_ack [THEN mp]]
    and dev = service_pool [OF R_device tables.R_device [THEN mp]]
    and tx = service_syncBody [OF validateRequest_None(4) [OF None]]
  have "snd (ListChanges u c l d) = d" "snd (MinValidCursorForUser u now d) = d" for c l d now
    by (simp_all add: ListChanges_def MinValidCursorForUser_def Let_def)
  note reads = service_read [OF this(1)] service_read [OF this(2)]
  show ?thesis
    unfolding Sync_def None checkCursorNotExpired_def pullOnly_def Let_def option.case
    by (auto intro!: service.io_bind service.io_sum service.io_return service.io_if service.io_option
        ack dev tx reads split: option.splits prod.splits)
qed

end

end
