(* ===== verification/Sync_Calls.thy ===== *)
theory Sync_Calls
  imports Sync_Batch
begin

text \<open>
  The correctness of \<open>Sync\<close> on the level of a call: what the response says, what the call
  changes, what a retry does.
\<close>

subsection \<open>Outcomes\<close>

lemma apply_step_id:
  assumes "apply_step e u dev m pv d out d'" "tables_ok d"
  shows "mo_mutation_id out = m_id m"
  using assms(1)
proof (cases rule: apply_step.cases)
  case (replay r)
  with row_at_Some [OF replay(3)] assms(2) show ?thesis
    by (auto simp: tables_ok_def outcomes_ok_def pm_key_def)
next
  case fresh
  then show ?thesis by (simp add: mutation_step_id)
qed

lemma batch_steps_ids:
  assumes "batch_steps e u dev pv ms d outs d'" "tables_ok d"
  shows "map mo_mutation_id outs = map m_id ms"
  using assms
proof (induction rule: batch_steps.induct)
  case (cons m d out d1 ms outs d')
  with tables.apply_R [OF cons.hyps(1)] apply_step_id [OF cons.hyps(1)] show ?case by simp
qed simp

lemma lookup_by_id:
  assumes "map f vs = ks" "k \<in> set ks"
  shows "\<exists>v. (Map.empty(ks [\<mapsto>] vs)) k = Some v \<and> v \<in> set vs \<and> f v = k"
proof -
  have len: "length vs = length ks" using assms(1) by (metis length_map)
  from assms(2) obtain j where "j < length ks" "k = ks ! j" by (auto simp: in_set_conv_nth)
  then have "(k, vs ! j) \<in> set (rev (zip ks vs))" using len by (auto simp: set_zip)
  then obtain v where v: "map_of (rev (zip ks vs)) k = Some v" using weak_map_of_SomeI by fastforce
  then have "(k, v) \<in> set (zip ks vs)" by (metis map_of_SomeD set_rev)
  then obtain i where "i < length ks" "k = ks ! i" "v = vs ! i" by (auto simp: set_zip)
  with assms(1) len v show ?thesis by (auto simp: map_upds_def)
qed

lemma outcome_list_ids:
  assumes "map mo_mutation_id outs = map m_id sorted_ms" "set ms \<subseteq> set sorted_ms"
  shows "map mo_mutation_id (outcome_list ms (Map.empty(map m_id sorted_ms [\<mapsto>] outs))) = map m_id ms"
    "set (outcome_list ms (Map.empty(map m_id sorted_ms [\<mapsto>] outs))) \<subseteq> set outs"
proof -
  have "\<exists>v. (Map.empty(map m_id sorted_ms [\<mapsto>] outs)) (m_id m) = Some v \<and> v \<in> set outs \<and> mo_mutation_id v = m_id m"
    if "m \<in> set ms" for m
    using lookup_by_id [OF assms(1), of "m_id m"] that assms(2) by auto
  then show "map mo_mutation_id (outcome_list ms (Map.empty(map m_id sorted_ms [\<mapsto>] outs))) = map m_id ms"
    "set (outcome_list ms (Map.empty(map m_id sorted_ms [\<mapsto>] outs))) \<subseteq> set outs"
    by (force simp: outcome_list_def)+
qed

lemma set_order_mutations [simp]: "set (order_mutations ms) = set ms"
  by (simp add: order_mutations_def)

subsection \<open>The result of a call\<close>

lemma checkCursor_committed:
  assumes "run_state (checkCursorNotExpired s e u cursor) w = (r, w')"
  shows "committed w' = committed w"
proof -
  have "committed w1 = committed w" if "run_state (exec_pool (MinValidCursorForUser u now)) w = (x, w1)" for now x w1
    using that by (auto simp: exec_pool_def Let_def MinValidCursorForUser_def split: fault.splits)
  with assms show ?thesis
    by (auto simp: checkCursorNotExpired_def split: prod.splits sum.splits if_splits)
qed

lemma ack_committed:
  assumes "run_state (exec_pool (UpdateDeviceAckCursor u dev cursor)) w = (r, w')"
  shows "committed w' = committed w \<or> committed w' = snd (UpdateDeviceAckCursor u dev cursor (committed w))"
  using assms by (auto simp: exec_pool_def Let_def split: fault.splits)

text \<open>A call that answers a response to a batch has committed the batch.\<close>

lemma Sync_answer:
  assumes run: "run_state (Sync s e u req pv) w = (Inr resp, w')"
    and ms: "rq_mutations req \<noteq> []" and ok: "tables_ok (committed w)"
  obtains d1 outs d2 fetched where
    "validateRequest s req = None"
    "UpsertDevice (db_now e) (d_id (rq_device req)) u (d_name (rq_device req)) (d_platform (rq_device req)) (committed w)
       = (Inr (), d1)"
    "batch_steps e u (d_id (rq_device req)) pv (order_mutations (rq_mutations req)) d1 outs d2"
    "rs_outcomes resp = outcome_list (rq_mutations req) (Map.empty(map m_id (order_mutations (rq_mutations req)) [\<mapsto>] outs))"
    "ListChanges u (rq_cursor req) (int32 (effective_limit s (rq_limit req) + 1)) d2 = (Inr fetched, d2)"
    "change_page s e (effective_limit s (rq_limit req)) (rq_cursor req) pv fetched =
       Some (rs_changes resp, rs_has_more resp, rs_next_cursor resp)"
    "committed w' = d2 \<or> committed w' = snd (UpdateDeviceAckCursor u (d_id (rq_device req)) (rq_cursor req) d2)"
proof -
  let ?limit = "effective_limit s (rq_limit req)"
  from run have val: "validateRequest s req = None"
    by (cases "validateRequest s req") (auto simp: Sync_def)
  from run val ms obtain w1 w2 where cur: "run_state (checkCursorNotExpired s e u (rq_cursor req)) w = (Inr (), w1)"
    and tx: "run_state (in_tx (syncBody s e u req ?limit pv)) w1 = (Inr resp, w2)"
    and ack: "committed w' = committed w2 \<or>
      committed w' = snd (UpdateDeviceAckCursor u (d_id (rq_device req)) (rq_cursor req) (committed w2))"
    by (auto simp: Sync_def Let_def dest: ack_committed split: prod.splits sum.splits if_splits)
  have w1: "committed w1 = committed w" using checkCursor_committed [OF cur] .
  from tx drawing_syncBody show thesis
  proof (cases rule: in_tx_cases)
    case (committed t t' r')
    then have r': "run_state (syncBody s e u req ?limit pv) t = (Commits (Inr resp), t')" by auto
    show thesis
      by (rule syncBody_sim [OF r' committed(4) _ validateRequest_None(4) [OF val]])
        (use committed ok w1 ack val in \<open>auto intro!: that\<close>)
  qed auto
qed



subsection \<open>Retries\<close>

definition same_data :: "db \<Rightarrow> db \<Rightarrow> bool" where
  "same_data d d' \<longleftrightarrow> users d' = users d \<and> cube_sessions d' = cube_sessions d \<and> solves d' = solves d \<and>
     processed_mutations d' = processed_mutations d \<and> change_log d' = change_log d"

definition stored_outcome :: "uuid \<Rightarrow> uuid \<Rightarrow> Mutation \<Rightarrow> db \<Rightarrow> MutationOutcome option" where
  "stored_outcome u dev m d = map_option pm_outcome (row_at pm_key (u, dev, m_id m) (processed_mutations d))"

lemma same_data_refl [simp]: "same_data d d"
  by (simp add: same_data_def)

lemma same_data_trans: "same_data d d1 \<Longrightarrow> same_data d1 d2 \<Longrightarrow> same_data d d2"
  by (simp add: same_data_def)

lemma same_data_devices:
  "same_data d (snd (UpsertDevice now i u name platform d))" "same_data d (snd (UpdateDeviceAckCursor u i cursor d))"
  by (rule device_frame_R [where R = same_data]; simp add: same_data_def)+

lemma stored_outcome_step:
  assumes "apply_step e u dev m pv d out d'"
  shows "stored_outcome u dev m d' = Some out"
    "stored_outcome u dev m0 d = Some o0 \<Longrightarrow> stored_outcome u dev m0 d' = Some o0"
  using assms
  by (cases rule: apply_step.cases;
      auto simp: stored_outcome_def record_outcome_def row_at_append pm_key_def mutation_step_frame split: option.splits)+

lemma stored_outcome_batch:
  assumes "batch_steps e u dev pv ms d outs d'"
  shows "map (\<lambda>m. stored_outcome u dev m d') ms = map Some outs \<and>
    (\<forall>m0 o0. stored_outcome u dev m0 d = Some o0 \<longrightarrow> stored_outcome u dev m0 d' = Some o0)"
  using assms by (induction rule: batch_steps.induct) (auto dest: stored_outcome_step)

lemma replay_batch:
  assumes "batch_steps e u dev pv ms d outs d'" "map (\<lambda>m. stored_outcome u dev m d) ms = map Some outs0"
  shows "outs = outs0 \<and> d' = d"
  using assms
proof (induction arbitrary: outs0 rule: batch_steps.induct)
  case (cons m d out d1 ms outs d')
  then obtain out0 outs1 where o: "outs0 = out0 # outs1" "stored_outcome u dev m d = Some out0"
      "map (\<lambda>m. stored_outcome u dev m d) ms = map Some outs1"
    by (cases outs0) auto
  from cons.hyps(1) o(2) have "d1 = d" "out = out0"
    by (auto simp: stored_outcome_def elim: apply_step.cases)
  with cons.IH [of outs1] o show ?case by simp
qed simp

text \<open>One more call with the same device and mutations: nothing, or the batch once.\<close>

definition applied_once :: "env set \<Rightarrow> uuid \<Rightarrow> uuid \<Rightarrow> int \<Rightarrow> Mutation list \<Rightarrow> db \<Rightarrow> MutationOutcome list \<Rightarrow> db \<Rightarrow> bool" where
  "applied_once es u dev pv ms d outs d' \<longleftrightarrow>
     (\<exists>e\<in>es. \<exists>d1 d2. same_data d d1 \<and> batch_steps e u dev pv ms d1 outs d2 \<and> same_data d2 d')"

lemma applied_onceI:
  "batch_steps e u dev pv ms d1 outs d2 \<Longrightarrow> e \<in> es \<Longrightarrow> same_data d d1 \<Longrightarrow> same_data d2 d' \<Longrightarrow>
   applied_once es u dev pv ms d outs d'"
  unfolding applied_once_def by blast

lemma Sync_effect:
  assumes run: "run_state (Sync s e u req pv) w = (r, w')"
    and ms: "rq_mutations req \<noteq> []" and ok: "tables_ok (committed w)"
  shows "same_data (committed w) (committed w') \<and> (\<exists>err. r = Inl err) \<or>
    (\<exists>outs. applied_once {e} u (d_id (rq_device req)) pv (order_mutations (rq_mutations req)) (committed w) outs (committed w') \<and>
      (\<forall>err. r = Inl err \<longrightarrow> err = PgError ConnectionFailure) \<and>
      (\<forall>resp. r = Inr resp \<longrightarrow>
        rs_outcomes resp = outcome_list (rq_mutations req) (Map.empty(map m_id (order_mutations (rq_mutations req)) [\<mapsto>] outs))))"
proof (cases r)
  case (Inr resp)
  from run [unfolded Inr] ms ok show ?thesis
  proof (rule Sync_answer)
    fix d1 outs d2
    assume "UpsertDevice (db_now e) (d_id (rq_device req)) u (d_name (rq_device req)) (d_platform (rq_device req)) (committed w)
       = (Inr (), d1)" and b: "batch_steps e u (d_id (rq_device req)) pv (order_mutations (rq_mutations req)) d1 outs d2"
      and o: "rs_outcomes resp = outcome_list (rq_mutations req) (Map.empty(map m_id (order_mutations (rq_mutations req)) [\<mapsto>] outs))"
      and w': "committed w' = d2 \<or> committed w' = snd (UpdateDeviceAckCursor u (d_id (rq_device req)) (rq_cursor req) d2)"
    then have "same_data (committed w) d1" using same_data_devices(1) by (metis snd_conv)
    moreover have "same_data d2 (committed w')" using w' same_data_devices(2) by auto
    ultimately show ?thesis using b o Inr by (auto simp: applied_once_def)
  qed
next
  case (Inl err)
  let ?tx = "in_tx (syncBody s e u req (effective_limit s (rq_limit req)) pv)"
  show ?thesis
  proof (cases "\<exists>w1. validateRequest s req = None \<and> committed w1 = committed w \<and> run_state ?tx w1 = (Inl err, w')")
    case False
    obtain q w1 where cur: "run_state (checkCursorNotExpired s e u (rq_cursor req)) w = (q, w1)" by fastforce
    with False run Inl ms have "committed w' = committed w"
      using checkCursor_committed [OF cur]
      by (auto simp: Sync_def Let_def split: option.splits sum.splits prod.splits)
    with Inl show ?thesis by simp
  next
    case True
    then obtain w1 where val: "validateRequest s req = None" and w1: "committed w1 = committed w"
      and tx: "run_state ?tx w1 = (Inl err, w')" by blast
    from tx drawing_syncBody show ?thesis
    proof (cases rule: in_tx_cases)
      case (rolled_back n)
      with w1 Inl show ?thesis by (auto simp: same_data_def)
    next
      case (committed t t' r')
      then have "tables_ok (tables t)" using ok w1 by simp
      from syncBody_sim [OF committed(3,4) this validateRequest_None(4) [OF val]] obtain d1 outs resp where
        r': "r' = Inr resp" and up: "UpsertDevice (db_now e) (d_id (rq_device req)) u (d_name (rq_device req)) (d_platform (rq_device req)) (tables t) = (Inr (), d1)"
        and b: "batch_steps e u (d_id (rq_device req)) pv (order_mutations (rq_mutations req)) d1 outs (tables t')"
        by blast
      have "same_data (tables t) d1" using same_data_devices(1) up by (metis snd_conv)
      moreover have "err = PgError ConnectionFailure" using committed(6) r' by auto
      ultimately show ?thesis
        using applied_onceI [OF b, of "{e}" "committed w" "committed w'"] committed w1 Inl by auto
    qed
  qed
qed

text \<open>
  A client that got no answer sends the same mutations again, any number of times. An attempt
  is the environment of the call, its cursor and limit, and the faults that hit it.
\<close>

record attempt =
  at_service :: SyncService
  at_env :: env
  at_cursor :: int
  at_limit :: int
  at_faults :: "fault list"

definition attempt_call :: "uuid \<Rightarrow> Request \<Rightarrow> int \<Rightarrow> attempt \<Rightarrow> world \<Rightarrow> (error + Response) \<times> world" where
  "attempt_call u req pv a w = run_state (Sync (at_service a) (at_env a) u
     (req\<lparr>rq_cursor := at_cursor a, rq_limit := at_limit a\<rparr>) pv) (w\<lparr>faults := at_faults a\<rparr>)"

primrec attempts :: "uuid \<Rightarrow> Request \<Rightarrow> int \<Rightarrow> attempt list \<Rightarrow> world \<Rightarrow> world" where
  "attempts u req pv [] w = w"
| "attempts u req pv (a # as) w = attempts u req pv as (snd (attempt_call u req pv a w))"

lemma applied_once_again:
  assumes "applied_once es u dev pv ms d outs d1" "applied_once es' u dev pv ms d1 outs' d2"
  shows "outs' = outs \<and> applied_once es u dev pv ms d outs d2"
proof -
  from assms obtain e a b a' b' e' where
    "e \<in> es" "same_data d a" "batch_steps e u dev pv ms a outs b" "same_data b d1"
    "same_data d1 a'" "batch_steps e' u dev pv ms a' outs' b'" "same_data b' d2"
    by (auto simp: applied_once_def)
  moreover from this have "map (\<lambda>m. stored_outcome u dev m a') ms = map Some outs"
    using stored_outcome_batch by (fastforce simp: same_data_def stored_outcome_def)
  ultimately show ?thesis
    using replay_batch [of e' u dev pv ms a' outs' b' outs] applied_onceI [of e u dev pv ms a outs b es d d2]
    by (blast intro: same_data_trans)
qed

lemma attempt_call_ok:
  assumes "tables_ok (committed w)" "attempt_call u req pv a w = (r, w')"
  shows "tables_ok (committed w')"
  using tables.service_Sync assms by (fastforce simp: attempt_call_def dest: state_io_relD)

lemma applied_once_mono: "applied_once es u dev pv ms d outs d' \<Longrightarrow> es \<subseteq> es' \<Longrightarrow> applied_once es' u dev pv ms d outs d'"
  unfolding applied_once_def by blast

lemma applied_once_same:
  "same_data d d1 \<Longrightarrow> applied_once es u dev pv ms d1 outs d2 \<Longrightarrow> applied_once es u dev pv ms d outs d2"
  unfolding applied_once_def by (blast intro: same_data_trans)


lemma applied_once_then:
  "applied_once es u dev pv ms d outs d1 \<Longrightarrow> same_data d1 d2 \<Longrightarrow> applied_once es u dev pv ms d outs d2"
  unfolding applied_once_def by (blast intro: same_data_trans)

lemma attempt_call_effect:
  assumes "attempt_call u req pv a w = (r, w')" "rq_mutations req \<noteq> []" "tables_ok (committed w)"
  shows "same_data (committed w) (committed w') \<and> (\<exists>err. r = Inl err) \<or>
    (\<exists>outs. applied_once {at_env a} u (d_id (rq_device req)) pv (order_mutations (rq_mutations req))
         (committed w) outs (committed w') \<and>
      (\<forall>err. r = Inl err \<longrightarrow> err = PgError ConnectionFailure) \<and>
      (\<forall>resp. r = Inr resp \<longrightarrow>
        rs_outcomes resp = outcome_list (rq_mutations req) (Map.empty(map m_id (order_mutations (rq_mutations req)) [\<mapsto>] outs))))"
  using Sync_effect [of "at_service a" "at_env a" u "req\<lparr>rq_cursor := at_cursor a, rq_limit := at_limit a\<rparr>" pv
      "w\<lparr>faults := at_faults a\<rparr>" r w'] assms
  by (simp add: attempt_call_def)

lemma attempts_effect:
  assumes "rq_mutations req \<noteq> []" "tables_ok (committed w)"
  shows "tables_ok (committed (attempts u req pv as w)) \<and>
    (same_data (committed w) (committed (attempts u req pv as w)) \<or>
     (\<exists>outs. applied_once (at_env ` set as) u (d_id (rq_device req)) pv (order_mutations (rq_mutations req))
        (committed w) outs (committed (attempts u req pv as w))))"
  using assms
proof (induction as arbitrary: w)
  case (Cons a as)
  obtain r w1 where call: "attempt_call u req pv a w = (r, w1)" by fastforce
  let ?w' = "attempts u req pv as w1"
  let ?once = "\<lambda>es. applied_once es u (d_id (rq_device req)) pv (order_mutations (rq_mutations req))"
  note ok1 = attempt_call_ok [OF Cons.prems(2) call]
  note IH = Cons.IH [OF Cons.prems(1) ok1]
  have "same_data (committed w) (committed ?w') \<or>
      (\<exists>outs. ?once (at_env ` set (a # as)) (committed w) outs (committed ?w'))"
  proof (cases "same_data (committed w) (committed w1)")
    case True
    have sub: "at_env ` set as \<subseteq> at_env ` set (a # as)" by auto
    from IH consider "same_data (committed w1) (committed ?w')"
      | outs where "?once (at_env ` set as) (committed w1) outs (committed ?w')" by blast
    then show ?thesis
    proof cases
      case 1
      with same_data_trans [OF True] show ?thesis by blast
    next
      case (2 outs)
      from applied_once_mono [OF applied_once_same [OF True this] sub] show ?thesis by blast
    qed
  next
    case False
    with attempt_call_effect [OF call Cons.prems] obtain outs where
      once: "?once {at_env a} (committed w) outs (committed w1)" by blast
    from IH consider "same_data (committed w1) (committed ?w')"
      | outs' where "?once (at_env ` set as) (committed w1) outs' (committed ?w')" by blast
    then have "?once {at_env a} (committed w) outs (committed ?w')"
    proof cases
      case 1
      with once show ?thesis by (rule applied_once_then)
    next
      case 2
      from applied_once_again [OF once this] show ?thesis by blast
    qed
    from applied_once_mono [OF this, of "at_env ` set (a # as)"] show ?thesis by auto
  qed
  with IH call show ?case by simp
qed simp

lemma retry_lemma:
  assumes ok: "tables_ok (committed w)" and ms: "rq_mutations req \<noteq> []"
    and call: "attempt_call u req pv a (attempts u req pv as w) = (Inr resp, w')"
  shows "\<exists>outs. applied_once (at_env ` set (as @ [a])) u (d_id (rq_device req)) pv
      (order_mutations (rq_mutations req)) (committed w) outs (committed w') \<and>
    rs_outcomes resp = outcome_list (rq_mutations req)
      (Map.empty(map m_id (order_mutations (rq_mutations req)) [\<mapsto>] outs))"
proof -
  let ?once = "\<lambda>es. applied_once es u (d_id (rq_device req)) pv (order_mutations (rq_mutations req))"
  let ?w1 = "attempts u req pv as w"
  note eff = attempts_effect [OF ms ok, of u pv as]
  from attempt_call_effect [OF call ms] eff obtain outs where
    last: "?once {at_env a} (committed ?w1) outs (committed w')" and
    resp: "rs_outcomes resp = outcome_list (rq_mutations req)
      (Map.empty(map m_id (order_mutations (rq_mutations req)) [\<mapsto>] outs))" by auto
  have "\<exists>es \<subseteq> at_env ` set (as @ [a]). ?once es (committed w) outs (committed w')"
  proof (cases "same_data (committed w) (committed ?w1)")
    case True
    then show ?thesis using applied_once_same [OF _ last] by (intro exI [of _ "{at_env a}"]) auto
  next
    case False
    with eff obtain outs0 where "?once (at_env ` set as) (committed w) outs0 (committed ?w1)" by blast
    with applied_once_again [OF this last] show ?thesis by (intro exI [of _ "at_env ` set as"]) auto
  qed
  with resp applied_once_mono show ?thesis by metis
qed

end
