(* ===== verification/Sync_Complete.thy ===== *)
theory Sync_Complete
  imports Sync_Calls
begin

text \<open>
  The other direction of the refinement: when nothing fails, every step the contract allows is
  what the code does. The contract is deterministic, so \<open>applyMutation\<close> answers an outcome
  exactly when the contract has one.
\<close>

subsection \<open>Statements\<close>

lemma aborted_False [run_simps]: "\<not> aborted t \<Longrightarrow> t\<lparr>aborted := False\<rparr> = t"
  by (cases t) simp

lemma AppendChange_result:
  assumes "user_exists u d" "entity \<in> {''session'', ''solve''}" "operation \<in> {''upsert'', ''delete''}"
  shows "AppendChange now u entity i operation v doc d =
    (Inr (change_seq d + 1), append_log (log_entry now (u, i) entity operation v doc) d)"
  using assms by (simp add: AppendChange_def append_log_def log_entry_def Let_def)


subsection \<open>Sessions\<close>

lemma InsertSession_result:
  assumes "session_text_ok x" "validateSession e x i = []" "user_exists u d"
    "row_at cs_key (u, i) (cube_sessions d) = None"
  shows "InsertSession now u x d = (Inr (session_row now u 1 x),
    d\<lparr>cube_sessions := write_row cs_key (session_row now u 1 x) (cube_sessions d)\<rparr>)"
  using assms validateSession_ok [OF assms(2)] by (auto simp: InsertSession_def session_check_def write_row_def)

lemma UpdateSession_result:
  assumes k: "keys_distinct cs_key (cube_sessions d)"
    and cur: "row_at cs_key (u, i) (cube_sessions d) = Some cur" "cs_version cur = v"
    and x: "session_text_ok x" "validateSession e x i = []"
  shows "UpdateSession now u x v d = (Inr (session_row now u (v + 1) x),
    d\<lparr>cube_sessions := write_row cs_key (session_row now u (v + 1) x) (cube_sessions d)\<rparr>)"
proof -
  note ok = validateSession_ok [OF x(2)]
  have "session_check x" using ok(4) by (auto simp: session_check_def)
  with cur x(1) ok(1) show ?thesis
    by (simp add: UpdateSession_def Let_def find_guarded_key [OF k] update_where_guarded [OF k cur(1)] write_row_eq_update)
qed

lemma finishSession_result:
  assumes "tx_faults t = []" "\<not> aborted t" "user_exists (cs_user_id row) (tables t)" "session_json_ok row" "operation \<in> {''upsert'', ''delete''}"
  shows "run_state (finishSession e (cs_user_id row) m operation row) t = (Inr (accepted (m_id m) (cs_version row)),
    t\<lparr>tables := append_log (log_entry (db_now e) (cs_key row) ''session'' operation (cs_version row)
       (SessionDoc (sessionFromDB row))) (tables t)\<rparr>)"
  using assms
  by (simp add: finishSession_def appendSessionChange_def session_json_ok_def run_simps AppendChange_result cs_key_def)

lemma applySession_complete:
  assumes step: "session_step e u m pv (tables t) out d'"
    and env: "validateMutationEnvelope m = None"
    and k: "keys_distinct cs_key (cube_sessions (tables t))"
    and clean: "tx_faults t = []" "\<not> aborted t" and user: "user_exists u (tables t)"
  shows "run_state (applySession e u m pv) t = (Inr out, t\<lparr>tables := d'\<rparr>)"
proof -
  let ?cur = "row_at cs_key (u, m_entity_id m) (cube_sessions (tables t))"
  have run: "run_state (applySession e u m pv) t = run_state (if m_operation m = ''delete''
      then deleteSessionBranch e u m pv ?cur else upsertSessionBranch e u m pv ?cur) t"
    using env clean by (auto simp: applySession_def run_simps GetSessionForUpdate_def split: option.splits)
  note ops = envelope_None(4) [OF env]
  have fin: "run_state (finishSession e u m operation row) (t\<lparr>tables := d1\<rparr>) = (Inr (accepted (m_id m) (cs_version row)),
      t\<lparr>tables := append_log (log_entry (db_now e) (cs_key row) ''session'' operation (cs_version row)
       (SessionDoc (sessionFromDB row))) d1\<rparr>)"
    if "cs_user_id row = u" "session_json_ok row" "users d1 = users (tables t)" "operation \<in> {''upsert'', ''delete''}" for row d1 operation
    using finishSession_result [of "t\<lparr>tables := d1\<rparr>" row operation e m] that clean user by (simp add: user_exists_def)
  from step show ?thesis
  proof (cases rule: session_step.cases)
    case (delete cur)
    with run k clean fin [of "tombstone_session (db_now e) cur"] row_at_cs_key [OF delete(4)] show ?thesis
      by (simp add: deleteSessionBranch_def run_simps DeleteSession_result write_session_def)
  next
    case (create x)
    with run clean fin [of "session_row (db_now e) u 1 x"] show ?thesis
      by (simp add: upsertSessionBranch_def run_simps InsertSession_result [where e = e and i = "m_entity_id m"] write_session_def)
  next
    case (update x cur)
    with run k clean fin [of "session_row (db_now e) u (m_base_version m + 1) x"] show ?thesis
      by (simp add: upsertSessionBranch_def run_simps UpdateSession_result [where e = e and i = "m_entity_id m"] write_session_def)
  qed (use run ops in \<open>auto simp: deleteSessionBranch_def upsertSessionBranch_def\<close>)
qed


subsection \<open>Solves\<close>

lemma InsertSolve_result:
  assumes "solve_text_ok (with_timing_device x)" "validateSolve e x i = []" "user_exists u d" "session_ref_ok u (sv_session_id x) d"
    "row_at sf_key (u, i) (solves d) = None"
  shows "InsertSolve now u (with_timing_device x) d = (Inr (solve_row now u 1 (with_timing_device x)),
    d\<lparr>solves := write_row sf_key (solve_row now u 1 (with_timing_device x)) (solves d)\<rparr>)"
  using assms validateSolve_ok [OF assms(2)] by (auto simp: InsertSolve_def solve_check_def write_row_def)

lemma UpdateSolve_result:
  assumes k: "keys_distinct sf_key (solves d)"
    and cur: "row_at sf_key (u, i) (solves d) = Some cur" "sf_version cur = v"
    and x: "solve_text_ok (with_timing_device x)" "validateSolve e x i = []" "session_ref_ok u (sv_session_id x) d"
  shows "UpdateSolve now u (with_timing_device x) v d = (Inr (solve_row now u (v + 1) (with_timing_device x)),
    d\<lparr>solves := write_row sf_key (solve_row now u (v + 1) (with_timing_device x)) (solves d)\<rparr>)"
proof -
  note ok = validateSolve_ok [OF x(2)]
  have "solve_check (with_timing_device x)" using ok(2,4,8) by (auto simp: solve_check_def)
  with cur x(1,3) ok(1) show ?thesis
    by (simp add: UpdateSolve_def Let_def find_guarded_key [OF k] update_where_guarded [OF k cur(1)] write_row_eq_update)
qed

lemma finishSolve_result:
  assumes "tx_faults t = []" "\<not> aborted t" "user_exists (sf_user_id row) (tables t)" "solve_json_ok row" "operation \<in> {''upsert'', ''delete''}"
  shows "run_state (finishSolve e (sf_user_id row) m operation row) t = (Inr (accepted (m_id m) (sf_version row)),
    t\<lparr>tables := append_log (log_entry (db_now e) (sf_key row) ''solve'' operation (sf_version row)
       (SolveDoc (solveFromDB row))) (tables t)\<rparr>)"
  using assms
  by (simp add: finishSolve_def appendSolveChange_def solve_json_ok_def run_simps AppendChange_result sf_key_def)

lemma applySolve_complete:
  assumes step: "solve_step e u m pv (tables t) out d'"
    and env: "validateMutationEnvelope m = None"
    and k: "keys_distinct sf_key (solves (tables t))"
    and clean: "tx_faults t = []" "\<not> aborted t" and user: "user_exists u (tables t)"
  shows "run_state (applySolve e u m pv) t = (Inr out, t\<lparr>tables := d'\<rparr>)"
proof -
  let ?cur = "row_at sf_key (u, m_entity_id m) (solves (tables t))"
  have run: "run_state (applySolve e u m pv) t = run_state (if m_operation m = ''delete''
      then deleteSolveBranch e u m pv ?cur else upsertSolveBranch e u m pv ?cur) t"
    using env clean by (auto simp: applySolve_def run_simps GetSolveForUpdate_def split: option.splits)
  note ops = envelope_None(4) [OF env]
  have fin: "run_state (finishSolve e u m operation row) (t\<lparr>tables := d1\<rparr>) = (Inr (accepted (m_id m) (sf_version row)),
      t\<lparr>tables := append_log (log_entry (db_now e) (sf_key row) ''solve'' operation (sf_version row)
       (SolveDoc (solveFromDB row))) d1\<rparr>)"
    if "sf_user_id row = u" "solve_json_ok row" "users d1 = users (tables t)" "operation \<in> {''upsert'', ''delete''}" for row d1 operation
    using finishSolve_result [of "t\<lparr>tables := d1\<rparr>" row operation e m] that clean user by (simp add: user_exists_def)
  from step show ?thesis
  proof (cases rule: solve_step.cases)
    case (delete cur)
    with run k clean fin [of "tombstone_solve (db_now e) cur"] row_at_sf_key [OF delete(4)] show ?thesis
      by (simp add: deleteSolveBranch_def run_simps DeleteSolve_result write_solve_def)
  next
    case (create x)
    with run clean fin [of "solve_row (db_now e) u 1 (with_timing_device x)"] show ?thesis
      by (simp add: upsertSolveBranch_def with_timing_device_def [symmetric] solveUpsertResult_def run_simps InsertSolve_result [where e = e and i = "m_entity_id m"] write_solve_def)
  next
    case (update x cur)
    with run k clean fin [of "solve_row (db_now e) u (m_base_version m + 1) (with_timing_device x)"] show ?thesis
      by (simp add: upsertSolveBranch_def with_timing_device_def [symmetric] solveUpsertResult_def run_simps UpdateSolve_result [where e = e and i = "m_entity_id m"] write_solve_def)
  qed (use run ops in \<open>auto simp: deleteSolveBranch_def upsertSolveBranch_def\<close>)
qed



subsection \<open>Mutations and batches\<close>

lemma dispatchMutation_complete:
  assumes step: "mutation_step e u m pv (tables t) out d'"
    and ok: "tables_ok (tables t)"
    and clean: "tx_faults t = []" "\<not> aborted t" and user: "user_exists u (tables t)"
  shows "run_state (dispatchMutation e u m pv) t = (Inr out, t\<lparr>tables := d'\<rparr>)"
proof -
  have k: "keys_distinct cs_key (cube_sessions (tables t))" "keys_distinct sf_key (solves (tables t))"
    using ok by (simp_all add: tables_ok_def)
  from step show ?thesis
  proof (cases rule: mutation_step.cases)
    case session
    with applySession_complete [OF session(3,2) k(1) clean user] show ?thesis
      by (simp add: dispatchMutation_def)
  next
    case solve
    with applySolve_complete [OF solve(3,2) k(2) clean user] show ?thesis
      by (simp add: dispatchMutation_def)
  qed (auto simp: dispatchMutation_def applySession_def applySolve_def)
qed

lemma applyMutation_complete:
  assumes step: "apply_step e u dev m pv (tables t) out d'"
    and id: "m_id m \<noteq> uuid_nil" and ok: "tables_ok (tables t)"
    and clean: "tx_faults t = []" "\<not> aborted t"
  shows "run_state (applyMutation e u dev m pv) t = (Inr out, t\<lparr>tables := d'\<rparr>)"
  using step
proof (cases rule: apply_step.cases)
  case (replay r)
  with id clean show ?thesis by (simp add: applyMutation_def run_simps GetProcessedMutation_def)
next
  case (fresh d1)
  note frame = mutation_step_frame [OF fresh(3)]
  from fresh frame have "RecordProcessedMutation (db_now e) u dev (m_id m) out d1 =
      (Inr (), record_outcome (db_now e) u dev (m_id m) out d1)"
    by (simp add: RecordProcessedMutation_def record_outcome_def user_exists_def)
  with dispatchMutation_complete [OF fresh(3) ok clean fresh(4)] fresh id clean show ?thesis
    by (simp add: applyMutation_def run_simps GetProcessedMutation_def)
qed

lemma applyAll_complete:
  assumes "batch_steps e u dev pv ms d outs d'" "tables_ok d" "uuid_nil \<notin> m_id ` set ms"
    "tx_faults t = []" "\<not> aborted t" "tables t = d"
  shows "run_state (applyAll e u dev pv acc ms) t = (Inr (acc(map m_id ms [\<mapsto>] outs)), t\<lparr>tables := d'\<rparr>)"
  using assms
proof (induction arbitrary: acc t rule: batch_steps.induct)
  case (cons m d out d1 ms outs d')
  note ok1 = tables.apply_R [OF cons.hyps(1), THEN mp, OF cons.prems(1)]
  have "run_state (applyMutation e u dev m pv) t = (Inr out, t\<lparr>tables := d1\<rparr>)"
    using applyMutation_complete [of e u dev m pv t out d1] cons by auto
  moreover have "run_state (applyAll e u dev pv (acc(m_id m \<mapsto> out)) ms) (t\<lparr>tables := d1\<rparr>) =
      (Inr (acc(m_id m \<mapsto> out, map m_id ms [\<mapsto>] outs)), t\<lparr>tables := d1, tables := d'\<rparr>)"
    using cons.prems ok1 by (intro cons.IH) simp_all
  ultimately show ?case by simp
qed auto

text \<open>When the contract has a step for a mutation.\<close>

definition storable :: "env \<Rightarrow> uuid \<Rightarrow> Mutation \<Rightarrow> db \<Rightarrow> bool" where
  "storable e u m d \<longleftrightarrow>
     (m_entity m = ''session'' \<longrightarrow>
       (case unmarshalSession e (m_data m) of None \<Rightarrow> True
        | Some x \<Rightarrow> session_text_ok x \<and> session_json_ok (session_row (db_now e) u 1 x))) \<and>
     (m_entity m = ''solve'' \<longrightarrow>
       (case unmarshalSolve e (m_data m) of None \<Rightarrow> True
        | Some x \<Rightarrow> solve_text_ok (with_timing_device x) \<and> session_ref_ok u (sv_session_id x) d \<and>
            solve_json_ok (solve_row (db_now e) u 1 (with_timing_device x))))"

lemma row_json_ok:
  "session_json_ok (session_row now u v x) = session_json_ok (session_row now u 1 x)"
  "solve_json_ok (solve_row now u v y) = solve_json_ok (solve_row now u 1 y)" if "NO_MATCH 1 v"
  by (simp_all add: session_json_ok_def solve_json_ok_def document_json_ok_def sessionFromDB_def solveFromDB_def
      session_row_def solve_row_def)

lemma tombstone_json_ok:
  "json_time_ok now \<Longrightarrow> session_json_ok r \<Longrightarrow> session_json_ok (tombstone_session now r)"
  "json_time_ok now \<Longrightarrow> solve_json_ok q \<Longrightarrow> solve_json_ok (tombstone_solve now q)"
  by (simp_all add: session_json_ok_def solve_json_ok_def document_json_ok_def sessionFromDB_def solveFromDB_def
      tombstone_session_def tombstone_solve_def json_times_ok_def)

lemma session_step_total:
  assumes ops: "m_operation m = ''upsert'' \<or> m_operation m = ''delete''" and user: "user_exists u d"
    and storable: "case unmarshalSession e (m_data m) of None \<Rightarrow> True | Some x \<Rightarrow> session_text_ok x \<and> session_json_ok (session_row (db_now e) u 1 x)"
    and rows: "rows_ok e d" and now: "json_time_ok (db_now e)"
  shows "\<exists>out d'. session_step e u m pv d out d'"
proof (cases "m_operation m = ''delete''")
  case True
  consider "row_at cs_key (u, m_entity_id m) (cube_sessions d) = None"
    | cur where "row_at cs_key (u, m_entity_id m) (cube_sessions d) = Some cur" "cs_version cur = m_base_version m"
    | cur where "row_at cs_key (u, m_entity_id m) (cube_sessions d) = Some cur" "cs_version cur \<noteq> m_base_version m"
    by fastforce
  then show ?thesis
  proof cases
    case (2 cur)
    with rows now have "session_json_ok (tombstone_session (db_now e) cur)"
      by (auto simp: rows_ok_def session_ok_def tombstone_json_ok dest!: row_at_Some)
    with 2 True show ?thesis by (blast intro: session_step.intros)
  qed (use True in \<open>blast intro: session_step.intros\<close>)+
next
  case False
  with ops have up: "m_operation m = ''upsert''" by blast
  show ?thesis
  proof (cases "\<exists>x. unmarshalSession e (m_data m) = Some x \<and> validateSession e x (m_entity_id m) = []")
    case False
    with up show ?thesis
      by (cases "unmarshalSession e (m_data m)") (blast intro: session_step.bad_json session_step.invalid)+
  next
    case True
    then obtain x where x: "unmarshalSession e (m_data m) = Some x" "validateSession e x (m_entity_id m) = []" by blast
    with storable have t: "session_text_ok x" and j: "session_json_ok (session_row (db_now e) u v x)" for v
      by (simp_all add: row_json_ok)
    show ?thesis
    proof (cases "row_at cs_key (u, m_entity_id m) (cube_sessions d)")
      case None
      then show ?thesis
        using session_step.create [OF up x t user None _ j] session_step.update_missing [OF up x None] by blast
    next
      case (Some cur)
      then show ?thesis
        using session_step.update [OF up x t Some _ j] session_step.conflict [OF Some] x by blast
    qed
  qed
qed

lemma solve_step_total:
  assumes ops: "m_operation m = ''upsert'' \<or> m_operation m = ''delete''" and user: "user_exists u d"
    and storable: "case unmarshalSolve e (m_data m) of None \<Rightarrow> True | Some x \<Rightarrow> solve_text_ok (with_timing_device x) \<and> session_ref_ok u (sv_session_id x) d \<and>
      solve_json_ok (solve_row (db_now e) u 1 (with_timing_device x))"
    and rows: "rows_ok e d" and now: "json_time_ok (db_now e)"
  shows "\<exists>out d'. solve_step e u m pv d out d'"
proof (cases "m_operation m = ''delete''")
  case True
  consider "row_at sf_key (u, m_entity_id m) (solves d) = None"
    | cur where "row_at sf_key (u, m_entity_id m) (solves d) = Some cur" "sf_version cur = m_base_version m"
    | cur where "row_at sf_key (u, m_entity_id m) (solves d) = Some cur" "sf_version cur \<noteq> m_base_version m"
    by fastforce
  then show ?thesis
  proof cases
    case (2 cur)
    with rows now have "solve_json_ok (tombstone_solve (db_now e) cur)"
      by (auto simp: rows_ok_def solve_ok_def tombstone_json_ok dest!: row_at_Some)
    with 2 True show ?thesis by (blast intro: solve_step.intros)
  qed (use True in \<open>blast intro: solve_step.intros\<close>)+
next
  case False
  with ops have up: "m_operation m = ''upsert''" by blast
  show ?thesis
  proof (cases "\<exists>x. unmarshalSolve e (m_data m) = Some x \<and> validateSolve e x (m_entity_id m) = []")
    case False
    with up show ?thesis
      by (cases "unmarshalSolve e (m_data m)") (blast intro: solve_step.bad_json solve_step.invalid)+
  next
    case True
    then obtain x where x: "unmarshalSolve e (m_data m) = Some x" "validateSolve e x (m_entity_id m) = []" by blast
    with storable have t: "solve_text_ok (with_timing_device x)" and ref: "session_ref_ok u (sv_session_id x) d"
      and j: "solve_json_ok (solve_row (db_now e) u v (with_timing_device x))" for v
      by (simp_all add: row_json_ok)
    show ?thesis
    proof (cases "row_at sf_key (u, m_entity_id m) (solves d)")
      case None
      then show ?thesis
        using solve_step.create [OF up x t user ref None _ j] solve_step.update_missing [OF up x None] by blast
    next
      case (Some cur)
      then show ?thesis
        using solve_step.update [OF up x t ref Some _ j] solve_step.conflict [OF Some] x by blast
    qed
  qed
qed

lemma mutation_step_total:
  assumes "user_exists u d" "storable e u m d" "rows_ok e d" "json_time_ok (db_now e)"
  shows "\<exists>out d'. mutation_step e u m pv d out d'"
proof (cases "m_entity m \<in> {''session'', ''solve''} \<and> validateMutationEnvelope m = None")
  case True
  then show ?thesis
    using assms session_step_total [OF envelope_None(4), of m u d e pv] solve_step_total [OF envelope_None(4), of m u d e pv]
    by (auto simp: storable_def dest: mutation_step.session mutation_step.solve)
next
  case False
  then consider "m_entity m \<notin> {''session'', ''solve''}"
    | out where "m_entity m \<in> {''session'', ''solve''}" "validateMutationEnvelope m = Some out"
    by fastforce
  then show ?thesis by cases (blast intro: mutation_step.envelope mutation_step.unknown_entity)+
qed

lemma apply_step_total:
  assumes "user_exists u d" "row_at dv_key (u, dev) (devices d) \<noteq> None" "storable e u m d"
    "rows_ok e d" "json_time_ok (db_now e)"
  shows "\<exists>out d'. apply_step e u dev m pv d out d'"
proof (cases "row_at pm_key (u, dev, m_id m) (processed_mutations d)")
  case None
  with mutation_step_total [OF assms(1,3-5)] assms(1,2) show ?thesis by (blast intro: apply_step.fresh)
next
  case Some
  then show ?thesis by (blast intro: apply_step.replay)
qed



subsection \<open>A call without failures\<close>

lemma run_lock_clean [run_simps]:
  "tx_faults t = [] \<Longrightarrow> \<not> aborted t \<Longrightarrow>
   run_state (AcquireAdvisoryLockByID key) t = (Inr (), t\<lparr>held_locks := key # held_locks t\<rparr>)"
  by (simp add: AcquireAdvisoryLockByID_def run_simps)

lemma change_page_total: "0 \<le> limit \<Longrightarrow> change_page s e limit cursor pv rows \<noteq> None"
  by (simp add: change_page_def cut_page_nonneg case_prod_beta Let_def)

lemma checkCursor_clean:
  "faults w = [] \<Longrightarrow> run_state (checkCursorNotExpired s e u cursor) w =
    (fst (run_state (checkCursorNotExpired s e u cursor) w), w)"
  by (auto simp: checkCursorNotExpired_def run_simps MinValidCursorForUser_def Let_def split: sum.splits)

lemma syncBody_complete:
  assumes clean: "tx_faults t = []" "\<not> aborted t" and ok: "tables_ok (tables t)"
    and ids: "uuid_nil \<notin> m_id ` set (rq_mutations req)"
    and up: "UpsertDevice (db_now e) (d_id (rq_device req)) u (d_name (rq_device req)) (d_platform (rq_device req)) (tables t)
      = (Inr (), d1)"
    and batch: "batch_steps e u (d_id (rq_device req)) pv (order_mutations (rq_mutations req)) d1 outs d2"
    and lim: "0 \<le> limit" "limit < 2 ^ 31 - 1"
  shows "\<exists>resp t'. run_state (syncBody s e u req limit pv) t = (Commits (Inr resp), t') \<and> tables t' = d2 \<and>
    tx_faults t' = [] \<and> \<not> aborted t' \<and>
    rs_outcomes resp = outcome_list (rq_mutations req) (Map.empty(map m_id (order_mutations (rq_mutations req)) [\<mapsto>] outs))"
proof -
  define t1 where "t1 = t\<lparr>held_locks := advisoryLockKey [uuid_string e u, ''sync''] # held_locks t, tables := d1\<rparr>"
  have "tables_ok d1"
    using tables.R_device [of "tables t" "db_now e" "d_id (rq_device req)" u "d_name (rq_device req)" "d_platform (rq_device req)"]
      up ok by simp
  then have all: "run_state (applyAll e u (d_id (rq_device req)) pv Map.empty (order_mutations (rq_mutations req))) t1 =
      (Inr (Map.empty(map m_id (order_mutations (rq_mutations req)) [\<mapsto>] outs)), t1\<lparr>tables := d2\<rparr>)"
    using applyAll_complete [OF batch, where t = t1] ids clean by (simp add: t1_def)
  have "int32 (limit + 1) = limit + 1" using lim by (intro int32_id) auto
  then obtain page more next_cursor where
    "change_page s e limit (rq_cursor req) pv (take (nat (limit + 1)) (changes_after u (rq_cursor req) d2)) = Some (page, more, next_cursor)"
    using change_page_total [OF lim(1)] by (metis option.exhaust prod_cases3)
  moreover have "tx_faults t1 = []" "\<not> aborted t1" using clean by (simp_all add: t1_def)
  ultimately show ?thesis
    using all up clean lim
    by (simp add: syncBody_def run_simps t1_def [symmetric] ListChanges_def int32_id outcome_list_def)
qed

lemma Sync_complete:
  assumes clean: "faults w = []" and val: "validateRequest s req = None" and ms: "rq_mutations req \<noteq> []"
    and ok: "tables_ok (committed w)"
    and cur: "fst (run_state (checkCursorNotExpired s e u (rq_cursor req)) w) = Inr ()"
    and up: "UpsertDevice (db_now e) (d_id (rq_device req)) u (d_name (rq_device req)) (d_platform (rq_device req)) (committed w)
      = (Inr (), d1)"
    and batch: "batch_steps e u (d_id (rq_device req)) pv (order_mutations (rq_mutations req)) d1 outs d2"
    and lim: "0 \<le> effective_limit s (rq_limit req)" "effective_limit s (rq_limit req) < 2 ^ 31 - 1"
  shows "\<exists>resp w'. run_state (Sync s e u req pv) w = (Inr resp, w') \<and> same_data d2 (committed w') \<and>
    rs_outcomes resp = outcome_list (rq_mutations req) (Map.empty(map m_id (order_mutations (rq_mutations req)) [\<mapsto>] outs))"
proof -
  let ?t = "\<lparr>tables = committed w, aborted = False, tx_faults = [], held_locks = []\<rparr>"
  obtain resp t' where "run_state (syncBody s e u req (effective_limit s (rq_limit req)) pv) ?t = (Commits (Inr resp), t')"
      "tables t' = d2" "tx_faults t' = []" "\<not> aborted t'"
      "rs_outcomes resp = outcome_list (rq_mutations req) (Map.empty(map m_id (order_mutations (rq_mutations req)) [\<mapsto>] outs))"
    using syncBody_complete [of ?t, OF _ _ _ validateRequest_None(4) [OF val] _ batch lim, of s] ok up by auto
  with val ms clean checkCursor_clean [OF clean, of s e u "rq_cursor req"] cur show ?thesis
    by (auto simp: Sync_def run_simps Let_def same_data_devices)
qed

end
