(* ===== verification/Paging.thy ===== *)
theory Paging
  imports Prelude
begin

text \<open>
  Reading a list page by page. A page is the next part of what is left at a position, says
  whether the client should ask again, and names the position to go on from. The locale
  \<open>paged_source\<close> states that contract for a source that may change its own state with each
  request (a device that is marked as seen, a cursor that is acknowledged); \<open>drain\<close> is the loop of
  a client that reads until it is told to stop. Its fuel bounds the number of pages; any fuel
  above the source's \<open>rank\<close> is enough, because every page but the last one lowers it.
\<close>

fun drain :: "('c \<Rightarrow> 's \<Rightarrow> ('x list \<times> bool \<times> 'c) option \<times> 's) \<Rightarrow> nat \<Rightarrow> 'c \<Rightarrow> 's \<Rightarrow> ('x list \<times> 's) option" where
  "drain page 0 c s = None"
| "drain page (Suc fuel) c s =
     (case page c s of
        (None, s') \<Rightarrow> None
      | (Some (xs, has_more, c'), s') \<Rightarrow>
          if has_more then map_option (\<lambda>(ys, s''). (xs @ ys, s'')) (drain page fuel c' s')
          else Some (xs, s'))"

locale paged_source =
  fixes ok :: "'c \<Rightarrow> 's \<Rightarrow> bool"
    and items :: "'c \<Rightarrow> 's \<Rightarrow> 'x list"
    and rank :: "'c \<Rightarrow> 's \<Rightarrow> nat"
    and page :: "'c \<Rightarrow> 's \<Rightarrow> ('x list \<times> bool \<times> 'c) option \<times> 's"
  assumes page_answers: "ok c s \<Longrightarrow> \<exists>xs has_more c' s'. page c s = (Some (xs, has_more, c'), s')"
    and page_last: "ok c s \<Longrightarrow> page c s = (Some (xs, False, c'), s') \<Longrightarrow> items c s = xs"
    and page_next: "ok c s \<Longrightarrow> page c s = (Some (xs, True, c'), s') \<Longrightarrow>
          ok c' s' \<and> items c s = xs @ items c' s'"
    and page_progress: "ok c s \<Longrightarrow> page c s = (Some (xs, True, c'), s') \<Longrightarrow> rank c' s' < rank c s"
begin

lemma drain_complete:
  "ok c s \<Longrightarrow> rank c s < fuel \<Longrightarrow> \<exists>s'. drain page fuel c s = Some (items c s, s')"
proof (induction fuel arbitrary: c s)
  case (Suc fuel)
  note ok = Suc.prems(1)
  obtain xs has_more c' s' where p: "page c s = (Some (xs, has_more, c'), s')" using page_answers [OF ok] by blast
  show ?case
  proof (cases has_more)
    case False
    with p page_last [OF ok] show ?thesis by simp
  next
    case True
    with p have again: "page c s = (Some (xs, HOL.True, c'), s')" by simp
    note nxt = page_next [OF ok again]
    have "rank c' s' < fuel" using page_progress [OF ok again] Suc.prems(2) by simp
    with Suc.IH [of c' s'] nxt obtain s'' where "drain page fuel c' s' = Some (items c' s', s'')" by blast
    with p True nxt show ?thesis by simp
  qed
qed simp

end

end
