(* ===== verification/Sync_Feed.thy ===== *)
theory Sync_Feed
  imports Sync_Complete Paging
begin

text \<open>
  The change feed: \<open>change_page\<close> cuts a page out of the changes after a cursor, by count and
  by bytes. It is a \<open>paged_source\<close> whose items are \<open>changes_after\<close>.
\<close>

definition change_bytes :: "(document \<Rightarrow> nat) \<Rightarrow> Change list \<Rightarrow> int" where
  "change_bytes len cs = sum_list (map (\<lambda>c. int (len (ch_data c)) + changeEnvelopeOverhead) cs)"

definition cursor_at :: "int \<Rightarrow> ChangeLog list \<Rightarrow> int" where
  "cursor_at c rows = (if rows = [] then c else cl_change_id (last rows))"

lemma buildChanges_eq: "buildChanges rows c pv = (map (buildChange pv) rows, cursor_at c rows)"
  by (induction rows c pv rule: buildChanges.induct) (auto simp: cursor_at_def)

lemma byteLimitLoop_spec:
  assumes "length rows = i + length cs"
  shows "\<exists>k \<le> length cs. byteLimitLoop len maxBytes rows i sum0 nc cs =
      ((if k < length cs then Some (i + k) else None), (if k = 0 then nc else cl_change_id (rows ! (i + k - 1)))) \<and>
    (k < length cs \<longrightarrow> 0 < i + k \<and> maxBytes < sum0 + change_bytes len (take (Suc k) cs)) \<and>
    (\<forall>j<k. 0 < i + j \<longrightarrow> sum0 + change_bytes len (take (Suc j) cs) \<le> maxBytes)"
  using assms
proof (induction cs arbitrary: i sum0 nc)
  case (Cons c cs)
  define sum' where "sum' = sum0 + (int (len (ch_data c)) + changeEnvelopeOverhead)"
  show ?case
  proof (cases "maxBytes < sum' \<and> 0 < i")
    case True
    then show ?thesis by (intro exI [of _ 0]) (auto simp: sum'_def change_bytes_def)
  next
    case False
    let ?nc = "cl_change_id (rows ! i)"
    from Cons.IH [of "Suc i" sum' ?nc] Cons.prems obtain k where k: "k \<le> length cs"
      "byteLimitLoop len maxBytes rows (Suc i) sum' ?nc cs =
        ((if k < length cs then Some (Suc i + k) else None), (if k = 0 then ?nc else cl_change_id (rows ! (Suc i + k - 1))))"
      "k < length cs \<longrightarrow> 0 < Suc i + k \<and> maxBytes < sum' + change_bytes len (take (Suc k) cs)"
      "\<forall>j<k. 0 < Suc i + j \<longrightarrow> sum' + change_bytes len (take (Suc j) cs) \<le> maxBytes"
      by auto
    have b: "sum0 + change_bytes len (take (Suc j) (c # cs)) = sum' + change_bytes len (take j cs)" for j
      by (simp add: sum'_def change_bytes_def)
    have fits: "sum0 + change_bytes len (take (Suc j) (c # cs)) \<le> maxBytes" if "j < Suc k" "0 < i + j" for j
      using k(4) that False b [of j] by (cases j) (auto simp: change_bytes_def)
    have "byteLimitLoop len maxBytes rows i sum0 nc (c # cs) = byteLimitLoop len maxBytes rows (Suc i) sum' ?nc cs"
      using False Cons.prems by (auto simp: sum'_def Let_def)
    with k(1-3) b fits show ?thesis by (intro exI [of _ "Suc k"]) auto
  qed
qed simp

text \<open>The page is the longest prefix that fits, but never less than one change.\<close>

lemma applyByteLimit_spec:
  assumes "length changes = length rows"
  shows "\<exists>n \<le> length rows. applyByteLimit len maxBytes changes rows c has_more =
      (take n changes, has_more \<or> n < length rows, cursor_at c (take n rows)) \<and>
    (rows \<noteq> [] \<longrightarrow> 0 < n) \<and> (1 < n \<longrightarrow> change_bytes len (take n changes) \<le> maxBytes) \<and>
    (n < length rows \<longrightarrow> maxBytes < change_bytes len (take (Suc n) changes))"
proof -
  from byteLimitLoop_spec [of rows 0 changes len maxBytes 0 c, unfolded add_0_left assms] assms obtain k where k: "k \<le> length rows"
    "byteLimitLoop len maxBytes rows 0 0 c changes =
      ((if k < length rows then Some k else None), (if k = 0 then c else cl_change_id (rows ! (k - 1))))"
    "k < length rows \<longrightarrow> 0 < k \<and> maxBytes < change_bytes len (take (Suc k) changes)"
    "\<forall>j<k. 0 < j \<longrightarrow> change_bytes len (take (Suc j) changes) \<le> maxBytes"
    by blast
  have "cursor_at c (take k rows) = (if k = 0 then c else cl_change_id (rows ! (k - 1)))"
    using k(1) by (cases rows) (auto simp: cursor_at_def last_conv_nth min_def)
  moreover have "change_bytes len (take k changes) \<le> maxBytes" if "1 < k"
    using k(4) [rule_format, of "k - 1"] that by simp
  ultimately show ?thesis
    using k assms by (intro exI [of _ k]) (auto simp: applyByteLimit_def)
qed


lemma change_page_spec:
  assumes "change_page s e limit c pv (take (nat (limit + 1)) all) = Some (page, has_more, nc)" "1 \<le> limit"
  obtains n where "n \<le> length all" "int n \<le> limit" "page = map (buildChange pv) (take n all)"
    "has_more \<longleftrightarrow> n < length all" "nc = cursor_at c (take n all)" "all \<noteq> [] \<Longrightarrow> 0 < n"
    "0 < maxResponseBytes s \<Longrightarrow> 1 < n \<Longrightarrow> change_bytes (doc_len e) page \<le> maxResponseBytes s"
proof -
  let ?rows = "take (nat limit) all"
  have cut: "cut_page limit (take (nat (limit + 1)) all) = Some (?rows, limit < int (length all))"
    using assms(2) by (auto simp: cut_page_nonneg min_def)
  have build: "buildChanges ?rows c pv = (map (buildChange pv) ?rows, cursor_at c ?rows)"
    by (rule buildChanges_eq)
  show thesis
  proof (cases "0 < maxResponseBytes s")
    case False
    with assms cut build have eqs: "page = map (buildChange pv) ?rows" "has_more \<longleftrightarrow> limit < int (length all)"
        "nc = cursor_at c ?rows"
      by (auto simp: change_page_def)
    show thesis
    proof (cases "limit < int (length all)")
      case True
      with eqs assms(2) False that [of "nat limit"] show thesis by auto
    next
      case le: False
      with eqs assms(2) False that [of "length all"] show thesis by auto
    qed
  next
    case True
    from applyByteLimit_spec [of "map (buildChange pv) ?rows" ?rows "doc_len e" "maxResponseBytes s" c "limit < int (length all)"]
    obtain n where n: "n \<le> length ?rows"
      "applyByteLimit (doc_len e) (maxResponseBytes s) (map (buildChange pv) ?rows) ?rows c (limit < int (length all)) =
        (take n (map (buildChange pv) ?rows), limit < int (length all) \<or> n < length ?rows, cursor_at c (take n ?rows))"
      "?rows \<noteq> [] \<longrightarrow> 0 < n" "1 < n \<longrightarrow> change_bytes (doc_len e) (take n (map (buildChange pv) ?rows)) \<le> maxResponseBytes s"
      by (simp only: length_map) blast
    have "take n ?rows = take n all" "take n (map (buildChange pv) ?rows) = map (buildChange pv) (take n all)"
      using n(1) by (simp_all add: take_map min_absorb1)
    moreover have "limit < int (length all) \<or> n < length ?rows \<longleftrightarrow> n < length all"
      using n(1) assms(2) by auto
    moreover have "all \<noteq> [] \<Longrightarrow> 0 < n" using n(3) assms(2) by auto
    ultimately show thesis
      using assms cut build True n(1,2,4) that [of n] by (auto simp: change_page_def)
  qed
qed


subsection \<open>The changes after a cursor\<close>

lemma changes_after_log:
  assumes "log_ok d"
  shows "changes_after u c d = filter (\<lambda>x. c < cl_change_id x) (user_log u d)"
proof -
  have "sorted (map cl_change_id (filter (\<lambda>x. cl_user_id x = u \<and> c < cl_change_id x) (change_log d)))"
    using assms by (intro sorted_filter) (auto simp: log_ok_def intro: strict_sorted_imp_sorted)
  then show ?thesis
    by (simp add: changes_after_def sort_key_id_if_sorted user_log_def filter_filter conj_commute)
qed

lemma sorted_changes_after:
  assumes "log_ok d"
  shows "sorted_wrt (<) (map cl_change_id (changes_after u c d))"
  using assms by (simp add: changes_after_log user_log_def log_ok_def sorted_wrt_map sorted_wrt_filter)

lemma filter_above_nth:
  fixes f :: "'a \<Rightarrow> 'b::linorder"
  assumes "sorted_wrt (<) (map f xs)" "0 < n" "n \<le> length xs"
  shows "filter (\<lambda>x. f (xs ! (n - 1)) < f x) xs = drop n xs"
proof -
  have srt: "f (xs ! i) < f (xs ! j)" if "i < j" "j < length xs" for i j
    using sorted_wrt_nth_less [OF assms(1)] that by simp
  have "filter (\<lambda>x. f (xs ! (n - 1)) < f x) (take n xs) = []"
  proof (clarsimp simp: filter_empty_conv in_set_conv_nth)
    fix i assume "i < n" "f (xs ! (n - Suc 0)) < f (xs ! i)" "i < length xs"
    moreover from this assms(2) have "i = n - 1 \<or> i < n - 1" by linarith
    moreover have "n - 1 < length xs" using assms(2,3) by linarith
    ultimately show False using srt [of i "n - 1"] assms(2,3) by auto
  qed
  moreover have "filter (\<lambda>x. f (xs ! (n - 1)) < f x) (drop n xs) = drop n xs"
    using srt assms(2,3) by (auto simp: filter_id_conv in_set_conv_nth)
  ultimately show ?thesis by (metis append_take_drop_id filter_append append_Nil)
qed

lemma changes_after_next:
  assumes "log_ok d" "n \<le> length (changes_after u c d)"
  shows "changes_after u (cursor_at c (take n (changes_after u c d))) d = drop n (changes_after u c d)"
proof (cases "n = 0")
  case True
  then show ?thesis by (simp add: cursor_at_def)
next
  case False
  let ?all = "changes_after u c d"
  have last: "last (take n ?all) = ?all ! (n - 1)"
    using False assms(2) by (subst last_conv_nth) (auto simp: min_def)
  have "?all ! (n - 1) \<in> set ?all" using False assms(2) by auto
  then have above: "c < cl_change_id (?all ! (n - 1))" using assms(1) by (simp add: changes_after_log)
  have "changes_after u (cl_change_id (?all ! (n - 1))) d = filter (\<lambda>x. cl_change_id (?all ! (n - 1)) < cl_change_id x) ?all"
    using above by (auto simp: changes_after_log [OF assms(1)] filter_filter intro!: filter_cong)
  with filter_above_nth [OF sorted_changes_after [OF assms(1)] _ assms(2)] last False assms(2) show ?thesis
    by (auto simp: cursor_at_def)
qed



subsection \<open>Pulling\<close>

definition pull_request :: "Request \<Rightarrow> int \<Rightarrow> Request" where
  "pull_request req c = req\<lparr>rq_cursor := c, rq_mutations := []\<rparr>"

definition pull_page ::
  "SyncService \<Rightarrow> env \<Rightarrow> uuid \<Rightarrow> Request \<Rightarrow> int \<Rightarrow> int \<Rightarrow> world \<Rightarrow> (Change list \<times> bool \<times> int) option \<times> world" where
  "pull_page s e u req pv c w =
     (case run_state (Sync s e u (pull_request req c) pv) w of
        (Inl _, w') \<Rightarrow> (None, w')
      | (Inr resp, w') \<Rightarrow> (Some (rs_changes resp, rs_has_more resp, rs_next_cursor resp), w'))"

definition pull_ok :: "SyncService \<Rightarrow> env \<Rightarrow> uuid \<Rightarrow> Request \<Rightarrow> int \<Rightarrow> world \<Rightarrow> bool" where
  "pull_ok s e u req c w \<longleftrightarrow>
     faults w = [] \<and> log_ok (committed w) \<and> user_exists u (committed w) \<and>
     0 \<le> c \<and> validateRequest s (pull_request req c) = None \<and>
     text_ok (d_name (rq_device req)) \<and> text_ok (d_platform (rq_device req)) \<and>
     1 \<le> effective_limit s (rq_limit req) \<and> effective_limit s (rq_limit req) < 2 ^ 31 - 1 \<and>
     go_now e - effectiveInactiveWindow (inactiveDeviceWindow s) < db_now e \<and>
     (case row_at dv_key (u, d_id (rq_device req)) (devices (committed w)) of
        None \<Rightarrow> True | Some r \<Rightarrow> dv_last_ack_cursor r \<le> c) \<and>
     fst (run_state (checkCursorNotExpired s e u c) w) = Inr ()"

definition pull_items :: "uuid \<Rightarrow> int \<Rightarrow> int \<Rightarrow> world \<Rightarrow> Change list" where
  "pull_items u pv c w = map (buildChange pv) (changes_after u c (committed w))"

definition touched :: "env \<Rightarrow> uuid \<Rightarrow> Device \<Rightarrow> int \<Rightarrow> db \<Rightarrow> db" where
  "touched e u dev c d =
     (let d1 = snd (UpsertDevice (db_now e) (d_id dev) u (d_name dev) (d_platform dev) d) in
      if 0 < c then snd (UpdateDeviceAckCursor u (d_id dev) c d1) else d1)"

lemma UpsertDevice_ok:
  "user_exists u d \<Longrightarrow> text_ok name \<Longrightarrow> text_ok platform \<Longrightarrow> fst (UpsertDevice now i u name platform d) = Inr ()"
  by (simp add: UpsertDevice_def)

lemma touched_frame:
  "cube_sessions (touched e u dev c d) = cube_sessions d" "solves (touched e u dev c d) = solves d"
  "change_log (touched e u dev c d) = change_log d" "users (touched e u dev c d) = users d"
  "change_seq (touched e u dev c d) = change_seq d"
  "processed_mutations (touched e u dev c d) = processed_mutations d"
  by (simp_all add: touched_def UpsertDevice_def UpdateDeviceAckCursor_def Let_def)

lemma changes_after_cong: "change_log d' = change_log d \<Longrightarrow> changes_after u c d' = changes_after u c d"
  by (simp add: changes_after_def)

lemma pull_run:
  assumes ok: "pull_ok s e u req c w"
  obtains n where "n \<le> length (changes_after u c (committed w))"
    "int n \<le> effective_limit s (rq_limit req)"
    "pull_page s e u req pv c w = (Some (map (buildChange pv) (take n (changes_after u c (committed w))),
        n < length (changes_after u c (committed w)), cursor_at c (take n (changes_after u c (committed w)))),
      w\<lparr>committed := touched e u (rq_device req) c (committed w)\<rparr>)"
    "changes_after u c (committed w) \<noteq> [] \<Longrightarrow> 0 < n"
proof -
  let ?limit = "effective_limit s (rq_limit req)" and ?all = "changes_after u c (committed w)"
  let ?d1 = "snd (UpsertDevice (db_now e) (d_id (rq_device req)) u (d_name (rq_device req)) (d_platform (rq_device req)) (committed w))"
  have lim: "1 \<le> ?limit" "int32 (?limit + 1) = ?limit + 1"
    using ok by (auto simp: pull_ok_def intro!: int32_id)
  obtain page has_more nc where pg: "change_page s e ?limit c pv (take (nat (?limit + 1)) ?all) = Some (page, has_more, nc)"
    using change_page_total [of ?limit] lim by (metis option.exhaust prod_cases3 order_trans zero_le_one)
  have "changes_after u c ?d1 = ?all"
    by (intro changes_after_cong) (simp add: UpsertDevice_def)
  moreover have "run_state (checkCursorNotExpired s e u c) w = (Inr (), w)"
    using checkCursor_clean [of w s e u c] ok by (auto simp: pull_ok_def)
  moreover have "fst (UpsertDevice (db_now e) (d_id (rq_device req)) u (d_name (rq_device req)) (d_platform (rq_device req)) (committed w)) = Inr ()"
    using ok by (auto simp: pull_ok_def UpsertDevice_ok)
  ultimately have run: "pull_page s e u req pv c w = (Some (page, has_more, nc), w\<lparr>committed := touched e u (rq_device req) c (committed w)\<rparr>)"
    using ok pg lim
    by (simp add: pull_page_def Sync_def pull_ok_def Let_def pullOnly_def run_simps pull_request_def ListChanges_def touched_def)
  show thesis
    by (rule change_page_spec [OF pg lim(1)]) (use run in \<open>auto intro: that\<close>)
qed


lemma touched_device:
  assumes "user_exists u d" "text_ok (d_name dev)" "text_ok (d_platform dev)" "0 \<le> c"
    and "case row_at dv_key (u, d_id dev) (devices d) of None \<Rightarrow> True | Some r \<Rightarrow> dv_last_ack_cursor r \<le> c"
  shows "\<exists>r. row_at dv_key (u, d_id dev) (devices (touched e u dev c d)) = Some r \<and>
    dv_last_seen_at r = db_now e \<and> dv_last_ack_cursor r \<le> c"
proof -
  have up: "row_at dv_key (u, d_id dev) (update_where P f rows) = map_option (\<lambda>r. if P r then f r else r) (row_at dv_key (u, d_id dev) rows)"
    if "\<And>r. dv_key (f r) = dv_key r" for P f rows
    using row_at_update_where [of dv_key f, OF that] .
  show ?thesis
  proof (cases "row_at dv_key (u, d_id dev) (devices d)")
    case None
    with assms show ?thesis
      by (auto simp: touched_def UpsertDevice_def UpdateDeviceAckCursor_def Let_def up dv_key_def row_at_append)
  next
    case (Some r)
    with assms row_at_Some [OF Some] show ?thesis
      by (auto simp: touched_def UpsertDevice_def UpdateDeviceAckCursor_def Let_def up dv_key_def)
  qed
qed

lemma cursor_live:
  assumes "faults w = []" "r \<in> set (devices (committed w))" "dv_user_id r = u" "dv_last_ack_cursor r \<le> c"
    "go_now e - effectiveInactiveWindow (inactiveDeviceWindow s) < dv_last_seen_at r"
  shows "fst (run_state (checkCursorNotExpired s e u c) w) = Inr ()"
proof -
  let ?acks = "map dv_last_ack_cursor (filter (\<lambda>r. dv_user_id r = u \<and>
      go_now e - effectiveInactiveWindow (inactiveDeviceWindow s) < dv_last_seen_at r) (devices (committed w)))"
  have "Min (set ?acks) \<le> dv_last_ack_cursor r" by (rule Min_le) (use assms in auto)
  then have "\<not> c < Min (set ?acks)" using assms(4) by linarith
  then show ?thesis
    using assms(1) by (simp add: checkCursorNotExpired_def run_simps MinValidCursorForUser_def Let_def del: set_map set_filter)
qed

lemma cursor_at_mono:
  assumes "log_ok d" "n \<le> length (changes_after u c d)"
  shows "c \<le> cursor_at c (take n (changes_after u c d))"
proof (cases "n = 0 \<or> changes_after u c d = []")
  case False
  then have "last (take n (changes_after u c d)) \<in> set (changes_after u c d)"
    by (metis in_set_takeD last_in_set take_eq_Nil)
  then show ?thesis using assms(1) by (auto simp: cursor_at_def changes_after_log)
qed (auto simp: cursor_at_def)

lemma pull_ok_next:
  assumes ok: "pull_ok s e u req c w" and c': "c \<le> c'"
  shows "pull_ok s e u req c' (w\<lparr>committed := touched e u (rq_device req) c (committed w)\<rparr>)"
proof -
  from ok have base: "user_exists u (committed w)" "text_ok (d_name (rq_device req))" "text_ok (d_platform (rq_device req))"
    "0 \<le> c" "case row_at dv_key (u, d_id (rq_device req)) (devices (committed w)) of
        None \<Rightarrow> True | Some r \<Rightarrow> dv_last_ack_cursor r \<le> c" "faults w = []"
    "go_now e - effectiveInactiveWindow (inactiveDeviceWindow s) < db_now e"
    by (auto simp: pull_ok_def)
  from touched_device [OF base(1-5), of e] obtain r where
    r: "row_at dv_key (u, d_id (rq_device req)) (devices (touched e u (rq_device req) c (committed w))) = Some r"
      "dv_last_seen_at r = db_now e" "dv_last_ack_cursor r \<le> c" by blast
  have "fst (run_state (checkCursorNotExpired s e u c') (w\<lparr>committed := touched e u (rq_device req) c (committed w)\<rparr>)) = Inr ()"
    using r base(6,7) c' row_at_Some [OF r(1)] by (intro cursor_live [where r = r]) (auto simp: dv_key_def)
  moreover have "log_ok (touched e u (rq_device req) c d) = log_ok d" for d
    by (simp add: log_ok_def touched_frame)
  moreover have "validateRequest s (pull_request req c') = None"
    using ok c' by (auto simp: pull_ok_def validateRequest_def pull_request_def split: if_splits)
  ultimately show ?thesis
    using ok c' r base by (simp add: pull_ok_def touched_frame user_exists_def)
qed

interpretation pull: paged_source "pull_ok s e u req" "pull_items u pv" "\<lambda>c w. length (pull_items u pv c w)"
  "pull_page s e u req pv" for s e u req pv
proof unfold_locales
  fix c w xs c' w'
  assume ok: "pull_ok s e u req c w"
  let ?all = "changes_after u c (committed w)"
  obtain n where n: "n \<le> length ?all"
    "pull_page s e u req pv c w = (Some (map (buildChange pv) (take n ?all), n < length ?all, cursor_at c (take n ?all)),
      w\<lparr>committed := touched e u (rq_device req) c (committed w)\<rparr>)"
    "?all \<noteq> [] \<Longrightarrow> 0 < n"
    using pull_run [OF ok] by metis
  have log: "log_ok (committed w)" using ok by (simp add: pull_ok_def)
  have rest: "pull_items u pv (cursor_at c (take n ?all)) (w\<lparr>committed := touched e u (rq_device req) c (committed w)\<rparr>) =
      map (buildChange pv) (drop n ?all)"
    using changes_after_next [OF log n(1)]
    by (simp add: pull_items_def touched_frame changes_after_cong [of "touched e u (rq_device req) c (committed w)"])
  have split: "pull_items u pv c w = map (buildChange pv) (take n ?all) @ map (buildChange pv) (drop n ?all)"
    unfolding pull_items_def map_append [symmetric] by simp
  show "\<exists>xs has_more c' s'. pull_page s e u req pv c w = (Some (xs, has_more, c'), s')" using n(2) by blast
  show "pull_page s e u req pv c w = (Some (xs, False, c'), w') \<Longrightarrow> pull_items u pv c w = xs"
    using n(1,2) by (auto simp: pull_items_def)
  show "pull_page s e u req pv c w = (Some (xs, True, c'), w') \<Longrightarrow>
      pull_ok s e u req c' w' \<and> pull_items u pv c w = xs @ pull_items u pv c' w'"
    using n(2) rest pull_ok_next [OF ok cursor_at_mono [OF log n(1)]] split by auto
  show "pull_page s e u req pv c w = (Some (xs, True, c'), w') \<Longrightarrow> length (pull_items u pv c' w') < length (pull_items u pv c w)"
    using n rest by (cases "?all = []") (auto simp: pull_items_def)
qed

end
