(* ===== verification/Sync_Converge.thy ===== *)
theory Sync_Converge
  imports Sync_Feed
begin

text \<open>
  Convergence: a client that keeps applying what it is sent ends up with the server's state.

  A client holds a replica, the last document it was sent for each entity, and a cursor.
  Under protocol version 2 a deleted entity is a stub (\<open>client_view\<close>). \<open>client_ok\<close> is the
  invariant that ties a client to a database: every entity the change feed will not mention
  again is already right.
\<close>

definition client_view :: "int \<Rightarrow> document \<Rightarrow> document" where
  "client_view pv doc =
     (case doc of
        SessionDoc x \<Rightarrow> if 2 \<le> pv \<and> s_deleted_at x \<noteq> None
          then DeleteDoc \<lparr> ds_id = s_id x, ds_version = s_version x, ds_deleted_at = s_deleted_at x \<rparr> else doc
      | SolveDoc x \<Rightarrow> if 2 \<le> pv \<and> sv_deleted_at x \<noteq> None
          then DeleteDoc \<lparr> ds_id = sv_id x, ds_version = sv_version x, ds_deleted_at = sv_deleted_at x \<rparr> else doc
      | _ \<Rightarrow> doc)"

definition entry_key :: "ChangeLog \<Rightarrow> string \<times> uuid" where
  "entry_key c = (cl_entity_type c, cl_entity_id c)"

definition change_key :: "Change \<Rightarrow> string \<times> uuid" where
  "change_key ch = (ch_entity ch, ch_entity_id ch)"

definition apply_change :: "int \<Rightarrow> replica \<Rightarrow> Change \<Rightarrow> replica" where
  "apply_change pv R ch = R(change_key ch \<mapsto> client_view pv (ch_data ch))"

definition client_replica :: "int \<Rightarrow> uuid \<Rightarrow> db \<Rightarrow> replica" where
  "client_replica pv u d k = map_option (client_view pv) (replica_of u d k)"

definition last_for :: "('x \<Rightarrow> 'k) \<Rightarrow> 'k \<Rightarrow> 'x list \<Rightarrow> 'x option" where
  "last_for key k xs = List.find (\<lambda>x. key x = k) (rev xs)"

text \<open>The log tells the truth: the last entry of an entity is its stored row.\<close>

definition log_current :: "db \<Rightarrow> bool" where
  "log_current d \<longleftrightarrow>
     (\<forall>u k c. last_for entry_key k (user_log u d) = Some c \<longrightarrow> replica_of u d k = Some (cl_payload c))"

definition entry_ok :: "ChangeLog \<Rightarrow> bool" where
  "entry_ok c \<longleftrightarrow> document_json_ok (cl_payload c) \<and> (cl_operation c = ''delete'' \<longrightarrow>
     (case cl_payload c of
        SessionDoc x \<Rightarrow> s_id x = cl_entity_id c \<and> s_version x = cl_version c \<and> s_deleted_at x \<noteq> None
      | SolveDoc x \<Rightarrow> sv_id x = cl_entity_id c \<and> sv_version x = cl_version c \<and> sv_deleted_at x \<noteq> None
      | _ \<Rightarrow> False))"

definition feed_ok :: "db \<Rightarrow> bool" where
  "feed_ok d \<longleftrightarrow> log_current d \<and> (\<forall>c\<in>set (change_log d). entry_ok c)"

definition client_ok :: "int \<Rightarrow> uuid \<Rightarrow> (string \<times> uuid) set \<Rightarrow> replica \<Rightarrow> int \<Rightarrow> db \<Rightarrow> bool" where
  "client_ok pv u S R c d \<longleftrightarrow> c \<le> change_seq d \<and>
     (\<forall>k\<in>S. last_for entry_key k (changes_after u c d) = None \<longrightarrow> R k = client_replica pv u d k)"


subsection \<open>Replaying\<close>

lemma sorted_split:
  fixes f :: "'a \<Rightarrow> int"
  assumes "sorted_wrt (<) (map f xs)"
  shows "xs = filter (\<lambda>x. f x \<le> c) xs @ filter (\<lambda>x. c < f x) xs"
  using assms
proof (induction xs)
  case (Cons x xs)
  show ?case
  proof (cases "f x \<le> c")
    case True
    with Cons show ?thesis by auto
  next
    case False
    with Cons.prems have "filter (\<lambda>x. f x \<le> c) xs = []" "filter (\<lambda>x. c < f x) xs = xs"
      by (auto simp: filter_empty_conv filter_id_conv not_le)
    with False show ?thesis by simp
  qed
qed simp

lemma last_for_simps [simp]:
  "last_for key k [] = None"
  "last_for key k (xs @ [x]) = (if key x = k then Some x else last_for key k xs)"
  by (simp_all add: last_for_def)

lemma last_for_append:
  "last_for key k (xs @ ys) = (case last_for key k ys of None \<Rightarrow> last_for key k xs | Some y \<Rightarrow> Some y)"
  by (simp add: last_for_def find_append split: option.splits)

lemma last_for_Some: "last_for key k xs = Some x \<Longrightarrow> x \<in> set xs \<and> key x = k"
  by (auto simp: last_for_def dest: find_Some_in)

lemma last_for_None: "last_for key k xs = None \<longleftrightarrow> (\<forall>x\<in>set xs. key x \<noteq> k)"
  by (auto simp: last_for_def find_None_iff)

lemma foldl_upd_last:
  "foldl (\<lambda>R x. R(key x \<mapsto> val x)) R xs k =
     (case last_for key k xs of None \<Rightarrow> R k | Some x \<Rightarrow> Some (val x))"
  by (induction xs rule: rev_induct) auto

lemma replay_last:
  "foldl replay_entry R cs k = (case last_for entry_key k cs of None \<Rightarrow> R k | Some c \<Rightarrow> Some (cl_payload c))"
  using foldl_upd_last [of entry_key cl_payload R cs k] by (simp add: replay_entry_def [abs_def] entry_key_def)

lemma client_view_buildChange:
  assumes "entry_ok c"
  shows "client_view pv (ch_data (buildChange pv c)) = client_view pv (cl_payload c)"
    "change_key (buildChange pv c) = entry_key c"
  using assms
  by (auto simp: buildChange_def client_view_def entry_ok_def payload_deleted_at_def change_key_def entry_key_def
      document_json_ok_def json_times_ok_def Let_def
      split: document.splits)

lemma apply_changes_last:
  assumes "\<forall>c\<in>set cs. entry_ok c"
  shows "foldl (apply_change pv) R (map (buildChange pv) cs) k =
    (case last_for entry_key k cs of None \<Rightarrow> R k | Some c \<Rightarrow> Some (client_view pv (cl_payload c)))"
  using assms
  by (induction cs rule: rev_induct) (auto simp: apply_change_def client_view_buildChange)


subsection \<open>The log stays truthful\<close>

lemma feed_ok_same:
  assumes "cube_sessions d' = cube_sessions d" "solves d' = solves d" "change_log d' = change_log d" "feed_ok d"
  shows "feed_ok d'"
proof -
  have "replica_of u d' = replica_of u d" for u using assms by (simp add: replica_of_def fun_eq_iff)
  with assms show ?thesis by (simp add: feed_ok_def log_current_def user_log_def)
qed

context logged_table
begin

lemma log_current_write:
  assumes "log_current d"
  shows "log_current (put now operation r d)"
proof -
  have "replica_of u (put now operation r d) k = Some (cl_payload c)"
    if "last_for entry_key k (user_log u (put now operation r d)) = Some c" for u k c
    using that assms
    by (cases k) (auto simp: user_log_def log_write log_entry_def replica_write entry_key_def log_current_def split: if_splits)
  then show ?thesis by (simp add: log_current_def)
qed

end

lemma feed_ok_store_write:
  assumes "store_write e u d d'" "feed_ok d"
  shows "feed_ok d'"
  using assms
proof (cases rule: store_write.cases)
  case (session_tombstone i cur)
  with assms(2) show ?thesis
    by (auto simp: feed_ok_def ses.log_current_write ses.log_write entry_ok_def log_entry_def session_json_ok_def sessionFromDB_def cs_key_def)
next
  case (solve_tombstone i cur)
  with assms(2) show ?thesis
    by (auto simp: feed_ok_def slv.log_current_write slv.log_write entry_ok_def log_entry_def solve_json_ok_def solveFromDB_def sf_key_def)
qed (use assms(2) in \<open>auto simp: feed_ok_def ses.log_current_write ses.log_write slv.log_current_write slv.log_write entry_ok_def log_entry_def session_json_ok_def solve_json_ok_def\<close>)

interpretation feed: store_preorder "\<lambda>d d'. feed_ok d \<longrightarrow> feed_ok d'" e u for e u
proof unfold_locales
  fix d d' dev i out now name platform cursor n
  show "feed_ok d \<longrightarrow> feed_ok d" "\<And>d1 d2. feed_ok d \<longrightarrow> feed_ok d1 \<Longrightarrow> feed_ok d1 \<longrightarrow> feed_ok d2 \<Longrightarrow> feed_ok d \<longrightarrow> feed_ok d2"
    by blast+
  show "store_write e u d d' \<Longrightarrow> feed_ok d \<longrightarrow> feed_ok d'"
    by (blast intro: feed_ok_store_write)
  show "feed_ok d \<longrightarrow> feed_ok (snd (UpsertDevice now i u name platform d))"
    "feed_ok d \<longrightarrow> feed_ok (snd (UpdateDeviceAckCursor u i cursor d))"
    by (rule device_frame_R [where R = "\<lambda>d d'. feed_ok d \<longrightarrow> feed_ok d'"]; simp add: feed_ok_same)+
qed (simp_all add: feed_ok_same)



subsection \<open>Clients\<close>

lemma client_ok_done:
  assumes "client_ok pv u UNIV R c d" "changes_after u c d = []"
  shows "R = client_replica pv u d"
  using assms by (auto simp: client_ok_def)

text \<open>A client that lags behind stays tied to the database while others write.\<close>

lemma client_ok_journaled:
  assumes ok: "client_ok pv u S R c d" and j: "journaled d d'" and log: "log_ok d" "log_ok d'"
  shows "client_ok pv u S R c d'"
proof -
  from j obtain new where new: "change_log d' = change_log d @ new" "\<forall>x\<in>set new. change_seq d < cl_change_id x"
    "replica_of u d' = foldl replay_entry (replica_of u d) (filter (\<lambda>x. cl_user_id x = u) new)"
    "change_seq d \<le> change_seq d'"
    by (auto simp: journaled_def)
  have c: "c \<le> change_seq d" using ok by (simp add: client_ok_def)
  have "changes_after u c d' = changes_after u c d @ filter (\<lambda>x. cl_user_id x = u) new"
    using new(1,2) c by (fastforce simp: changes_after_log [OF log(1)] changes_after_log [OF log(2)] user_log_def intro: filter_cong)
  with ok new(3,4) c show ?thesis
    by (auto simp: client_ok_def last_for_append client_replica_def replay_last split: option.splits)
qed

lemma client_ok_same:
  assumes "client_ok pv u S R c d" "cube_sessions d' = cube_sessions d" "solves d' = solves d"
    "change_log d' = change_log d" "change_seq d \<le> change_seq d'"
  shows "client_ok pv u S R c d'"
proof -
  have "replica_of u d' = replica_of u d" using assms by (simp add: replica_of_def fun_eq_iff)
  with assms show ?thesis by (auto simp: client_ok_def client_replica_def changes_after_cong [of d' d])
qed

lemma last_for_suffix:
  assumes "log_ok d" "last_for entry_key k (changes_after u c d) = Some x"
  shows "last_for entry_key k (user_log u d) = Some x"
proof -
  have split: "user_log u d = filter (\<lambda>x. cl_change_id x \<le> c) (user_log u d) @ filter (\<lambda>x. c < cl_change_id x) (user_log u d)"
    using assms(1) by (intro sorted_split [where f = cl_change_id]) (simp add: user_log_def log_ok_def sorted_wrt_map sorted_wrt_filter)
  show ?thesis
    by (subst split) (use assms in \<open>simp add: last_for_append changes_after_log\<close>)
qed

text \<open>Applying the next part of the feed.\<close>

lemma client_ok_pull:
  assumes ok: "client_ok pv u S R c d" and log: "log_ok d" and feed: "feed_ok d"
    and n: "n \<le> length (changes_after u c d)"
  shows "client_ok pv u S (foldl (apply_change pv) R (map (buildChange pv) (take n (changes_after u c d))))
     (cursor_at c (take n (changes_after u c d))) d"
proof -
  let ?all = "changes_after u c d"
  have sub: "set ?all \<subseteq> set (user_log u d)" "set ?all \<subseteq> set (change_log d)"
    using log by (auto simp: changes_after_log user_log_def)
  then have eok: "\<forall>x\<in>set (take n ?all). entry_ok x" using feed by (auto simp: feed_ok_def dest: in_set_takeD)
  have cur: "cursor_at c (take n ?all) \<le> change_seq d"
  proof (cases "take n ?all = []")
    case True
    with ok show ?thesis by (simp add: client_ok_def cursor_at_def)
  next
    case False
    then have "last (take n ?all) \<in> set (change_log d)" using sub by (meson in_set_takeD last_in_set subsetD)
    with log False show ?thesis by (auto simp: cursor_at_def log_ok_def)
  qed
  have "foldl (apply_change pv) R (map (buildChange pv) (take n ?all)) k = client_replica pv u d k"
    if k: "k \<in> S" "last_for entry_key k (drop n ?all) = None" for k
  proof (cases "last_for entry_key k (take n ?all)")
    case None
    with k(2) have "last_for entry_key k ?all = None"
      using last_for_append [of entry_key k "take n ?all" "drop n ?all"] by simp
    with ok k(1) None eok show ?thesis by (auto simp: client_ok_def apply_changes_last)
  next
    case (Some x)
    with k(2) have all: "last_for entry_key k ?all = Some x"
      using last_for_append [of entry_key k "take n ?all" "drop n ?all"] by simp
    have "last_for entry_key k (user_log u d) = Some x"
      using all by (rule last_for_suffix [OF log])
    with feed Some eok show ?thesis
      by (cases k) (auto simp: apply_changes_last client_replica_def feed_ok_def log_current_def)
  qed
  with cur show ?thesis
    unfolding client_ok_def changes_after_next [OF log n] by blast
qed



subsection \<open>Pulling to the end\<close>

text \<open>
  What the client's loop applies is what \<open>drain\<close> collects; when it ends, nothing is left and
  the replica is the server's.
\<close>

lemma client_ok_all:
  assumes "client_ok pv u UNIV R c d" "log_ok d" "feed_ok d"
  shows "foldl (apply_change pv) R (map (buildChange pv) (changes_after u c d)) = client_replica pv u d"
proof (rule client_ok_done)
  show "client_ok pv u UNIV (foldl (apply_change pv) R (map (buildChange pv) (changes_after u c d)))
      (cursor_at c (changes_after u c d)) d"
    using client_ok_pull [OF assms, of "length (changes_after u c d)"] by simp
  show "changes_after u (cursor_at c (changes_after u c d)) d = []"
    using changes_after_next [OF assms(2), of "length (changes_after u c d)" u c] by simp
qed

lemma pull_converges_lemma:
  assumes "pull_ok s e u req c w" "client_ok pv u UNIV R c (committed w)" "feed_ok (committed w)"
    "length (changes_after u c (committed w)) < fuel"
  shows "\<exists>changes w'. drain (pull_page s e u req pv) fuel c w = Some (changes, w') \<and>
    foldl (apply_change pv) R changes = client_replica pv u (committed w)"
proof -
  have "length (pull_items u pv c w) < fuel" using assms(4) by (simp add: pull_items_def)
  from pull.drain_complete [OF assms(1) this] client_ok_all [OF assms(2)] assms(1,3) show ?thesis
    by (auto simp: pull_items_def pull_ok_def)
qed

end
