(* ===== verification/Sync_Snapshot.thy ===== *)
theory Sync_Snapshot
  imports Sync_Converge
begin

text \<open>
  The bootstrap endpoint (\<open>internal/sync/snapshot.go\<close>): pages of the stored entities, sessions
  first, then solves, with the watermark of the change log taken before the first page.

  A new client follows \<open>next_entity\<close> and \<open>next_after_id\<close> until \<open>next_entity\<close> is empty. Without
  other writers that loop ends with every entity of the user (an instance of
  \<open>paged_source\<close>); with other writers it still ends in a replica the change feed completes
  (\<open>bootstrap\<close>).
\<close>

record SnapshotService =
  snapMaxResponseBytes :: int

definition defaultSnapshotPageSize :: int where
  "defaultSnapshotPageSize = 500"

definition maxSnapshotPageSize :: int where
  "maxSnapshotPageSize = 2000"

definition entityEnvelopeOverhead :: int where
  "entityEnvelopeOverhead = 120"

definition entitySession :: string where
  "entitySession = ''session''"

definition entitySolve :: string where
  "entitySolve = ''solve''"

text \<open>
  The loop of the two trim functions; \<open>size\<close> is \<open>json.Marshal\<close> of the entity, \<open>None\<close> its error,
  on which the loop continues without counting.
\<close>

fun trimLoop :: "('a \<Rightarrow> nat option) \<Rightarrow> int \<Rightarrow> nat \<Rightarrow> int \<Rightarrow> nat \<Rightarrow> 'a list \<Rightarrow> nat" where
  "trimLoop marshal budget i sum0 keep [] = keep"
| "trimLoop marshal budget i sum0 keep (x # xs) =
     (case marshal x of
        None \<Rightarrow> trimLoop marshal budget (Suc i) sum0 keep xs
      | Some len \<Rightarrow>
          let size' = int len + entityEnvelopeOverhead in
          if budget < sum0 + size' \<and> 0 < i then keep
          else trimLoop marshal budget (Suc i) (sum0 + size') (Suc i) xs)"

definition trimByBytes :: "('a \<Rightarrow> nat option) \<Rightarrow> 'a list \<Rightarrow> int \<Rightarrow> 'a list \<times> bool" where
  "trimByBytes marshal xs budget =
     (if budget \<le> 0 \<or> length xs \<le> 1 then (xs, False)
      else let keep = trimLoop marshal budget 0 0 0 xs in (take keep xs, keep < length xs))"

definition marshal_doc :: "env \<Rightarrow> document \<Rightarrow> nat option" where
  "marshal_doc e doc = (if document_json_ok doc then Some (marshal_len e doc) else None)"

definition trimSessionsByBytes :: "env \<Rightarrow> Session list \<Rightarrow> int \<Rightarrow> Session list \<times> bool" where
  "trimSessionsByBytes e sessions budget = trimByBytes (\<lambda>x. marshal_doc e (SessionDoc x)) sessions budget"

definition trimSolvesByBytes :: "env \<Rightarrow> Solve list \<Rightarrow> int \<Rightarrow> Solve list \<times> bool" where
  "trimSolvesByBytes e solves' budget = trimByBytes (\<lambda>x. marshal_doc e (SolveDoc x)) solves' budget"

definition snapshotSessions ::
  "SnapshotService \<Rightarrow> env \<Rightarrow> uuid \<Rightarrow> uuid \<Rightarrow> int \<Rightarrow> int \<Rightarrow> (world, error + SnapshotResponse) state" where
  "snapshotSessions s e userID afterID snapshotCursor pageSize = do {
     got \<leftarrow> exec_pool (SnapshotSessionsKeyset userID afterID (int32 (pageSize + 1)));
     case got of
       Inl err \<Rightarrow> State_Monad.return (Inl (PgError err))
     | Inr fetched \<Rightarrow>
         (case cut_page pageSize fetched of
            None \<Rightarrow> State_Monad.return (Inl GoPanic)
          | Some (rows, hasMore0) \<Rightarrow>
              let all = map sessionFromDB rows;
                  (sessions, trimmed) =
                    (if 0 < snapMaxResponseBytes s then trimSessionsByBytes e all (snapMaxResponseBytes s)
                     else (all, False));
                  hasMore = (hasMore0 \<or> trimmed);
                  nextAfterID = (if sessions \<noteq> [] then s_id (last sessions) else uuid_nil) in
              State_Monad.return (Inr
                \<lparr> sr_sessions = sessions, sr_solves = [], sr_cursor = snapshotCursor,
                  sr_has_more = hasMore,
                  sr_next_entity = (if hasMore then entitySession else entitySolve),
                  sr_next_after_id = (if hasMore then nextAfterID else uuid_nil) \<rparr>))
   }"

definition snapshotSolves ::
  "SnapshotService \<Rightarrow> env \<Rightarrow> uuid \<Rightarrow> uuid \<Rightarrow> int \<Rightarrow> int \<Rightarrow> (world, error + SnapshotResponse) state" where
  "snapshotSolves s e userID afterID snapshotCursor pageSize = do {
     got \<leftarrow> exec_pool (SnapshotSolvesKeyset userID afterID (int32 (pageSize + 1)));
     case got of
       Inl err \<Rightarrow> State_Monad.return (Inl (PgError err))
     | Inr fetched \<Rightarrow>
         (case cut_page pageSize fetched of
            None \<Rightarrow> State_Monad.return (Inl GoPanic)
          | Some (rows, hasMore0) \<Rightarrow>
              let all = map solveFromDB rows;
                  (solves', trimmed) =
                    (if 0 < snapMaxResponseBytes s then trimSolvesByBytes e all (snapMaxResponseBytes s)
                     else (all, False));
                  hasMore = (hasMore0 \<or> trimmed);
                  nextAfterID = (if solves' \<noteq> [] then sv_id (last solves') else uuid_nil) in
              State_Monad.return (Inr
                \<lparr> sr_sessions = [], sr_solves = solves', sr_cursor = snapshotCursor,
                  sr_has_more = hasMore,
                  sr_next_entity = (if hasMore then entitySolve else []),
                  sr_next_after_id = (if hasMore then nextAfterID else uuid_nil) \<rparr>))
   }"

definition snapshot_page_size :: "int \<Rightarrow> int" where
  "snapshot_page_size pageSize =
     (if pageSize \<le> 0 \<or> maxSnapshotPageSize < pageSize then defaultSnapshotPageSize else pageSize)"

definition Snapshot ::
  "SnapshotService \<Rightarrow> env \<Rightarrow> uuid \<Rightarrow> SnapshotRequest \<Rightarrow> (world, error + SnapshotResponse) state" where
  "Snapshot s e userID req =
     (if d_id (sq_device req) = uuid_nil
      then State_Monad.return (Inl (ClientError ''invalid_device'' ''device.id is required''))
      else if sq_entity req \<noteq> entitySession \<and> sq_entity req \<noteq> entitySolve \<and> sq_entity req \<noteq> []
      then State_Monad.return (Inl (ClientError ''invalid_entity'' ''entity must be \"session\" or \"solve\"''))
      else
        let entity = (if sq_entity req = [] then entitySession else sq_entity req);
            pageSize = snapshot_page_size (sq_page_size req) in
        do {
          up \<leftarrow> exec_pool (UpsertDevice (db_now e) (d_id (sq_device req)) userID
                 (d_name (sq_device req)) (d_platform (sq_device req)));
          case up of
            Inl err \<Rightarrow> State_Monad.return (Inl (PgError err))
          | Inr _ \<Rightarrow> do {
              mark \<leftarrow> (if sq_cursor req \<le> 0 \<and> sq_after_id req = uuid_nil \<and> entity = entitySession
                      then exec_pool (LatestChangeCursor userID)
                      else State_Monad.return (Inr (sq_cursor req)));
              case mark of
                Inl err \<Rightarrow> State_Monad.return (Inl (PgError err))
              | Inr snapshotCursor \<Rightarrow>
                  if entity = entitySession
                  then snapshotSessions s e userID (sq_after_id req) snapshotCursor pageSize
                  else snapshotSolves s e userID (sq_after_id req) snapshotCursor pageSize
            }
        })"



text \<open>The client of the endpoint: what it is sent, and where it asks next.\<close>

type_synonym boot_pos = "string \<times> uuid \<times> int"

definition session_item :: "CubeSession \<Rightarrow> (string \<times> uuid) \<times> document" where
  "session_item r = ((entitySession, cs_id r), SessionDoc (sessionFromDB r))"

definition solve_item :: "Solf \<Rightarrow> (string \<times> uuid) \<times> document" where
  "solve_item r = ((entitySolve, sf_id r), SolveDoc (solveFromDB r))"

definition snapshot_items :: "SnapshotResponse \<Rightarrow> ((string \<times> uuid) \<times> document) list" where
  "snapshot_items resp =
     map (\<lambda>x. ((entitySession, s_id x), SessionDoc x)) (sr_sessions resp) @
     map (\<lambda>x. ((entitySolve, sv_id x), SolveDoc x)) (sr_solves resp)"

definition boot_request :: "SnapshotRequest \<Rightarrow> boot_pos \<Rightarrow> SnapshotRequest" where
  "boot_request req pos = (case pos of (entity, after, cursor) \<Rightarrow>
     req\<lparr>sq_entity := entity, sq_after_id := after, sq_cursor := cursor\<rparr>)"

definition boot_page ::
  "SnapshotService \<Rightarrow> env \<Rightarrow> uuid \<Rightarrow> SnapshotRequest \<Rightarrow> boot_pos \<Rightarrow> world \<Rightarrow>
   (((string \<times> uuid) \<times> document) list \<times> bool \<times> boot_pos) option \<times> world" where
  "boot_page s e u req pos w =
     (case run_state (Snapshot s e u (boot_request req pos)) w of
        (Inl _, w') \<Rightarrow> (None, w')
      | (Inr resp, w') \<Rightarrow>
          (Some (snapshot_items resp, sr_next_entity resp \<noteq> [],
             (sr_next_entity resp, sr_next_after_id resp, sr_cursor resp)), w'))"


subsection \<open>Keyset pages\<close>

definition rows_after :: "('r \<Rightarrow> uuid \<times> uuid) \<Rightarrow> uuid \<Rightarrow> uuid \<Rightarrow> 'r list \<Rightarrow> 'r list" where
  "rows_after key u a rows = sort_key (\<lambda>r. snd (key r)) (filter (\<lambda>r. fst (key r) = u \<and> a < snd (key r)) rows)"

lemma rows_after_strict:
  assumes "keys_distinct key rows"
  shows "sorted_wrt (<) (map (\<lambda>r. snd (key r)) (rows_after key u a rows))"
proof -
  have "distinct (map key (rows_after key u a rows))"
    using keys_distinct_filter [OF assms] distinct_map by (fastforce simp: rows_after_def keys_distinct_def distinct_map)
  moreover have "\<forall>r\<in>set (rows_after key u a rows). fst (key r) = u" by (simp add: rows_after_def)
  ultimately have "distinct (map (\<lambda>r. snd (key r)) (rows_after key u a rows))"
    by (auto simp: distinct_map inj_on_def prod_eq_iff)
  then show ?thesis by (simp add: rows_after_def strict_sorted_iff)
qed

lemma rows_after_next:
  assumes "keys_distinct key rows" "0 < n" "n \<le> length (rows_after key u a rows)"
  shows "rows_after key u (snd (key (rows_after key u a rows ! (n - 1)))) rows = drop n (rows_after key u a rows)"
proof -
  let ?all = "rows_after key u a rows"
  let ?last = "snd (key (?all ! (n - 1)))"
  have "?all ! (n - 1) \<in> set ?all" using assms by auto
  then have "a < ?last" by (simp add: rows_after_def)
  then have "rows_after key u ?last rows = filter (\<lambda>r. ?last < snd (key r)) ?all"
    unfolding rows_after_def by (subst filter_sort) (auto intro!: arg_cong [where f = "sort_key _"] filter_cong)
  with filter_above_nth [OF rows_after_strict [OF assms(1)] assms(2,3)] show ?thesis by simp
qed

lemma SnapshotSessions_rows:
  "0 \<le> lim \<Longrightarrow> SnapshotSessionsKeyset u a lim d = (Inr (take (nat lim) (rows_after cs_key u a (cube_sessions d))), d)"
  by (simp add: SnapshotSessionsKeyset_def rows_after_def cs_key_def)

lemma SnapshotSolves_rows:
  "0 \<le> lim \<Longrightarrow> SnapshotSolvesKeyset u a lim d = (Inr (take (nat lim) (rows_after sf_key u a (solves d))), d)"
  by (simp add: SnapshotSolvesKeyset_def rows_after_def sf_key_def)

definition entity_bytes :: "('a \<Rightarrow> nat option) \<Rightarrow> 'a list \<Rightarrow> int" where
  "entity_bytes marshal xs = sum_list (map (\<lambda>x. int (the (marshal x)) + entityEnvelopeOverhead) xs)"

lemma trimLoop_spec:
  assumes "\<forall>x\<in>set xs. marshal x \<noteq> None"
  shows "\<exists>k \<le> length xs. trimLoop marshal budget i sum0 i xs = i + k \<and> (xs \<noteq> [] \<and> i = 0 \<longrightarrow> 0 < k) \<and>
    (0 < k \<and> (0 < i \<or> 1 < k) \<longrightarrow> sum0 + entity_bytes marshal (take k xs) \<le> budget)"
  using assms
proof (induction xs arbitrary: i sum0)
  case (Cons x xs)
  then obtain len where len: "marshal x = Some len" by auto
  let ?sum = "sum0 + (int len + entityEnvelopeOverhead)"
  show ?case
  proof (cases "budget < ?sum \<and> 0 < i")
    case True
    then show ?thesis by (intro exI [of _ 0]) (simp add: len Let_def)
  next
    case False
    from Cons.IH [of "Suc i" ?sum] Cons.prems obtain k where k: "k \<le> length xs"
      "trimLoop marshal budget (Suc i) ?sum (Suc i) xs = Suc i + k"
      "0 < k \<longrightarrow> ?sum + entity_bytes marshal (take k xs) \<le> budget" by auto
    have "sum0 + entity_bytes marshal (take (Suc k) (x # xs)) \<le> budget" if "0 < i \<or> 1 < Suc k"
      using that k(3) False len by (cases k) (auto simp: entity_bytes_def)
    with k(1,2) False len show ?thesis by (intro exI [of _ "Suc k"]) (auto simp: Let_def)
  qed
qed simp

lemma trimByBytes_spec:
  assumes "\<forall>x\<in>set xs. marshal x \<noteq> None"
  obtains n where "n \<le> length xs" "trimByBytes marshal xs budget = (take n xs, n < length xs)" "xs \<noteq> [] \<Longrightarrow> 0 < n"
    "0 < budget \<Longrightarrow> 1 < n \<Longrightarrow> entity_bytes marshal (take n xs) \<le> budget"
proof (cases "budget \<le> 0 \<or> length xs \<le> 1")
  case True
  then show thesis using that [of "length xs"] by (auto simp: trimByBytes_def)
next
  case False
  from trimLoop_spec [OF assms, of budget 0 0] obtain k where "k \<le> length xs" "trimLoop marshal budget 0 0 0 xs = k"
      "xs \<noteq> [] \<longrightarrow> 0 < k" "1 < k \<longrightarrow> entity_bytes marshal (take k xs) \<le> budget" by auto
  with False that [of k] show thesis by (auto simp: trimByBytes_def)
qed



subsection \<open>One page\<close>

lemma exec_pool_Inr:
  "run_state (exec_pool st) w = (Inr x, w') \<Longrightarrow> st (committed w) = (Inr x, committed w')"
  by (cases "st (committed w)") (auto simp: exec_pool_def Let_def split: fault.splits)

definition snapshot_ready :: "env \<Rightarrow> db \<Rightarrow> bool" where
  "snapshot_ready e d \<longleftrightarrow> keys_distinct cs_key (cube_sessions d) \<and> keys_distinct sf_key (solves d) \<and> rows_ok e d"

definition page_answer :: "bool \<Rightarrow> string \<Rightarrow> string \<Rightarrow> uuid \<Rightarrow> Session list \<Rightarrow> Solve list \<Rightarrow> int \<Rightarrow> SnapshotResponse" where
  "page_answer has_more this_entity next_entity next_after ss vs c =
     \<lparr> sr_sessions = ss, sr_solves = vs, sr_cursor = c, sr_has_more = has_more,
       sr_next_entity = (if has_more then this_entity else next_entity),
       sr_next_after_id = (if has_more then next_after else uuid_nil) \<rparr>"

text \<open>Cutting and trimming a query result leaves a prefix of what there is.\<close>

lemma cut_and_trim:
  assumes "1 \<le> psize" "\<forall>x\<in>set (map f all). marshal x \<noteq> None"
  obtains n where "n \<le> length all" "int n \<le> psize" "all \<noteq> [] \<Longrightarrow> 0 < n"
    "cut_page psize (take (nat (psize + 1)) all) = Some (take (nat psize) all, psize < int (length all))"
    "(if 0 < budget then trimByBytes marshal (map f (take (nat psize) all)) budget else (map f (take (nat psize) all), False)) =
       (map f (take n all), n < length (take (nat psize) all))"
    "(psize < int (length all) \<or> n < length (take (nat psize) all)) \<longleftrightarrow> n < length all"
    "0 < budget \<Longrightarrow> 1 < n \<Longrightarrow> entity_bytes marshal (map f (take n all)) \<le> budget"
proof -
  let ?rows = "take (nat psize) all"
  have cut: "cut_page psize (take (nat (psize + 1)) all) = Some (?rows, psize < int (length all))"
    using assms(1) by (auto simp: cut_page_nonneg min_def)
  have mar: "\<forall>x\<in>set (map f ?rows). marshal x \<noteq> None" using assms(2) by (auto dest: in_set_takeD)
  show thesis
  proof (cases "0 < budget")
    case False
    show thesis
    proof (cases "psize < int (length all)")
      case True
      with that [of "nat psize"] cut assms(1) False show thesis by auto
    next
      case le: False
      with that [of "length all"] cut assms(1) False show thesis by auto
    qed
  next
    case True
    show thesis
    proof (rule trimByBytes_spec [OF mar, of budget])
      fix n assume n: "n \<le> length (map f ?rows)" "trimByBytes marshal (map f ?rows) budget = (take n (map f ?rows), n < length (map f ?rows))"
        "map f ?rows \<noteq> [] \<Longrightarrow> 0 < n" "0 < budget \<Longrightarrow> 1 < n \<Longrightarrow> entity_bytes marshal (take n (map f ?rows)) \<le> budget"
      have eq: "take n (map f ?rows) = map f (take n all)" using n(1) by (simp add: take_map min_absorb1)
      have b: "n \<le> length all" "int n \<le> psize" using n(1) assms(1) by auto
      have m: "(psize < int (length all) \<or> n < length ?rows) \<longleftrightarrow> n < length all" using n(1) assms(1) by auto
      have p: "all \<noteq> [] \<Longrightarrow> 0 < n" using n(3) assms(1) by auto
      show thesis using that [OF b p cut _ m] n(2,4) True eq by simp
    qed
  qed
qed

lemma page_size_range: "1 \<le> snapshot_page_size k" "snapshot_page_size k \<le> 2000" "int32 (snapshot_page_size k + 1) = snapshot_page_size k + 1"
  by (auto simp: snapshot_page_size_def maxSnapshotPageSize_def defaultSnapshotPageSize_def intro!: int32_id)

lemma snapshotSessions_answer:
  assumes run: "run_state (snapshotSessions s e u a c (snapshot_page_size k)) w = (r, w')"
    and ready: "snapshot_ready e (committed w)"
    and all: "all = rows_after cs_key u a (cube_sessions (committed w))"
  obtains (failed) err where "r = Inl (PgError err)" "faults w \<noteq> []" "committed w' = committed w"
  | (page) n where "n \<le> length all" "committed w' = committed w" "faults w' = tl (faults w)" "all \<noteq> [] \<Longrightarrow> 0 < n"
      "r = Inr (page_answer (n < length all) entitySession entitySolve (cs_id (all ! (n - 1)))
         (map sessionFromDB (take n all)) [] c)"
proof -
  let ?size = "snapshot_page_size k"
  let ?st = "SnapshotSessionsKeyset u a (?size + 1)" and ?rows = "map sessionFromDB (take (nat ?size) all)"
  have st: "?st (committed w) = (Inr (take (nat (?size + 1)) all), committed w)"
    unfolding all using page_size_range(1) [of k] by (intro SnapshotSessions_rows) simp
  have "\<forall>x\<in>set (map sessionFromDB all). marshal_doc e (SessionDoc x) \<noteq> None"
    using ready by (auto simp: all snapshot_ready_def rows_ok_def session_ok_def session_json_ok_def marshal_doc_def rows_after_def)
  from cut_and_trim [OF page_size_range(1) [of k] this, of "snapMaxResponseBytes s"] obtain n where
    n: "n \<le> length all" "all \<noteq> [] \<longrightarrow> 0 < n"
      "cut_page ?size (take (nat (?size + 1)) all) = Some (take (nat ?size) all, ?size < int (length all))"
      "(?size < int (length all) \<or> n < length (take (nat ?size) all)) \<longleftrightarrow> n < length all" and
    trim: "(if 0 < snapMaxResponseBytes s then trimSessionsByBytes e ?rows (snapMaxResponseBytes s)
        else (?rows, False)) = (map sessionFromDB (take n all), n < length (take (nat ?size) all))"
    unfolding trimSessionsByBytes_def by metis
  have last: "take n all \<noteq> [] \<and> s_id (last (map sessionFromDB (take n all))) = cs_id (all ! (n - 1))" if "n < length all"
    using that n(2) by (subst last_conv_nth) (auto simp: sessionFromDB_def min_def)
  obtain got w1 where q: "run_state (exec_pool ?st) w = (got, w1)" by fastforce
  show thesis
  proof (cases got)
    case (Inl err)
    with q st have "faults w \<noteq> []" "committed w1 = committed w" by (auto simp: exec_pool_def Let_def split: fault.splits)
    with run q Inl failed [of err] show thesis by (simp add: snapshotSessions_def page_size_range)
  next
    case (Inr rows)
    with q st have w1: "rows = take (nat (?size + 1)) all" "committed w1 = committed w" "faults w1 = tl (faults w)"
      by (auto simp: exec_pool_def Let_def split: fault.splits)
    have "run_state (snapshotSessions s e u a c ?size) w = (Inr (page_answer (n < length all) entitySession entitySolve
         (cs_id (all ! (n - 1))) (map sessionFromDB (take n all)) [] c), w1)"
      using last
      by (cases "n < length all")
        (simp_all add: snapshotSessions_def page_size_range q Inr w1(1) n(3) trim n(4) page_answer_def Let_def del: length_take)
    with run w1 n page [of n] show thesis by simp
  qed
qed

lemma snapshotSolves_answer:
  assumes run: "run_state (snapshotSolves s e u a c (snapshot_page_size k)) w = (r, w')"
    and ready: "snapshot_ready e (committed w)"
    and all: "all = rows_after sf_key u a (solves (committed w))"
  obtains (failed) err where "r = Inl (PgError err)" "faults w \<noteq> []" "committed w' = committed w"
  | (page) n where "n \<le> length all" "committed w' = committed w" "faults w' = tl (faults w)" "all \<noteq> [] \<Longrightarrow> 0 < n"
      "r = Inr (page_answer (n < length all) entitySolve [] (sf_id (all ! (n - 1)))
         [] (map solveFromDB (take n all)) c)"
proof -
  let ?size = "snapshot_page_size k"
  let ?st = "SnapshotSolvesKeyset u a (?size + 1)" and ?rows = "map solveFromDB (take (nat ?size) all)"
  have st: "?st (committed w) = (Inr (take (nat (?size + 1)) all), committed w)"
    unfolding all using page_size_range(1) [of k] by (intro SnapshotSolves_rows) simp
  have "\<forall>x\<in>set (map solveFromDB all). marshal_doc e (SolveDoc x) \<noteq> None"
    using ready by (auto simp: all snapshot_ready_def rows_ok_def solve_ok_def solve_json_ok_def marshal_doc_def rows_after_def)
  from cut_and_trim [OF page_size_range(1) [of k] this, of "snapMaxResponseBytes s"] obtain n where
    n: "n \<le> length all" "all \<noteq> [] \<longrightarrow> 0 < n"
      "cut_page ?size (take (nat (?size + 1)) all) = Some (take (nat ?size) all, ?size < int (length all))"
      "(?size < int (length all) \<or> n < length (take (nat ?size) all)) \<longleftrightarrow> n < length all" and
    trim: "(if 0 < snapMaxResponseBytes s then trimSolvesByBytes e ?rows (snapMaxResponseBytes s)
        else (?rows, False)) = (map solveFromDB (take n all), n < length (take (nat ?size) all))"
    unfolding trimSolvesByBytes_def by metis
  have last: "take n all \<noteq> [] \<and> sv_id (last (map solveFromDB (take n all))) = sf_id (all ! (n - 1))" if "n < length all"
    using that n(2) by (subst last_conv_nth) (auto simp: solveFromDB_def min_def)
  obtain got w1 where q: "run_state (exec_pool ?st) w = (got, w1)" by fastforce
  show thesis
  proof (cases got)
    case (Inl err)
    with q st have "faults w \<noteq> []" "committed w1 = committed w" by (auto simp: exec_pool_def Let_def split: fault.splits)
    with run q Inl failed [of err] show thesis by (simp add: snapshotSolves_def page_size_range)
  next
    case (Inr rows)
    with q st have w1: "rows = take (nat (?size + 1)) all" "committed w1 = committed w" "faults w1 = tl (faults w)"
      by (auto simp: exec_pool_def Let_def split: fault.splits)
    have "run_state (snapshotSolves s e u a c ?size) w = (Inr (page_answer (n < length all) entitySolve []
         (sf_id (all ! (n - 1))) [] (map solveFromDB (take n all)) c), w1)"
      using last
      by (cases "n < length all")
        (simp_all add: snapshotSolves_def page_size_range q Inr w1(1) n(3) trim n(4) page_answer_def Let_def del: length_take)
    with run w1 n page [of n] show thesis by simp
  qed
qed



subsection \<open>The endpoint\<close>

definition boot_rows :: "uuid \<Rightarrow> string \<Rightarrow> uuid \<Rightarrow> db \<Rightarrow> ((string \<times> uuid) \<times> document) list" where
  "boot_rows u entity a d =
     (if entity = entitySession then map session_item (rows_after cs_key u a (cube_sessions d))
      else map solve_item (rows_after sf_key u a (solves d)))"

definition boot_next :: "string \<Rightarrow> string" where
  "boot_next entity = (if entity = entitySession then entitySolve else [])"

definition watermark :: "uuid \<Rightarrow> boot_pos \<Rightarrow> db \<Rightarrow> int" where
  "watermark u pos d = (case pos of (entity, a, c) \<Rightarrow>
     if c \<le> 0 \<and> a = uuid_nil \<and> entity = entitySession then (case LatestChangeCursor u d of (Inr m, _) \<Rightarrow> m | _ \<Rightarrow> c) else c)"

lemma page_answer_sel:
  "sr_next_entity (page_answer h e1 e2 a ss vs c) = (if h then e1 else e2)"
  "sr_next_after_id (page_answer h e1 e2 a ss vs c) = (if h then a else uuid_nil)"
  "sr_cursor (page_answer h e1 e2 a ss vs c) = c"
  by (simp_all add: page_answer_def)

lemma item_lists:
  "snapshot_items (page_answer h e1 e2 a (map sessionFromDB rs) [] c) = map session_item rs"
  "snapshot_items (page_answer h e1 e2 a [] (map solveFromDB vs) c) = map solve_item vs"
  by (simp_all add: snapshot_items_def page_answer_def session_item_def solve_item_def sessionFromDB_def solveFromDB_def)

lemma entity_names [simp]: "entitySession \<noteq> entitySolve" "entitySolve \<noteq> entitySession" "entitySolve \<noteq> []" "entitySession \<noteq> []" "[] \<noteq> entitySolve" "[] \<noteq> entitySession"
  by (simp_all add: entitySession_def entitySolve_def)

lemma snapshot_ready_cong:
  "cube_sessions d' = cube_sessions d \<Longrightarrow> solves d' = solves d \<Longrightarrow> snapshot_ready e d' = snapshot_ready e d"
  by (simp add: snapshot_ready_def rows_ok_def)

lemma boot_request_simps:
  "sq_device (boot_request req (entity, a, c)) = sq_device req" "sq_page_size (boot_request req (entity, a, c)) = sq_page_size req"
  "sq_entity (boot_request req (entity, a, c)) = entity" "sq_after_id (boot_request req (entity, a, c)) = a"
  "sq_cursor (boot_request req (entity, a, c)) = c"
  by (simp_all add: boot_request_def)

text \<open>What a page holds, whatever happened to earlier requests.\<close>

lemma boot_page_answer:
  assumes run: "boot_page s e u req (entity, a, c) w = (Some (xs, has_more, pos'), w')"
    and ready: "snapshot_ready e (committed w)" and ent: "entity \<in> {entitySession, entitySolve}"
  obtains n where
    "committed w' = snd (UpsertDevice (db_now e) (d_id (sq_device req)) u (d_name (sq_device req)) (d_platform (sq_device req)) (committed w))"
    "n \<le> length (boot_rows u entity a (committed w))" "xs = take n (boot_rows u entity a (committed w))"
    "boot_rows u entity a (committed w) \<noteq> [] \<Longrightarrow> 0 < n"
    "n < length (boot_rows u entity a (committed w)) \<Longrightarrow>
      has_more \<and> pos' = (entity, snd (fst (boot_rows u entity a (committed w) ! (n - 1))), watermark u (entity, a, c) (committed w))"
    "n = length (boot_rows u entity a (committed w)) \<Longrightarrow>
      has_more = (entity = entitySession) \<and> pos' = (boot_next entity, uuid_nil, watermark u (entity, a, c) (committed w))"
proof -
  let ?up = "UpsertDevice (db_now e) (d_id (sq_device req)) u (d_name (sq_device req)) (d_platform (sq_device req))"
  let ?d = "committed w" and ?size = "snapshot_page_size (sq_page_size req)"
  let ?m = "watermark u (entity, a, c) ?d"
  from run obtain resp where r: "run_state (Snapshot s e u (boot_request req (entity, a, c))) w = (Inr resp, w')"
    "xs = snapshot_items resp" "has_more = (sr_next_entity resp \<noteq> [])"
    "pos' = (sr_next_entity resp, sr_next_after_id resp, sr_cursor resp)"
    by (auto simp: boot_page_def split: prod.splits sum.splits)
  from r(1) ent obtain x w1 where up: "run_state (exec_pool ?up) w = (Inr x, w1)"
    by (auto simp: Snapshot_def boot_request_def Let_def split: prod.splits sum.splits if_splits)
  have d1: "committed w1 = snd (?up ?d)" using exec_pool_Inr [OF up] by simp
  then have frame: "cube_sessions (committed w1) = cube_sessions ?d" "solves (committed w1) = solves ?d" "change_log (committed w1) = change_log ?d"
    by (simp_all add: UpsertDevice_def)
  let ?mark = "if c \<le> 0 \<and> a = uuid_nil \<and> entity = entitySession then exec_pool (LatestChangeCursor u) else State_Monad.return (Inr c)"
  have dev: "d_id (sq_device req) \<noteq> uuid_nil" using r(1) by (auto simp: Snapshot_def boot_request_def)
  have "run_state (Snapshot s e u (boot_request req (entity, a, c))) w = run_state (do { mark \<leftarrow> ?mark;
      case mark of Inl err \<Rightarrow> State_Monad.return (Inl (PgError err))
      | Inr m \<Rightarrow> if entity = entitySession then snapshotSessions s e u a m ?size else snapshotSolves s e u a m ?size }) w1"
    using ent dev up unfolding Snapshot_def boot_request_simps Let_def by (elim insertE) (simp_all split: prod.splits sum.splits)
  with r(1) obtain m w2 where mark: "run_state ?mark w1 = (Inr m, w2)"
    and tail': "run_state (if entity = entitySession then snapshotSessions s e u a m ?size else snapshotSolves s e u a m ?size) w2 = (Inr resp, w')"
    by (auto split: prod.splits sum.splits)
  have wm: "committed w2 = committed w1 \<and> m = ?m"
  proof (cases "c \<le> 0 \<and> a = uuid_nil \<and> entity = entitySession")
    case True
    with mark have "run_state (exec_pool (LatestChangeCursor u)) w1 = (Inr m, w2)" by simp
    from exec_pool_Inr [OF this] True show ?thesis
      by (simp add: LatestChangeCursor_def watermark_def Let_def frame(3))
  next
    case False
    with mark show ?thesis by (auto simp: watermark_def)
  qed
  note w2 = wm [THEN conjunct1] and m = wm [THEN conjunct2]
  note tail = tail' [unfolded m]
  have ready2: "snapshot_ready e (committed w2)" using ready frame w2 snapshot_ready_cong [of "committed w2" ?d e] by simp
  show thesis
  proof (cases "entity = entitySession")
    case True
    with tail have "run_state (snapshotSessions s e u a ?m ?size) w2 = (Inr resp, w')" by simp
    from this ready2 refl show thesis
    proof (cases rule: snapshotSessions_answer)
      case (page n)
      with that [of n] r d1 w2 frame True show thesis
        by (cases "n < length (rows_after cs_key u a (cube_sessions ?d))")
          (auto simp: boot_rows_def take_map item_lists page_answer_sel boot_next_def session_item_def)
    qed simp
  next
    case False
    with tail have "run_state (snapshotSolves s e u a ?m ?size) w2 = (Inr resp, w')" by simp
    from this ready2 refl show thesis
    proof (cases rule: snapshotSolves_answer)
      case (page n)
      with that [of n] r d1 w2 frame False ent show thesis
        by (cases "n < length (rows_after sf_key u a (solves ?d))")
          (auto simp: boot_rows_def take_map item_lists page_answer_sel boot_next_def solve_item_def)
    qed simp
  qed
qed


lemma boot_page_next:
  assumes p: "boot_page s e u req (entity, a, c) w = (Some (xs, True, pos'), w')"
    and ready: "snapshot_ready e (committed w)" and ent: "entity \<in> {entitySession, entitySolve}"
  shows "\<exists>n \<le> length (boot_rows u entity a (committed w)). xs = take n (boot_rows u entity a (committed w)) \<and>
      (boot_rows u entity a (committed w) \<noteq> [] \<longrightarrow> 0 < n) \<and>
      committed w' = snd (UpsertDevice (db_now e) (d_id (sq_device req)) u (d_name (sq_device req)) (d_platform (sq_device req)) (committed w)) \<and>
      (n < length (boot_rows u entity a (committed w)) \<and>
         pos' = (entity, snd (fst (boot_rows u entity a (committed w) ! (n - 1))), watermark u (entity, a, c) (committed w)) \<or>
       n = length (boot_rows u entity a (committed w)) \<and> entity = entitySession \<and>
         pos' = (entitySolve, uuid_nil, watermark u (entity, a, c) (committed w)))"
proof (rule boot_page_answer [OF p ready ent])
  fix n
  assume "n \<le> length (boot_rows u entity a (committed w))" "xs = take n (boot_rows u entity a (committed w))"
    "boot_rows u entity a (committed w) \<noteq> [] \<Longrightarrow> 0 < n"
    "committed w' = snd (UpsertDevice (db_now e) (d_id (sq_device req)) u (d_name (sq_device req)) (d_platform (sq_device req)) (committed w))"
    "n < length (boot_rows u entity a (committed w)) \<Longrightarrow>
      True \<and> pos' = (entity, snd (fst (boot_rows u entity a (committed w) ! (n - 1))), watermark u (entity, a, c) (committed w))"
    "n = length (boot_rows u entity a (committed w)) \<Longrightarrow>
      True = (entity = entitySession) \<and> pos' = (boot_next entity, uuid_nil, watermark u (entity, a, c) (committed w))"
  then show ?thesis by (intro exI [of _ n]) (auto simp: boot_next_def le_less)
qed

lemma boot_page_last:
  assumes p: "boot_page s e u req (entity, a, c) w = (Some (xs, False, pos'), w')"
    and ready: "snapshot_ready e (committed w)" and ent: "entity \<in> {entitySession, entitySolve}"
  shows "entity = entitySolve \<and> xs = boot_rows u entitySolve a (committed w) \<and>
    pos' = ([], uuid_nil, watermark u (entity, a, c) (committed w)) \<and>
    committed w' = snd (UpsertDevice (db_now e) (d_id (sq_device req)) u (d_name (sq_device req)) (d_platform (sq_device req)) (committed w))"
  by (rule boot_page_answer [OF p ready ent]) (use ent in \<open>auto simp: boot_next_def le_less\<close>)

text \<open>Without failures every page is answered.\<close>

definition boot_ok :: "env \<Rightarrow> uuid \<Rightarrow> SnapshotRequest \<Rightarrow> boot_pos \<Rightarrow> world \<Rightarrow> bool" where
  "boot_ok e u req pos w \<longleftrightarrow> fst pos \<in> {entitySession, entitySolve} \<and> faults w = [] \<and>
     snapshot_ready e (committed w) \<and> user_exists u (committed w) \<and> d_id (sq_device req) \<noteq> uuid_nil \<and>
     text_ok (d_name (sq_device req)) \<and> text_ok (d_platform (sq_device req))"

definition boot_items :: "uuid \<Rightarrow> boot_pos \<Rightarrow> world \<Rightarrow> ((string \<times> uuid) \<times> document) list" where
  "boot_items u pos w = (case pos of (entity, a, c) \<Rightarrow> boot_rows u entity a (committed w) @
     (if entity = entitySession then boot_rows u entitySolve uuid_nil (committed w) else []))"

definition boot_rank :: "uuid \<Rightarrow> boot_pos \<Rightarrow> world \<Rightarrow> nat" where
  "boot_rank u pos w = length (boot_items u pos w) + (if fst pos = entitySession then 1 else 0)"

lemma snapshotSessions_clean:
  assumes "faults w = []" "snapshot_ready e (committed w)"
  shows "\<exists>resp. run_state (snapshotSessions s e u a c (snapshot_page_size k)) w = (Inr resp, w)"
proof -
  obtain r w' where run: "run_state (snapshotSessions s e u a c (snapshot_page_size k)) w = (r, w')" by fastforce
  from this assms(2) refl show ?thesis
    by (cases rule: snapshotSessions_answer) (use run assms(1) in \<open>auto intro!: world.equality\<close>)
qed

lemma snapshotSolves_clean:
  assumes "faults w = []" "snapshot_ready e (committed w)"
  shows "\<exists>resp. run_state (snapshotSolves s e u a c (snapshot_page_size k)) w = (Inr resp, w)"
proof -
  obtain r w' where run: "run_state (snapshotSolves s e u a c (snapshot_page_size k)) w = (r, w')" by fastforce
  from this assms(2) refl show ?thesis
    by (cases rule: snapshotSolves_answer) (use run assms(1) in \<open>auto intro!: world.equality\<close>)
qed

lemma boot_page_clean:
  assumes ok: "boot_ok e u req pos w"
  shows "\<exists>p d'. boot_page s e u req pos w = (Some p, w\<lparr>committed := d'\<rparr>)"
proof -
  obtain entity a c where pos: "pos = (entity, a, c)" by (metis prod_cases3)
  let ?up = "UpsertDevice (db_now e) (d_id (sq_device req)) u (d_name (sq_device req)) (d_platform (sq_device req))"
  let ?w1 = "w\<lparr>committed := snd (?up (committed w))\<rparr>"
  have up: "run_state (exec_pool ?up) w = (Inr (), ?w1)"
    using ok by (simp add: boot_ok_def run_simps UpsertDevice_ok)
  have ready: "snapshot_ready e (committed ?w1)"
    using ok snapshot_ready_cong [of "snd (?up (committed w))" "committed w" e] by (simp add: boot_ok_def UpsertDevice_def)
  have cl: "faults ?w1 = []" using ok by (simp add: boot_ok_def)
  note pages = snapshotSessions_clean [OF cl ready] snapshotSolves_clean [OF cl ready]
  have "\<exists>resp. run_state (Snapshot s e u (boot_request req (entity, a, c))) w = (Inr resp, ?w1)"
    using ok pos up cl pages unfolding Snapshot_def boot_request_simps Let_def
    by (auto simp: boot_ok_def run_simps LatestChangeCursor_def Let_def)
  then show ?thesis by (auto simp: boot_page_def pos)
qed

lemma boot_rows_next:
  assumes "snapshot_ready e d" "0 < n" "n \<le> length (boot_rows u entity a d)"
  shows "boot_rows u entity (snd (fst (boot_rows u entity a d ! (n - 1)))) d = drop n (boot_rows u entity a d)"
  using assms rows_after_next [of cs_key "cube_sessions d" n u a] rows_after_next [of sf_key "solves d" n u a]
  by (auto simp: boot_rows_def snapshot_ready_def session_item_def solve_item_def cs_key_def sf_key_def drop_map)

lemma boot_rows_cong:
  "cube_sessions d' = cube_sessions d \<Longrightarrow> solves d' = solves d \<Longrightarrow> boot_rows u entity a d' = boot_rows u entity a d"
  by (simp add: boot_rows_def)

interpretation boot: paged_source "boot_ok e u req" "boot_items u" "boot_rank u" "boot_page s e u req" for s e u req
proof unfold_locales
  fix pos w xs pos' w'
  assume ok: "boot_ok e u req pos w"
  obtain entity a c where pos: "pos = (entity, a, c)" by (metis prod_cases3)
  have ready: "snapshot_ready e (committed w)" and ent: "entity \<in> {entitySession, entitySolve}"
    using ok pos by (auto simp: boot_ok_def)
  show "\<exists>xs has_more pos' w'. boot_page s e u req pos w = (Some (xs, has_more, pos'), w')"
    using boot_page_clean [OF ok] by (metis prod_cases3)
  show "boot_items u pos w = xs" if p: "boot_page s e u req pos w = (Some (xs, False, pos'), w')"
    using boot_page_last [OF p [unfolded pos] ready ent] pos by (auto simp: boot_items_def)
  assume p: "boot_page s e u req pos w = (Some (xs, True, pos'), w')"
  have clean: "faults w' = []" using boot_page_clean [OF ok, of s] p ok by (auto simp: boot_ok_def)
  let ?rows = "boot_rows u entity a (committed w)" and ?m = "watermark u (entity, a, c) (committed w)"
  from boot_page_next [OF p [unfolded pos] ready ent]
  obtain n where n: "n \<le> length ?rows" "xs = take n ?rows" "?rows \<noteq> [] \<longrightarrow> 0 < n"
    "committed w' = snd (UpsertDevice (db_now e) (d_id (sq_device req)) u (d_name (sq_device req)) (d_platform (sq_device req)) (committed w))"
    and nxt: "n < length ?rows \<and> pos' = (entity, snd (fst (?rows ! (n - 1))), ?m) \<or>
       n = length ?rows \<and> entity = entitySession \<and> pos' = (entitySolve, uuid_nil, ?m)"
    by blast
  have same: "cube_sessions (committed w') = cube_sessions (committed w)" "solves (committed w') = solves (committed w)"
    "users (committed w') = users (committed w)"
    unfolding n(4) by (simp_all add: UpsertDevice_def)
  have ok': "boot_ok e u req pos' w'"
    using ok clean same snapshot_ready_cong [OF same(1,2), of e] nxt ent
    by (auto simp: boot_ok_def user_exists_def)
  have rows: "boot_rows u ent' b (committed w') = boot_rows u ent' b (committed w)" for ent' b
    using boot_rows_cong same by blast
  have items: "boot_items u pos w = xs @ boot_items u pos' w'"
    using nxt
  proof
    assume more: "n < length ?rows \<and> pos' = (entity, snd (fst (?rows ! (n - 1))), ?m)"
    with n have "0 < n" by auto
    from boot_rows_next [OF ready this n(1)] more n(2) pos show ?thesis by (simp add: boot_items_def rows)
  qed (use n(1,2) pos in \<open>simp add: boot_items_def rows\<close>)
  then show "boot_ok e u req pos' w' \<and> boot_items u pos w = xs @ boot_items u pos' w'" using ok' by blast
  show "boot_rank u pos' w' < boot_rank u pos w"
    unfolding boot_rank_def items using nxt n pos by auto
qed

end
