(* ===== verification/Sync_Bootstrap.thy ===== *)
theory Sync_Bootstrap
  imports Sync_Snapshot
begin

text \<open>
  Bootstrap while others write. \<open>boot_run\<close> is the run of a client through the snapshot pages
  with calls of \<open>Sync\<close> by any user in between; its invariant is that what was scanned is what
  the change feed from the watermark completes.
\<close>

definition server_ok :: "env \<Rightarrow> db \<Rightarrow> bool" where
  "server_ok e d \<longleftrightarrow> tables_ok d \<and> rows_ok e d \<and> feed_ok d"

definition apply_item :: "int \<Rightarrow> replica \<Rightarrow> (string \<times> uuid) \<times> document \<Rightarrow> replica" where
  "apply_item pv R x = R(fst x \<mapsto> client_view pv (snd x))"

inductive boot_run :: "env \<Rightarrow> int \<Rightarrow> uuid \<Rightarrow> replica \<Rightarrow> boot_pos \<Rightarrow> db \<Rightarrow> bool" for e0 pv u where
  start: "server_ok e0 d \<Longrightarrow> boot_run e0 pv u Map.empty (entitySession, uuid_nil, 0) d"
| page: "boot_run e0 pv u R pos (committed w) \<Longrightarrow> unicode_lower e = unicode_lower e0 \<Longrightarrow>
     boot_page s e u req pos w = (Some (xs, True, pos'), w') \<Longrightarrow>
     boot_run e0 pv u (foldl (apply_item pv) R xs) pos' (committed w')"
| no_answer: "boot_run e0 pv u R pos (committed w) \<Longrightarrow> boot_page s e u req pos w = (None, w') \<Longrightarrow>
     boot_run e0 pv u R pos (committed w')"
| sync: "boot_run e0 pv u R pos (committed w) \<Longrightarrow> unicode_lower e = unicode_lower e0 \<Longrightarrow>
     run_state (Sync s e v req pv') w = (r, w') \<Longrightarrow> boot_run e0 pv u R pos (committed w')"

definition scanned :: "string \<Rightarrow> uuid \<Rightarrow> (string \<times> uuid) set" where
  "scanned entity a =
     {(entitySession, i) | i. i \<noteq> uuid_nil \<and> (entity = entitySession \<longrightarrow> i \<le> a)} \<union>
     {(entitySolve, i) | i. i \<noteq> uuid_nil \<and> entity = entitySolve \<and> i \<le> a}"


definition entity_keys :: "(string \<times> uuid) set" where
  "entity_keys = {(entity, i) | entity i. entity \<in> {entitySession, entitySolve} \<and> i \<noteq> uuid_nil}"


subsection \<open>The server's invariant\<close>

interpretation reading: transition_preorder "\<lambda>w w'. committed w' = committed w"
  by unfold_locales auto

lemma rows_ok_cong: "unicode_lower e' = unicode_lower e \<Longrightarrow> rows_ok e' d = rows_ok e d"
  by (simp add: rows_ok_def session_ok_def solve_ok_def validEvent_def)

lemma server_ok_Sync:
  assumes run: "run_state (Sync s e v req pv) w = (r, w')" and ok: "server_ok e0 (committed w)"
    and uni: "unicode_lower e = unicode_lower e0"
  shows "server_ok e0 (committed w')" "journaled (committed w) (committed w')"
  using state_io_relD [OF tables.service_Sync run] state_io_relD [OF rows.service_Sync run]
    state_io_relD [OF feed.service_Sync run] state_io_relD [OF journal.service_Sync run] ok rows_ok_cong [OF uni]
  by (auto simp: server_ok_def)

lemma server_ok_device:
  assumes "server_ok e0 d"
  shows "server_ok e0 (snd (UpsertDevice now i u name platform d))"
  using tables.R_device [of d now i u name platform] rows.R_device [of e0 d now i u name platform]
    feed.R_device [of d now i u name platform] assms
  by (auto simp: server_ok_def)

lemma server_ok_ready: "server_ok e0 d \<Longrightarrow> snapshot_ready e0 d"
  by (simp add: server_ok_def snapshot_ready_def tables_ok_def)


subsection \<open>What a page adds to the replica\<close>

lemma boot_rows_lookup:
  assumes "snapshot_ready e d" "entity \<in> {entitySession, entitySolve}" "a < i"
  shows "((entity, i), doc) \<in> set (boot_rows u entity a d) \<longleftrightarrow> replica_of u d (entity, i) = Some doc"
  using assms
  by (auto simp: boot_rows_def rows_after_def session_item_def solve_item_def replica_of_def snapshot_ready_def
      row_at_iff entitySession_def entitySolve_def cs_key_def sf_key_def image_iff)

lemma boot_rows_keys:
  assumes "x \<in> set (boot_rows u entity a d)"
  shows "a < snd (fst x)" "entity \<in> {entitySession, entitySolve} \<Longrightarrow> fst (fst x) = entity"
  using assms by (auto simp: boot_rows_def rows_after_def session_item_def solve_item_def cs_key_def sf_key_def split: if_splits)

lemma apply_items_last:
  "foldl (apply_item pv) R xs k = (case last_for fst k xs of None \<Rightarrow> R k | Some x \<Rightarrow> Some (client_view pv (snd x)))"
  using foldl_upd_last [of fst "\<lambda>x. client_view pv (snd x)" R xs k] by (simp add: apply_item_def [abs_def])

text \<open>
  A prefix of the rows answers for every position it covers: up to its last id, or all of
  them when nothing is left.
\<close>

definition covers :: "nat \<Rightarrow> ((string \<times> uuid) \<times> document) list \<Rightarrow> uuid \<Rightarrow> bool" where
  "covers n rows i \<longleftrightarrow> n = length rows \<or> (0 < n \<and> i \<le> snd (fst (rows ! (n - 1))))"

lemma covers_prefix:
  assumes "snapshot_ready e d" "j < n" "n \<le> length (boot_rows u entity a d)"
  shows "covers n (boot_rows u entity a d) (snd (fst (boot_rows u entity a d ! j)))"
proof -
  have "sorted_wrt (<) (map (\<lambda>x. snd (fst x)) (boot_rows u entity a d))"
    using rows_after_strict [of cs_key "cube_sessions d" u a] rows_after_strict [of sf_key "solves d" u a] assms(1)
    by (simp add: boot_rows_def snapshot_ready_def session_item_def solve_item_def cs_key_def sf_key_def comp_def)
  from sorted_wrt_nth_less [OF this, of j "n - 1"] assms(2,3)
  have "j < n - 1 \<longrightarrow> snd (fst (boot_rows u entity a d ! j)) < snd (fst (boot_rows u entity a d ! (n - 1)))"
    by simp
  moreover have "j < n - 1 \<or> j = n - 1" using assms(2) by linarith
  ultimately show ?thesis using assms(2) by (auto simp: covers_def)
qed

lemma page_lookup:
  assumes ready: "snapshot_ready e d" and ent: "entity \<in> {entitySession, entitySolve}"
    and n: "n \<le> length (boot_rows u entity a d)"
    and i: "a < i" "covers n (boot_rows u entity a d) i" and none: "R (entity, i) = None"
  shows "foldl (apply_item pv) R (take n (boot_rows u entity a d)) (entity, i) = client_replica pv u d (entity, i)"
proof -
  let ?rows = "boot_rows u entity a d"
  have no: "x \<notin> set (drop n ?rows)" if "fst x = (entity, i)" for x
  proof (cases "n = length ?rows")
    case False
    with i have c: "0 < n" "i \<le> snd (fst (?rows ! (n - 1)))" by (auto simp: covers_def)
    show ?thesis
      using boot_rows_next [OF ready c(1) n] boot_rows_keys(1) [of x u entity "snd (fst (?rows ! (n - 1)))" d] that c(2)
      by auto
  qed simp
  have "set ?rows = set (take n ?rows) \<union> set (drop n ?rows)"
    by (simp only: append_take_drop_id flip: set_append)
  then have mem: "x \<in> set (take n ?rows) \<longleftrightarrow> x \<in> set ?rows" if "fst x = (entity, i)" for x
    using no [OF that] by simp
  show ?thesis
  proof (cases "last_for fst (entity, i) (take n ?rows)")
    case None
    then have "((entity, i), doc) \<notin> set ?rows" for doc
      using mem [of "((entity, i), doc)"] by (auto simp: last_for_None)
    then have "replica_of u d (entity, i) = None" using boot_rows_lookup [OF ready ent i(1)] by auto
    with None none show ?thesis by (simp add: apply_items_last client_replica_def)
  next
    case (Some x)
    with last_for_Some [OF Some] mem [of x] have "((entity, i), snd x) \<in> set ?rows" by (metis prod.collapse)
    then have "replica_of u d (entity, i) = Some (snd x)" using boot_rows_lookup [OF ready ent i(1)] by blast
    with Some show ?thesis by (simp add: apply_items_last client_replica_def)
  qed
qed

lemma page_other:
  assumes "k \<notin> {(entity, i) | i. a < i}" "entity \<in> {entitySession, entitySolve}"
  shows "foldl (apply_item pv) R (take n (boot_rows u entity a d)) k = R k"
proof -
  have "fst x \<noteq> k" if "x \<in> set (take n (boot_rows u entity a d))" for x
    using boot_rows_keys [OF in_set_takeD [OF that]] assms by (cases k) force
  then have "last_for fst k (take n (boot_rows u entity a d)) = None" by (simp add: last_for_None)
  then show ?thesis by (simp add: apply_items_last)
qed


subsection \<open>The invariant of a run\<close>

definition boot_inv :: "env \<Rightarrow> int \<Rightarrow> uuid \<Rightarrow> replica \<Rightarrow> boot_pos \<Rightarrow> db \<Rightarrow> bool" where
  "boot_inv e0 pv u R pos d \<longleftrightarrow> server_ok e0 d \<and> fst pos \<in> {entitySession, entitySolve} \<and>
     client_ok pv u (scanned (fst pos) (fst (snd pos))) R (snd (snd pos)) d \<and>
     (\<forall>k. k \<notin> scanned (fst pos) (fst (snd pos)) \<longrightarrow> R k = None)"

lemma watermark_le:
  assumes "server_ok e0 d" "c \<le> change_seq d"
  shows "watermark u (entity, a, c) d \<le> change_seq d"
proof (cases "c \<le> 0 \<and> a = uuid_nil \<and> entity = entitySession")
  case True
  let ?ids = "map cl_change_id (filter (\<lambda>x. cl_user_id x = u) (change_log d))"
  have "Max (set ?ids) \<le> change_seq d" if "?ids \<noteq> []"
    using that assms(1) by (intro Max.boundedI) (auto simp: server_ok_def tables_ok_def log_ok_def filter_empty_conv)
  with True assms show ?thesis
    by (simp add: watermark_def LatestChangeCursor_def Let_def server_ok_def tables_ok_def log_ok_def del: set_map)
qed (use assms(2) in \<open>auto simp: watermark_def\<close>)

lemma scanned_start: "scanned entitySession uuid_nil = {}"
  by (auto simp: scanned_def)

lemma client_ok_watermark:
  assumes "boot_inv e0 pv u R (entity, a, c) d"
  shows "client_ok pv u (scanned entity a) R (watermark u (entity, a, c) d) d"
proof (cases "c \<le> 0 \<and> a = uuid_nil \<and> entity = entitySession")
  case True
  with assms watermark_le [of e0 d c u entity a] show ?thesis
    by (auto simp: boot_inv_def client_ok_def scanned_start)
qed (use assms in \<open>auto simp: boot_inv_def watermark_def\<close>)


text \<open>What a page of \<open>n\<close> rows does to the invariant; \<open>S\<close> is what is scanned after it.\<close>

lemma boot_inv_page:
  assumes inv: "boot_inv e0 pv u R (entity, a, c) d"
    and n: "n \<le> length (boot_rows u entity a d)"
    and S: "S = scanned entity a \<union> {(entity, i) | i. a < i \<and> covers n (boot_rows u entity a d) i}"
  shows "client_ok pv u S (foldl (apply_item pv) R (take n (boot_rows u entity a d))) (watermark u (entity, a, c) d) d"
    "\<forall>k. k \<notin> S \<longrightarrow> foldl (apply_item pv) R (take n (boot_rows u entity a d)) k = None"
proof -
  let ?R = "foldl (apply_item pv) R (take n (boot_rows u entity a d))"
  have ready: "snapshot_ready e0 d" and ent: "entity \<in> {entitySession, entitySolve}"
    and none: "\<And>k. k \<notin> scanned entity a \<Longrightarrow> R k = None"
    using inv server_ok_ready by (auto simp: boot_inv_def)
  have out: "(entity, i) \<notin> scanned entity a" if "a < i" for i using that ent by (auto simp: scanned_def)
  have "?R k = R k" if "k \<in> scanned entity a" for k
    using that out by (intro page_other [OF _ ent]) auto
  moreover have "?R (entity, i) = client_replica pv u d (entity, i)" if "a < i" "covers n (boot_rows u entity a d) i" for i
    using page_lookup [OF ready ent n that] none out [OF that(1)] by blast
  ultimately show "client_ok pv u S ?R (watermark u (entity, a, c) d) d"
    using client_ok_watermark [OF inv] by (auto simp: client_ok_def S)
  show "\<forall>k. k \<notin> S \<longrightarrow> ?R k = None"
  proof (intro allI impI)
    fix k assume k: "k \<notin> S"
    show "?R k = None"
    proof (cases "last_for fst k (take n (boot_rows u entity a d))")
      case None
      with k none S show ?thesis by (simp add: apply_items_last)
    next
      case (Some x)
      then obtain j where j: "j < n" "x = boot_rows u entity a d ! j" "fst x = k"
        using n by (auto dest!: last_for_Some simp: in_set_conv_nth)
      have "covers n (boot_rows u entity a d) (snd k)"
        using covers_prefix [OF ready j(1) n] j by simp
      moreover have "a < snd k" "fst k = entity"
        using boot_rows_keys [of x u entity a d] ent j n by auto
      ultimately show ?thesis using k S by (cases k) auto
    qed
  qed
qed


lemma scanned_more:
  assumes "a < a'" "entity \<in> {entitySession, entitySolve}" "0 < n" "n < length rows" "a' = snd (fst (rows ! (n - 1)))"
  shows "scanned entity a' = scanned entity a \<union> {(entity, i) | i. a < i \<and> covers n rows i}"
proof -
  have "covers n rows i \<longleftrightarrow> i \<le> a'" for i using assms by (simp add: covers_def)
  moreover have "i \<noteq> uuid_nil" if "a < i" for i using that by (auto simp: word_gt_0)
  ultimately show ?thesis using assms(1,2) by (auto simp: scanned_def not_le intro: order.trans less_imp_le)
qed

lemma scanned_sessions:
  "scanned entitySolve uuid_nil = scanned entitySession a \<union> {(entitySession, i) | i. a < i \<and> covers (length rows) rows i}"
proof -
  have "i \<noteq> uuid_nil" if "a < i" for i using that by (auto simp: word_gt_0)
  then show ?thesis by (auto simp: scanned_def covers_def)
qed

lemma scanned_all:
  "scanned entitySolve a \<union> {(entitySolve, i) | i. a < i \<and> covers (length rows) rows i} =
     entity_keys"
proof -
  have "i \<noteq> uuid_nil" if "a < i" for i using that by (auto simp: word_gt_0)
  then show ?thesis by (auto simp: scanned_def covers_def entity_keys_def)
qed

lemma no_other_entities:
  assumes "server_ok e0 d" "k \<notin> entity_keys"
  shows "client_replica pv u d k = None"
proof -
  have "row_at cs_key (u, uuid_nil) (cube_sessions d) = None" "row_at sf_key (u, uuid_nil) (solves d) = None"
    using assms(1) by (auto simp: server_ok_def rows_ok_def session_ok_def solve_ok_def row_at_None cs_key_def sf_key_def)
  with assms(2) show ?thesis
    by (cases k) (auto simp: client_replica_def replica_of_def entity_keys_def entitySession_def entitySolve_def)
qed

lemma reading_pool:
  "(\<And>d. snd (st d) = d) \<Longrightarrow> state_io_rel (\<lambda>w w'. committed w' = committed w) (exec_pool st)"
  by (auto simp: state_io_rel_def exec_pool_def Let_def split: fault.splits)

lemma snapshot_reads:
  "snd (SnapshotSessionsKeyset v a l d) = d" "snd (SnapshotSolvesKeyset v a l d) = d" "snd (LatestChangeCursor v d) = d"
  by (simp_all add: SnapshotSessionsKeyset_def SnapshotSolvesKeyset_def LatestChangeCursor_def Let_def)

lemma reading_pages:
  "state_io_rel (\<lambda>w w'. committed w' = committed w) (snapshotSessions s e u a c k)"
  "state_io_rel (\<lambda>w w'. committed w' = committed w) (snapshotSolves s e u a c k)"
  unfolding snapshotSessions_def snapshotSolves_def
  by (auto intro!: reading.io_bind reading.io_sum reading.io_return reading_pool
      simp: snapshot_reads Let_def split: option.splits prod.splits)

lemma Snapshot_data:
  assumes r: "run_state (Snapshot s e u req) w = (r, w')"
  shows "committed w' = committed w \<or>
    committed w' = snd (UpsertDevice (db_now e) (d_id (sq_device req)) u (d_name (sq_device req)) (d_platform (sq_device req)) (committed w))"
proof (cases "d_id (sq_device req) \<noteq> uuid_nil \<and> sq_entity req \<in> {entitySession, entitySolve, []}")
  case False
  with r have "w' = w" by (auto simp: Snapshot_def split: if_splits)
  then show ?thesis by simp
next
  case True
  let ?up = "UpsertDevice (db_now e) (d_id (sq_device req)) u (d_name (sq_device req)) (d_platform (sq_device req))"
  have "\<exists>K. Snapshot s e u req = State_Monad.bind (exec_pool ?up) K \<and>
      (\<forall>x. state_io_rel (\<lambda>w w'. committed w' = committed w) (K x))"
  proof -
    have g: "(d_id (sq_device req) = uuid_nil) = False"
        "(sq_entity req \<noteq> entitySession \<and> sq_entity req \<noteq> entitySolve \<and> sq_entity req \<noteq> []) = False" using True by auto
    show ?thesis
      unfolding Snapshot_def Let_def g if_False
      by (rule exI, rule conjI, rule refl)
        (auto intro!: reading.io_bind reading.io_sum reading.io_return reading_pool reading_pages simp: snapshot_reads)
  qed
  then obtain K where K: "Snapshot s e u req = State_Monad.bind (exec_pool ?up) K"
    "\<And>x. state_io_rel (\<lambda>w w'. committed w' = committed w) (K x)" by blast
  obtain up w1 where q: "run_state (exec_pool ?up) w = (up, w1)" by fastforce
  then have w1: "committed w1 = committed w \<or> committed w1 = snd (?up (committed w))"
    by (auto simp: exec_pool_def Let_def split: fault.splits)
  from r K(1) q have "run_state (K up) w1 = (r, w')" by simp
  with state_io_relD [OF K(2)] w1 show ?thesis by metis
qed

lemma boot_page_data:
  assumes "boot_page s e u req pos w = (p, w')"
  shows "committed w' = committed w \<or>
    committed w' = snd (UpsertDevice (db_now e) (d_id (sq_device req)) u (d_name (sq_device req)) (d_platform (sq_device req)) (committed w))"
proof -
  obtain entity a c where pos: "pos = (entity, a, c)" by (metis prod_cases3)
  obtain r where "run_state (Snapshot s e u (boot_request req pos)) w = (r, w')"
    using assms by (auto simp: boot_page_def split: prod.splits sum.splits)
  from Snapshot_data [OF this] show ?thesis by (simp add: pos boot_request_simps)
qed

lemma client_ok_device:
  assumes "client_ok pv v S R c d"
  shows "client_ok pv v S R c (snd (UpsertDevice now i u name platform d))"
  using assms by (rule client_ok_same) (simp_all add: UpsertDevice_def)

lemma boot_run_inv: "boot_run e0 pv u R pos d \<Longrightarrow> boot_inv e0 pv u R pos d"
proof (induction rule: boot_run.induct)
  case (start d)
  then show ?case
    by (auto simp: boot_inv_def scanned_start client_ok_def server_ok_def tables_ok_def log_ok_def)
next
  case (page R pos w e s req xs pos' w')
  obtain entity a c where pos: "pos = (entity, a, c)" by (metis prod_cases3)
  have ok: "server_ok e0 (committed w)" and ent: "entity \<in> {entitySession, entitySolve}"
    using page.IH pos by (auto simp: boot_inv_def)
  have ready: "snapshot_ready e (committed w)"
    using server_ok_ready [OF ok] rows_ok_cong [OF page.hyps(2)] by (simp add: snapshot_ready_def)
  let ?rows = "boot_rows u entity a (committed w)" and ?m = "watermark u (entity, a, c) (committed w)"
  from boot_page_next [OF page.hyps(3) [unfolded pos] ready ent] obtain n where n: "n \<le> length ?rows" "xs = take n ?rows"
    "?rows \<noteq> [] \<longrightarrow> 0 < n" and dev: "committed w' = snd (UpsertDevice (db_now e) (d_id (sq_device req)) u (d_name (sq_device req))
        (d_platform (sq_device req)) (committed w))"
    and nxt: "n < length ?rows \<and> pos' = (entity, snd (fst (?rows ! (n - 1))), ?m) \<or>
       n = length ?rows \<and> entity = entitySession \<and> pos' = (entitySolve, uuid_nil, ?m)"
    by blast
  let ?S = "scanned entity a \<union> {(entity, i) | i. a < i \<and> covers n ?rows i}"
  have S: "scanned (fst pos') (fst (snd pos')) = ?S"
    using nxt
  proof
    assume more: "n < length ?rows \<and> pos' = (entity, snd (fst (?rows ! (n - 1))), ?m)"
    then have n0: "0 < n" using n(3) by auto
    then have "a < snd (fst (?rows ! (n - 1)))" using more by (intro boot_rows_keys(1) [of _ u entity _ "committed w"]) auto
    from scanned_more [OF this ent n0 _ refl] more show ?thesis by simp
  qed (auto simp: scanned_sessions)
  have "snd (snd pos') = ?m" "fst pos' \<in> {entitySession, entitySolve}" using nxt ent by auto
  with boot_inv_page [OF page.IH [unfolded pos] n(1) refl] server_ok_device [OF ok] S show ?case
    unfolding boot_inv_def dev n(2) by (auto intro: client_ok_device)
next
  case (no_answer R pos w s e req w')
  from boot_page_data [OF no_answer.hyps(2)] no_answer.IH show ?case
    by (auto simp: boot_inv_def server_ok_device client_ok_device)
next
  case (sync R pos w e s v req pv' r w')
  then show ?case
    using server_ok_Sync [OF sync.hyps(3) _ sync.hyps(2)]
    by (auto simp: boot_inv_def intro: client_ok_journaled simp: server_ok_def tables_ok_def)
qed


text \<open>When the last page arrives, the replica and the watermark are a client of the change feed.\<close>

lemma boot_run_done:
  assumes run: "boot_run e0 pv u R pos (committed w)" and uni: "unicode_lower e = unicode_lower e0"
    and last: "boot_page s e u req pos w = (Some (xs, False, (next_entity, next_id, c)), w')"
  shows "client_ok pv u UNIV (foldl (apply_item pv) R xs) c (committed w')" "server_ok e0 (committed w')"
proof -
  obtain entity a c0 where pos: "pos = (entity, a, c0)" by (metis prod_cases3)
  note inv = boot_run_inv [OF run, unfolded pos]
  have ok: "server_ok e0 (committed w)" and ent: "entity \<in> {entitySession, entitySolve}"
    using inv by (auto simp: boot_inv_def)
  have ready: "snapshot_ready e (committed w)"
    using server_ok_ready [OF ok] rows_ok_cong [OF uni] by (simp add: snapshot_ready_def)
  let ?rows = "boot_rows u entitySolve a (committed w)"
  note fin = boot_page_last [OF last [unfolded pos] ready ent]
  from fin have eqs: "entity = entitySolve" "xs = ?rows" "c = watermark u (entity, a, c0) (committed w)"
    "committed w' = snd (UpsertDevice (db_now e) (d_id (sq_device req)) u (d_name (sq_device req)) (d_platform (sq_device req)) (committed w))"
    by auto
  note page = boot_inv_page [OF inv [unfolded eqs(1)] order_refl refl, unfolded scanned_all take_all [OF order_refl], folded eqs(1)]
  have "client_ok pv u UNIV (foldl (apply_item pv) R xs) c (committed w)"
    unfolding client_ok_def
  proof (intro conjI ballI impI)
    show "c \<le> change_seq (committed w)" using page(1) eqs by (simp add: client_ok_def)
  next
    fix k assume "last_for entry_key k (changes_after u c (committed w)) = None"
    with page(1) page(2) [rule_format, of k] no_other_entities [OF ok, of k pv u] eqs
    show "foldl (apply_item pv) R xs k = client_replica pv u (committed w) k"
      by (cases "k \<in> entity_keys") (simp_all add: client_ok_def)
  qed
  then show "client_ok pv u UNIV (foldl (apply_item pv) R xs) c (committed w')"
    unfolding eqs(4) by (rule client_ok_device)
  show "server_ok e0 (committed w')" unfolding eqs(4) by (rule server_ok_device [OF ok])
qed

end
