(* ===== verification/Retention.thy ===== *)
theory Retention
  imports Sync_Bootstrap
begin

text \<open>
  The background pruning of \<open>internal/sync/retention.go\<close>: \<open>runOnce\<close> removes the log entries
  that every active device of a user has acknowledged, and old processed mutations. The ticker
  loop around it only decides when it runs.

  \<open>pruned\<close> is what a run may do. It keeps the schema and the truth of the log, and it keeps a
  client tied to the database as long as its device is active and has not acknowledged more than
  the client has.
\<close>

record RetentionService =
  retInactiveDeviceWindow :: duration

text \<open>The body of the loop over the users; every error is logged and skipped.\<close>

definition pruneUser :: "time \<Rightarrow> uuid \<Rightarrow> (world, unit) state" where
  "pruneUser cutoff userID = do {
     got \<leftarrow> exec_pool (MinValidCursorForUser userID cutoff);
     case got of
       Inl _ \<Rightarrow> State_Monad.return ()
     | Inr minCursor \<Rightarrow>
         if minCursor \<le> 0 then State_Monad.return ()
         else do {
           _ \<leftarrow> exec_pool (PruneChangeLog userID minCursor);
           _ \<leftarrow> exec_pool (PruneProcessedMutations userID cutoff);
           State_Monad.return ()
         }
   }"

fun pruneUsers :: "time \<Rightarrow> uuid list \<Rightarrow> (world, unit) state" where
  "pruneUsers cutoff [] = State_Monad.return ()"
| "pruneUsers cutoff (userID # userIDs) = do {
     _ \<leftarrow> pruneUser cutoff userID;
     pruneUsers cutoff userIDs
   }"

definition runOnce :: "RetentionService \<Rightarrow> env \<Rightarrow> (world, unit) state" where
  "runOnce s e = do {
     got \<leftarrow> exec_pool ListUsersWithChanges;
     case got of
       Inl _ \<Rightarrow> State_Monad.return ()
     | Inr userIDs \<Rightarrow>
         pruneUsers (go_now e - effectiveInactiveWindow (retInactiveDeviceWindow s)) userIDs
   }"

definition active :: "time \<Rightarrow> uuid \<Rightarrow> DeviceRow \<Rightarrow> bool" where
  "active cutoff u r \<longleftrightarrow> dv_user_id r = u \<and> cutoff < dv_last_seen_at r"

definition pruned :: "time \<Rightarrow> db \<Rightarrow> db \<Rightarrow> bool" where
  "pruned cutoff d d' \<longleftrightarrow>
     (\<exists>horizon keep. d' = d\<lparr>change_log := filter (\<lambda>c. horizon (cl_user_id c) \<le> cl_change_id c) (change_log d),
            processed_mutations := filter keep (processed_mutations d)\<rparr> \<and>
        (\<forall>u r. r \<in> set (devices d) \<longrightarrow> active cutoff u r \<longrightarrow> horizon u \<le> max 0 (dv_last_ack_cursor r)) \<and>
        (\<forall>p. cutoff \<le> pm_created_at p \<longrightarrow> keep p))"


subsection \<open>A run only prunes\<close>

lemma pruned_refl: "pruned cutoff d d"
proof -
  let ?h = "Min (insert 0 (cl_change_id ` set (change_log d)))"
  have "filter (\<lambda>c. ?h \<le> cl_change_id c) (change_log d) = change_log d" by (simp add: filter_id_conv)
  moreover have "?h \<le> 0" by simp
  ultimately show ?thesis
    unfolding pruned_def by (intro exI [of _ "\<lambda>_. ?h"] exI [of _ "\<lambda>_. True"]) (auto simp: le_max_iff_disj)
qed

lemma pruned_trans:
  assumes "pruned cutoff d d1" "pruned cutoff d1 d2"
  shows "pruned cutoff d d2"
proof -
  from assms obtain h1 k1 h2 k2 where
    d1: "d1 = d\<lparr>change_log := filter (\<lambda>c. h1 (cl_user_id c) \<le> cl_change_id c) (change_log d),
            processed_mutations := filter k1 (processed_mutations d)\<rparr>" and
    d2: "d2 = d1\<lparr>change_log := filter (\<lambda>c. h2 (cl_user_id c) \<le> cl_change_id c) (change_log d1),
            processed_mutations := filter k2 (processed_mutations d1)\<rparr>" and
    h: "\<forall>u r. r \<in> set (devices d) \<longrightarrow> active cutoff u r \<longrightarrow> h1 u \<le> max 0 (dv_last_ack_cursor r)"
      "\<forall>u r. r \<in> set (devices d1) \<longrightarrow> active cutoff u r \<longrightarrow> h2 u \<le> max 0 (dv_last_ack_cursor r)" and
    k: "\<forall>p. cutoff \<le> pm_created_at p \<longrightarrow> k1 p" "\<forall>p. cutoff \<le> pm_created_at p \<longrightarrow> k2 p"
    unfolding pruned_def by blast
  show ?thesis
    unfolding pruned_def
  proof (intro exI conjI allI impI)
    show "d2 = d\<lparr>change_log := filter (\<lambda>c. max (h1 (cl_user_id c)) (h2 (cl_user_id c)) \<le> cl_change_id c) (change_log d),
            processed_mutations := filter (\<lambda>p. k1 p \<and> k2 p) (processed_mutations d)\<rparr>"
      unfolding d2 d1 by (simp add: conj_commute)
  qed (use h k d1 in auto)
qed

interpretation pruning: transition_preorder "\<lambda>w w'. pruned cutoff (committed w) (committed w')" for cutoff
  by unfold_locales (blast intro: pruned_refl pruned_trans)+

lemma MinValid_bound:
  assumes "MinValidCursorForUser u cutoff d = (Inr m, d')" "r \<in> set (devices d)" "active cutoff u r"
  shows "m \<le> dv_last_ack_cursor r"
proof -
  let ?acks = "map dv_last_ack_cursor (filter (\<lambda>r. dv_user_id r = u \<and> cutoff < dv_last_seen_at r) (devices d))"
  have "dv_last_ack_cursor r \<in> set ?acks" using assms(2,3) by (auto simp: active_def)
  moreover from this have "m = Min (set ?acks)"
    using assms(1) by (auto simp: MinValidCursorForUser_def Let_def filter_empty_conv)
  ultimately show ?thesis by simp
qed

lemma pruned_log:
  assumes "\<And>r. r \<in> set (devices d) \<Longrightarrow> active cutoff u r \<Longrightarrow> m \<le> dv_last_ack_cursor r"
  shows "pruned cutoff d (snd (PruneChangeLog u m d))"
proof -
  let ?low = "Min (insert 0 (cl_change_id ` set (change_log d)))"
  have low: "?low \<le> cl_change_id c" if "c \<in> set (change_log d)" for c using that by simp
  have "?low \<le> 0" by simp
  have eq: "filter (\<lambda>c. \<not> (cl_user_id c = u \<and> cl_change_id c < m)) (change_log d) =
      filter (\<lambda>c. (if cl_user_id c = u then m else ?low) \<le> cl_change_id c) (change_log d)"
    using low by (intro filter_cong refl) auto
  show ?thesis
    unfolding pruned_def
  proof (intro exI conjI allI impI)
    show "snd (PruneChangeLog u m d) = d\<lparr>change_log := filter (\<lambda>c. (if cl_user_id c = u then m else ?low) \<le> cl_change_id c) (change_log d),
            processed_mutations := filter (\<lambda>_. True) (processed_mutations d)\<rparr>"
      unfolding eq [symmetric] by (simp add: PruneChangeLog_def Let_def delete_where_def)
  qed (use assms \<open>?low \<le> 0\<close> in \<open>auto simp: le_max_iff_disj\<close>)
qed

lemma pruned_mutations: "pruned cutoff d (snd (PruneProcessedMutations u cutoff d))"
proof -
  let ?low = "Min (insert 0 (cl_change_id ` set (change_log d)))"
  have "?low \<le> 0" by simp
  show ?thesis
    unfolding pruned_def
  proof (intro exI conjI allI impI)
    show "snd (PruneProcessedMutations u cutoff d) = d\<lparr>change_log := filter (\<lambda>c. ?low \<le> cl_change_id c) (change_log d),
            processed_mutations := filter (\<lambda>p. \<not> (pm_user_id p = u \<and> pm_created_at p < cutoff)) (processed_mutations d)\<rparr>"
      by (simp add: PruneProcessedMutations_def Let_def delete_where_def filter_id_conv)
  qed (use \<open>?low \<le> 0\<close> in \<open>auto simp: le_max_iff_disj\<close>)
qed

lemma exec_pool_committed:
  "run_state (exec_pool st) w = (r, w') \<Longrightarrow> committed w' = committed w \<or> committed w' = snd (st (committed w))"
  by (auto simp: exec_pool_def Let_def split: fault.splits)

lemma pruneUser_pruned: "state_io_rel (\<lambda>w w'. pruned cutoff (committed w) (committed w')) (pruneUser cutoff u)"
proof (rule state_io_relI)
  fix w x w'
  assume run: "run_state (pruneUser cutoff u) w = (x, w')"
  obtain got w1 where got: "run_state (exec_pool (MinValidCursorForUser u cutoff)) w = (got, w1)" by fastforce
  have w1: "committed w1 = committed w"
    using exec_pool_committed [OF got] by (simp add: MinValidCursorForUser_def Let_def)
  show "pruned cutoff (committed w) (committed w')"
  proof (cases "\<exists>m. got = Inr m \<and> 0 < m")
    case False
    with run got w1 show ?thesis by (auto simp: pruneUser_def pruned_refl split: sum.splits)
  next
    case True
    then obtain m where m: "got = Inr m" "0 < m" by blast
    obtain a w2 b w3 where steps: "run_state (exec_pool (PruneChangeLog u m)) w1 = (a, w2)"
      "run_state (exec_pool (PruneProcessedMutations u cutoff)) w2 = (b, w3)" by fastforce
    from run got m steps have "w' = w3" by (simp add: pruneUser_def)
    have "m \<le> dv_last_ack_cursor r" if "r \<in> set (devices (committed w1))" "active cutoff u r" for r
      using MinValid_bound [of u cutoff "committed w" m _ r] exec_pool_Inr [OF got [unfolded m(1)]] that w1 by simp
    from pruned_log [OF this] exec_pool_committed [OF steps(1)] have "pruned cutoff (committed w1) (committed w2)"
      using pruned_refl by metis
    moreover have "pruned cutoff (committed w2) (committed w3)"
      using exec_pool_committed [OF steps(2)] pruned_mutations pruned_refl by metis
    ultimately show ?thesis using w1 \<open>w' = w3\<close> pruned_trans by metis
  qed
qed

lemma pruneUsers_pruned:
  "state_io_rel (\<lambda>w w'. pruned cutoff (committed w) (committed w')) (pruneUsers cutoff us)"
  by (induction us) (auto intro!: pruning.io_return pruning.io_bind pruneUser_pruned)

lemma runOnce_pruned:
  "state_io_rel (\<lambda>w w'. pruned (go_now e - effectiveInactiveWindow (retInactiveDeviceWindow s)) (committed w) (committed w'))
     (runOnce s e)"
proof -
  have "state_io_rel (\<lambda>w w'. pruned cutoff (committed w) (committed w')) (exec_pool ListUsersWithChanges)" for cutoff
    by (rule state_io_relI) (auto dest!: exec_pool_committed simp: ListUsersWithChanges_def pruned_refl)
  then show ?thesis
    unfolding runOnce_def by (intro pruning.io_bind pruning.io_sum pruning.io_return pruneUsers_pruned)
qed



subsection \<open>What pruning keeps\<close>

lemma log_ok_pruned: "pruned cutoff d d' \<Longrightarrow> log_ok d \<Longrightarrow> log_ok d'"
  by (auto simp: pruned_def log_ok_def sorted_wrt_map sorted_wrt_filter)

lemma tables_ok_pruned:
  assumes "pruned cutoff d d'" "tables_ok d"
  shows "tables_ok d'"
proof -
  have "session_ref_ok v ref (d\<lparr>change_log := l, processed_mutations := p\<rparr>) = session_ref_ok v ref d" for v ref l p
    by (simp add: session_ref_ok_def split: option.splits)
  with assms log_ok_pruned [OF assms(1)] show ?thesis
    by (auto simp: pruned_def tables_ok_def refs_ok_def outcomes_ok_def keys_distinct_filter)
qed

lemma pruned_replica: "pruned cutoff d d' \<Longrightarrow> replica_of u d' = replica_of u d"
  by (auto simp: pruned_def replica_of_def)

lemma pruned_user_log:
  assumes "pruned cutoff d d'"
  shows "\<exists>h. (\<forall>u. user_log u d' = filter (\<lambda>c. h u \<le> cl_change_id c) (user_log u d)) \<and>
    (\<forall>u r. r \<in> set (devices d) \<longrightarrow> active cutoff u r \<longrightarrow> h u \<le> max 0 (dv_last_ack_cursor r))"
proof -
  from assms obtain h k where h: "d' = d\<lparr>change_log := filter (\<lambda>c. h (cl_user_id c) \<le> cl_change_id c) (change_log d),
            processed_mutations := filter k (processed_mutations d)\<rparr>"
      "\<forall>u r. r \<in> set (devices d) \<longrightarrow> active cutoff u r \<longrightarrow> h u \<le> max 0 (dv_last_ack_cursor r)"
    unfolding pruned_def by blast
  have "user_log u d' = filter (\<lambda>c. h u \<le> cl_change_id c) (user_log u d)" for u
    unfolding h(1) by (auto simp: user_log_def intro!: filter_cong)
  with h(2) show ?thesis by blast
qed

lemma feed_ok_pruned:
  assumes p: "pruned cutoff d d'" and "feed_ok d" "log_ok d"
  shows "feed_ok d'"
proof -
  from pruned_user_log [OF p] obtain h where
    h: "\<forall>u. user_log u d' = filter (\<lambda>c. h u \<le> cl_change_id c) (user_log u d)" by blast
  have "last_for entry_key k (user_log u d) = Some c" if "last_for entry_key k (user_log u d') = Some c" for u k c
  proof -
    have eq: "h u - 1 < cl_change_id x \<longleftrightarrow> h u \<le> cl_change_id x" for x by auto
    have split: "user_log u d = filter (\<lambda>x. cl_change_id x \<le> h u - 1) (user_log u d) @ user_log u d'"
    proof -
      have "sorted_wrt (<) (map cl_change_id (user_log u d))"
        using assms(3) by (simp add: user_log_def log_ok_def sorted_wrt_map sorted_wrt_filter)
      from sorted_split [OF this, of "h u - 1"] show ?thesis by (simp only: h eq)
    qed
    show ?thesis by (subst split) (simp add: last_for_append that)
  qed
  moreover have "set (change_log d') \<subseteq> set (change_log d)" using p by (auto simp: pruned_def)
  ultimately show ?thesis
    using assms(2) by (simp add: feed_ok_def log_current_def pruned_replica [OF p] subset_iff)
qed

lemma server_ok_pruned: "pruned cutoff d d' \<Longrightarrow> server_ok e0 d \<Longrightarrow> server_ok e0 d'"
  unfolding server_ok_def
  using tables_ok_pruned [of cutoff d d'] feed_ok_pruned [of cutoff d d']
  by (auto simp: tables_ok_def) (auto simp: pruned_def rows_ok_def)

lemma changes_after_pruned:
  assumes p: "pruned cutoff d d'" and log: "log_ok d" and r: "r \<in> set (devices d)" "active cutoff u r"
    and c: "dv_last_ack_cursor r \<le> c" "0 \<le> c"
  shows "changes_after u c d' = changes_after u c d"
proof -
  from pruned_user_log [OF p] obtain h where
    h: "\<forall>u. user_log u d' = filter (\<lambda>c. h u \<le> cl_change_id c) (user_log u d)" and
    ack: "\<forall>u r. r \<in> set (devices d) \<longrightarrow> active cutoff u r \<longrightarrow> h u \<le> max 0 (dv_last_ack_cursor r)" by blast
  have "h u \<le> c" using ack r c by fastforce
  then show ?thesis
    by (auto simp: changes_after_log [OF log] changes_after_log [OF log_ok_pruned [OF p log]] h intro!: filter_cong)
qed

lemma client_ok_pruned:
  assumes "pruned cutoff d d'" "log_ok d" "r \<in> set (devices d)" "active cutoff u r"
    "dv_last_ack_cursor r \<le> c" "0 \<le> c" "client_ok pv u S R c d"
  shows "client_ok pv u S R c d'"
proof -
  have "change_seq d' = change_seq d" using assms(1) by (auto simp: pruned_def)
  with assms(7) show ?thesis
    by (simp add: client_ok_def client_replica_def changes_after_pruned [OF assms(1-6)] pruned_replica [OF assms(1)])
qed

end
