(* ===== verification/Sync_Server.thy ===== *)
theory Sync_Server
  imports Retention
begin

text \<open>
  The synchronization part of the server as a transition system on the committed database: any
  call of \<open>Sync\<close> and \<open>Snapshot\<close> and any run of the retention loop, each with any connection
  failures. \<open>server_ok\<close> is its invariant. Then what a single call promises its client: the page
  of changes it answers, and what an error leaves behind.
\<close>

interpretation data: transition_preorder "\<lambda>w w'. same_data (committed w) (committed w')"
  by unfold_locales (auto intro: same_data_trans)

inductive sync_call :: "env \<Rightarrow> db \<Rightarrow> db \<Rightarrow> bool" for e0 where
  "unicode_lower e = unicode_lower e0 \<Longrightarrow> run_state (Sync s e v req pv) w = (r, w') \<Longrightarrow>
   sync_call e0 (committed w) (committed w')"

inductive server_step :: "env \<Rightarrow> db \<Rightarrow> db \<Rightarrow> bool" for e0 where
  sync: "sync_call e0 d d' \<Longrightarrow> server_step e0 d d'"
| snapshot: "run_state (Snapshot s e v req) w = (r, w') \<Longrightarrow> server_step e0 (committed w) (committed w')"
| retention: "run_state (runOnce s e) w = (r, w') \<Longrightarrow> server_step e0 (committed w) (committed w')"

lemma server_ok_step:
  assumes "server_step e0 d d'" "server_ok e0 d"
  shows "server_ok e0 d'"
  using assms
proof (cases rule: server_step.cases)
  case sync
  then show ?thesis using assms(2) by (auto elim!: sync_call.cases dest: server_ok_Sync)
next
  case (snapshot s e v req w r w')
  with Snapshot_data [OF snapshot(3)] assms(2) show ?thesis by (auto intro: server_ok_device)
next
  case (retention s e w r w')
  with state_io_relD [OF runOnce_pruned retention(3)] assms(2) show ?thesis by (auto intro: server_ok_pruned)
qed

lemma sync_calls_journaled:
  assumes "(sync_call e0)\<^sup>*\<^sup>* d d'" "server_ok e0 d"
  shows "journaled d d' \<and> server_ok e0 d'"
  using assms
proof (induction rule: rtranclp_induct)
  case base
  then show ?case by (simp add: journaled_refl)
next
  case (step d1 d2)
  then show ?case
    by (auto elim!: sync_call.cases dest: server_ok_Sync intro: journaled_trans)
qed

lemma client_ok_sync_calls:
  assumes "(sync_call e0)\<^sup>*\<^sup>* d d'" "server_ok e0 d" "client_ok pv u S R c d"
  shows "client_ok pv u S R c d'"
  using sync_calls_journaled [OF assms(1,2)] assms(2,3)
  by (auto simp: server_ok_def tables_ok_def intro: client_ok_journaled)

subsection \<open>The answer of a call\<close>

lemma pullOnly_answer:
  assumes run: "run_state (pullOnly s e u req limit pv) w = (Inr resp, w')"
  shows "\<exists>fetched. ListChanges u (rq_cursor req) (int32 (limit + 1)) (committed w') = (Inr fetched, committed w') \<and>
      change_page s e limit (rq_cursor req) pv fetched = Some (rs_changes resp, rs_has_more resp, rs_next_cursor resp)"
proof -
  from run obtain w1 fetched w2 where
    list: "run_state (exec_pool (ListChanges u (rq_cursor req) (int32 (limit + 1)))) w1 = (Inr fetched, w2)"
    and page: "change_page s e limit (rq_cursor req) pv fetched = Some (rs_changes resp, rs_has_more resp, rs_next_cursor resp)"
    and ack: "w' = w2 \<or> (\<exists>a. run_state (exec_pool (UpdateDeviceAckCursor u (d_id (rq_device req)) (rq_cursor req))) w2 = (a, w'))"
    by (auto simp: pullOnly_def split: prod.splits sum.splits option.splits if_splits)
  have w2: "fst (ListChanges u (rq_cursor req) (int32 (limit + 1)) (committed w1)) = Inr fetched" "committed w2 = committed w1"
    using exec_pool_Inr [OF list] by (auto simp: ListChanges_def split: if_splits)
  have "change_log (committed w') = change_log (committed w1)"
    using ack w2(2) by (auto dest!: exec_pool_committed simp: UpdateDeviceAckCursor_def)
  from changes_after_cong [OF this] w2 page show ?thesis
    by (intro exI [of _ fetched]) (auto simp: ListChanges_def split: if_splits)
qed

lemma Sync_page:
  assumes run: "run_state (Sync s e u req pv) w = (Inr resp, w')" and ok: "tables_ok (committed w)"
    and lim: "1 \<le> effective_limit s (rq_limit req)" "effective_limit s (rq_limit req) < 2 ^ 31 - 1"
  shows "\<exists>n \<le> length (changes_after u (rq_cursor req) (committed w')).
    rs_changes resp = map (buildChange pv) (take n (changes_after u (rq_cursor req) (committed w'))) \<and>
    (rs_has_more resp \<longleftrightarrow> n < length (changes_after u (rq_cursor req) (committed w'))) \<and>
    rs_next_cursor resp = cursor_at (rq_cursor req) (take n (changes_after u (rq_cursor req) (committed w'))) \<and>
    (changes_after u (rq_cursor req) (committed w') \<noteq> [] \<longrightarrow> 0 < n) \<and>
    int n \<le> effective_limit s (rq_limit req) \<and>
    (0 < maxResponseBytes s \<and> 1 < n \<longrightarrow> change_bytes (doc_len e) (rs_changes resp) \<le> maxResponseBytes s)"
proof -
  have "\<exists>fetched d. ListChanges u (rq_cursor req) (int32 (effective_limit s (rq_limit req) + 1)) d = (Inr fetched, d) \<and>
      change_log (committed w') = change_log d \<and>
      change_page s e (effective_limit s (rq_limit req)) (rq_cursor req) pv fetched = Some (rs_changes resp, rs_has_more resp, rs_next_cursor resp)"
  proof (cases "rq_mutations req = []")
    case True
    with run obtain w1 where "run_state (pullOnly s e u req (effective_limit s (rq_limit req)) pv) w1 = (Inr resp, w')"
      by (auto simp: Sync_def Let_def split: option.splits prod.splits sum.splits)
    from pullOnly_answer [OF this] show ?thesis by blast
  next
    case False
    from Sync_answer [OF run False ok] show ?thesis
      by (smt (verit) same_data_def same_data_devices(2))
  qed
  then obtain fetched d where d: "ListChanges u (rq_cursor req) (int32 (effective_limit s (rq_limit req) + 1)) d = (Inr fetched, d)"
      "change_log (committed w') = change_log d"
      "change_page s e (effective_limit s (rq_limit req)) (rq_cursor req) pv fetched = Some (rs_changes resp, rs_has_more resp, rs_next_cursor resp)"
    by blast
  have "int32 (effective_limit s (rq_limit req) + 1) = effective_limit s (rq_limit req) + 1"
    using lim by (intro int32_id) auto
  with d(1) lim(1) have f: "fetched = take (nat (effective_limit s (rq_limit req) + 1)) (changes_after u (rq_cursor req) (committed w'))"
    by (simp add: ListChanges_def changes_after_cong [OF d(2)])
  show ?thesis
    by (rule change_page_spec [OF d(3) [unfolded f] lim(1)]) blast
qed

lemma Sync_outcome_ids:
  assumes run: "run_state (Sync s e u req pv) w = (Inr resp, w')"
    and ms: "rq_mutations req \<noteq> []" and ok: "tables_ok (committed w)"
  shows "map mo_mutation_id (rs_outcomes resp) = map m_id (rq_mutations req)"
proof (rule Sync_answer [OF run ms ok])
  fix d1 outs d2
  assume up: "UpsertDevice (db_now e) (d_id (rq_device req)) u (d_name (rq_device req)) (d_platform (rq_device req)) (committed w)
       = (Inr (), d1)"
    and batch: "batch_steps e u (d_id (rq_device req)) pv (order_mutations (rq_mutations req)) d1 outs d2"
    and resp: "rs_outcomes resp = outcome_list (rq_mutations req) (Map.empty(map m_id (order_mutations (rq_mutations req)) [\<mapsto>] outs))"
  have "tables_ok d1"
    using tables.R_device [of "committed w" "db_now e" "d_id (rq_device req)" u "d_name (rq_device req)" "d_platform (rq_device req)"]
      up ok by simp
  from outcome_list_ids(1) [OF batch_steps_ids [OF batch this], of "rq_mutations req"] resp show ?thesis by simp
qed


subsection \<open>Errors\<close>

lemma pullOnly_data: "state_io_rel (\<lambda>w w'. same_data (committed w) (committed w')) (pullOnly s e u req limit pv)"
proof -
  have pool: "state_io_rel (\<lambda>w w'. same_data (committed w) (committed w')) (exec_pool st)"
    if "\<And>d. same_data d (snd (st d))" for st :: "'a stmt"
    using that by (intro state_io_relI) (metis exec_pool_committed same_data_refl)
  have "snd (ListChanges u c l d) = d" for c l d by (simp add: ListChanges_def)
  then show ?thesis
    unfolding pullOnly_def
    by (auto intro!: data.io_bind data.io_sum data.io_option data.io_return data.io_if pool same_data_devices
        split: prod.splits)
qed

lemma checkCursor_data: "state_io_rel (\<lambda>w w'. same_data (committed w) (committed w')) (checkCursorNotExpired s e u c)"
  by (rule state_io_relI) (simp add: checkCursor_committed)

lemma Sync_error:
  assumes run: "run_state (Sync s e u req pv) w = (Inl err, w')" and ok: "tables_ok (committed w)"
  shows "same_data (committed w) (committed w') \<or>
    err = PgError ConnectionFailure \<and>
    (\<exists>outs. applied_once {e} u (d_id (rq_device req)) pv (order_mutations (rq_mutations req)) (committed w) outs (committed w'))"
proof (cases "rq_mutations req = []")
  case False
  from Sync_effect [OF run False ok] show ?thesis by auto
next
  case True
  have "state_io_rel (\<lambda>w w'. same_data (committed w) (committed w')) (Sync s e u req pv)"
    unfolding Sync_def Let_def True if_True simp_thms
    by (intro data.io_option data.io_bind data.io_sum data.io_return checkCursor_data pullOnly_data)
  from state_io_relD [OF this run] show ?thesis by simp
qed

subsection \<open>A call that must answer\<close>

lemma apply_step_keeps:
  assumes step: "apply_step e u dev m pv d out d1" and ok: "tables_ok d" "rows_ok e d"
  shows "tables_ok d1" "rows_ok e d1" "users d1 = users d" "devices d1 = devices d"
    "storable e u m' d \<Longrightarrow> storable e u m' d1"
proof -
  show "tables_ok d1" using tables.apply_R [OF step] ok by blast
  show "rows_ok e d1" using rows.apply_R [OF step] ok by blast
  show "users d1 = users d" "devices d1 = devices d"
    using step by (auto elim!: apply_step.cases dest: mutation_step_frame simp: record_outcome_def)
  have "versions_kept d d1" using versions.apply_R [OF step] ok by blast
  then have "session_ref_ok u ref d \<Longrightarrow> session_ref_ok u ref d1" for ref
    by (fastforce simp: versions_kept_def rows_grow_def session_ref_ok_def exists_row_iff row_at_def split: option.splits)
  then show "storable e u m' d \<Longrightarrow> storable e u m' d1"
    by (auto simp: storable_def split: option.splits)
qed

lemma batch_steps_total:
  assumes "tables_ok d" "rows_ok e d" "user_exists u d" "row_at dv_key (u, dev) (devices d) \<noteq> None"
    "\<forall>m\<in>set ms. storable e u m d" "json_time_ok (db_now e)"
  shows "\<exists>outs d'. batch_steps e u dev pv ms d outs d'"
  using assms
proof (induction ms arbitrary: d)
  case Nil
  then show ?case using batch_steps.nil by blast
next
  case (Cons m ms)
  then obtain out d1 where step: "apply_step e u dev m pv d out d1"
    using apply_step_total [of u d dev e m pv] by auto
  note keeps = apply_step_keeps [OF step Cons.prems(1,2)]
  have "\<exists>outs d'. batch_steps e u dev pv ms d1 outs d'"
    using Cons.prems keeps by (intro Cons.IH) (auto simp: user_exists_def)
  with step show ?case by (blast intro: batch_steps.cons)
qed

lemma UpsertDevice_row:
  assumes "user_exists u d" "text_ok name" "text_ok platform"
  shows "row_at dv_key (u, i) (devices (snd (UpsertDevice now i u name platform d))) \<noteq> None"
proof (cases "row_at dv_key (u, i) (devices d)")
  case None
  with assms show ?thesis by (simp add: UpsertDevice_def row_at_append dv_key_def)
next
  case (Some r)
  let ?touch = "\<lambda>r. r\<lparr>dv_name := name, dv_platform := platform, dv_last_seen_at := now\<rparr>"
  have "dv_key (?touch r) = dv_key r" for r by (simp add: dv_key_def)
  from row_at_update_where [of dv_key ?touch, OF this] Some assms show ?thesis by (simp add: UpsertDevice_def)
qed

lemma Sync_answers:
  assumes clean: "faults w = []" and val: "validateRequest s req = None" and ms: "rq_mutations req \<noteq> []"
    and ok: "tables_ok (committed w)" "rows_ok e (committed w)" and user: "user_exists u (committed w)"
    and dev: "text_ok (d_name (rq_device req))" "text_ok (d_platform (rq_device req))" and now: "json_time_ok (db_now e)"
    and storable: "\<forall>m\<in>set (rq_mutations req). storable e u m (committed w)"
    and cur: "fst (run_state (checkCursorNotExpired s e u (rq_cursor req)) w) = Inr ()"
    and lim: "0 \<le> effective_limit s (rq_limit req)" "effective_limit s (rq_limit req) < 2 ^ 31 - 1"
  shows "\<exists>resp w'. run_state (Sync s e u req pv) w = (Inr resp, w')"
proof -
  let ?d1 = "snd (UpsertDevice (db_now e) (d_id (rq_device req)) u (d_name (rq_device req)) (d_platform (rq_device req)) (committed w))"
  have up: "UpsertDevice (db_now e) (d_id (rq_device req)) u (d_name (rq_device req)) (d_platform (rq_device req)) (committed w) = (Inr (), ?d1)"
    using UpsertDevice_ok [OF user dev] by (metis prod.collapse)
  have ok1: "tables_ok ?d1" "rows_ok e ?d1" using tables.R_device rows.R_device ok by blast+
  have user1: "user_exists u ?d1" using user by (auto simp: UpsertDevice_def user_exists_def)
  have dev1: "row_at dv_key (u, d_id (rq_device req)) (devices ?d1) \<noteq> None"
    by (rule UpsertDevice_row [OF user dev])
  have st: "\<forall>m\<in>set (order_mutations (rq_mutations req)). storable e u m ?d1"
    using storable by (auto simp: storable_def UpsertDevice_def session_ref_ok_def split: option.splits)
  from batch_steps_total [OF ok1 user1 dev1 st now] obtain outs d2 where
    "batch_steps e u (d_id (rq_device req)) pv (order_mutations (rq_mutations req)) ?d1 outs d2" by blast
  from Sync_complete [OF clean val ms ok(1) cur up this lim] show ?thesis by blast
qed

subsection \<open>A whole snapshot\<close>

lemma boot_items_complete:
  assumes "snapshot_ready e (committed w)"
  shows "distinct (map fst (boot_items u (entitySession, uuid_nil, c) w)) \<and>
    (\<forall>k doc. (k, doc) \<in> set (boot_items u (entitySession, uuid_nil, c) w) \<longleftrightarrow> replica_of u (committed w) k = Some doc)"
proof -
  let ?d = "committed w"
  have keys: "distinct (map fst (boot_rows u entity uuid_nil ?d))" if "entity \<in> {entitySession, entitySolve}" for entity
  proof -
    have "distinct (map (\<lambda>r. snd (cs_key r)) (rows_after cs_key u uuid_nil (cube_sessions ?d)))"
      "distinct (map (\<lambda>r. snd (sf_key r)) (rows_after sf_key u uuid_nil (solves ?d)))"
      using rows_after_strict [of cs_key "cube_sessions ?d" u uuid_nil] rows_after_strict [of sf_key "solves ?d" u uuid_nil]
        assms strict_sorted_iff by (auto simp: snapshot_ready_def)
    with that show ?thesis
      by (auto simp: boot_rows_def session_item_def solve_item_def distinct_map inj_on_def cs_key_def sf_key_def)
  qed
  have nil: "replica_of u ?d (entity, uuid_nil) = None" for entity
    using assms by (auto simp: snapshot_ready_def rows_ok_def session_ok_def solve_ok_def replica_of_def row_at_None cs_key_def sf_key_def)
  have other: "replica_of u ?d (entity, i) = None" if "entity \<notin> {entitySession, entitySolve}" for entity i
    using that by (auto simp: replica_of_def entitySession_def entitySolve_def)
  have mem: "((entity, i), doc) \<in> set (boot_rows u ent uuid_nil ?d) \<longleftrightarrow> entity = ent \<and> replica_of u ?d (entity, i) = Some doc"
    if "ent \<in> {entitySession, entitySolve}" for entity ent i doc
  proof (cases "entity = ent \<and> i \<noteq> uuid_nil")
    case True
    with boot_rows_lookup [OF assms that, of uuid_nil i doc u] show ?thesis by (simp add: word_gt_0)
  next
    case False
    with boot_rows_keys [of "((entity, i), doc)" u ent uuid_nil ?d] nil that show ?thesis by fastforce
  qed
  have "distinct (map fst (boot_items u (entitySession, uuid_nil, c) w))"
  proof -
    have "fst ` set (boot_rows u entitySession uuid_nil ?d) \<inter> fst ` set (boot_rows u entitySolve uuid_nil ?d) = {}"
      using boot_rows_keys(2) [of _ u entitySession uuid_nil ?d] boot_rows_keys(2) [of _ u entitySolve uuid_nil ?d]
      by (auto simp: entity_names) (metis entity_names(1) fst_conv)
    with keys [of entitySession] keys [of entitySolve] show ?thesis by (simp add: boot_items_def)
  qed
  moreover have "((entity, i), doc) \<in> set (boot_items u (entitySession, uuid_nil, c) w) \<longleftrightarrow>
      replica_of u ?d (entity, i) = Some doc" for entity i doc
    using mem [of entitySession entity i doc] mem [of entitySolve entity i doc] other [of entity i]
    by (auto simp: boot_items_def)
  ultimately show ?thesis by auto
qed


subsection \<open>Acknowledgements of the active devices\<close>

definition active_acks :: "time \<Rightarrow> uuid \<Rightarrow> db \<Rightarrow> int list" where
  "active_acks cutoff u d = map dv_last_ack_cursor (filter (active cutoff u) (devices d))"

end
