(* ===== verification/Sync_Outcome.thy ===== *)
theory Sync_Outcome
  imports Sync_Complete
begin

text \<open>
  What the outcome of one mutation says about the store: an accepted mutation found the version
  it was based on and wrote the next one, together with its entry in the change log; any other
  outcome left the entities alone. The lemmas read this off the contract \<open>mutation_step\<close>.
\<close>

definition stored_version :: "uuid \<Rightarrow> Mutation \<Rightarrow> db \<Rightarrow> int" where
  "stored_version u m d =
     (if m_entity m = ''session''
      then (case row_at cs_key (u, m_entity_id m) (cube_sessions d) of None \<Rightarrow> 0 | Some r \<Rightarrow> cs_version r)
      else (case row_at sf_key (u, m_entity_id m) (solves d) of None \<Rightarrow> 0 | Some r \<Rightarrow> sf_version r))"

lemmas outcome_defs = accepted_def rejected_def sessionConflict_def solveConflict_def conflict_outcome_def

lemma envelope_rejects: "validateMutationEnvelope m = Some out \<Longrightarrow> mo_status out = ''rejected''"
  by (auto simp: validateMutationEnvelope_def rejected_def split: if_splits)

lemma validated_id:
  "validateSession e x i = [] \<Longrightarrow> s_id x = i" "validateSolve e y i = [] \<Longrightarrow> sv_id y = i"
  by (auto simp: validateSession_def validateSolve_def Let_def split: if_splits)

lemma apply_step_fresh:
  assumes "apply_step e u dev m pv d out d'" "row_at pm_key (u, dev, m_id m) (processed_mutations d) = None"
  obtains d1 where "mutation_step e u m pv d out d1" "d' = record_outcome (db_now e) u dev (m_id m) out d1"
  using assms by (auto elim: apply_step.cases)

lemma refused_step:
  assumes "mutation_step e u m pv d out d1" "mo_status out \<noteq> ''accepted''"
  shows "d1 = d \<and> (mo_status out = ''conflict'' \<longrightarrow> mo_version out = stored_version u m d \<and> stored_version u m d \<noteq> m_base_version m)"
  using assms(1)
proof (cases rule: mutation_step.cases)
  case envelope
  then show ?thesis using envelope_rejects by fastforce
next
  case session
  from session(3) show ?thesis
    by (cases rule: session_step.cases) (use session(1) assms(2) in \<open>simp_all add: outcome_defs stored_version_def\<close>)
next
  case solve
  from solve(3) show ?thesis
    by (cases rule: solve_step.cases) (use solve(1) assms(2) in \<open>simp_all add: outcome_defs stored_version_def\<close>)
next
  case unknown_entity
  then show ?thesis by (simp add: rejected_def)
qed

lemma row_keys:
  "cs_key (session_row now u v x) = (u, s_id x)" "cs_key (tombstone_session now r) = cs_key r"
  "sf_key (solve_row now u v y) = (u, sv_id y)" "sf_key (tombstone_solve now q) = sf_key q"
  "cs_version (session_row now u v x) = v" "cs_version (tombstone_session now r) = cs_version r + 1"
  "sf_version (solve_row now u v y) = v" "sf_version (tombstone_solve now q) = sf_version q + 1"
  "sv_id (with_timing_device y) = sv_id y"
  by (simp_all add: cs_key_def sf_key_def session_row_def tombstone_session_def solve_row_def tombstone_solve_def with_timing_device_def)

lemma row_at_pair: "row_at key k rows = Some r \<Longrightarrow> key r = k"
  by (blast dest: row_at_Some)

definition entity_written :: "uuid \<Rightarrow> Mutation \<Rightarrow> int \<Rightarrow> db \<Rightarrow> db \<Rightarrow> bool" where
  "entity_written u m v d d' \<longleftrightarrow> stored_version u m d' = v \<and>
     (\<exists>c. change_log d' = change_log d @ [c] \<and> cl_user_id c = u \<and> cl_entity_type c = m_entity m \<and>
        cl_entity_id c = m_entity_id m \<and> cl_operation c = m_operation m \<and> cl_version c = v \<and>
        replica_of u d' = (replica_of u d)((m_entity m, m_entity_id m) \<mapsto> cl_payload c))"

lemma written_session:
  assumes "cs_key r = (u, m_entity_id m)" "m_entity m = ''session''" "m_operation m = operation" "cs_version r = v"
  shows "entity_written u m v d (write_session now operation r d)"
  using assms by (simp add: entity_written_def stored_version_def ses.log_write ses.replica_write log_entry_def row_at_write_row)

lemma written_solve:
  assumes "sf_key r = (u, m_entity_id m)" "m_entity m = ''solve''" "m_operation m = operation" "sf_version r = v"
  shows "entity_written u m v d (write_solve now operation r d)"
  using assms by (simp add: entity_written_def stored_version_def slv.log_write slv.replica_write log_entry_def row_at_write_row)

lemma accepted_step:
  assumes "mutation_step e u m pv d out d1" "mo_status out = ''accepted''"
  shows "stored_version u m d = m_base_version m \<and>
    (d1 = d \<and> mo_version out = m_base_version m \<and> m_operation m = ''delete'' \<or>
     mo_version out = m_base_version m + 1 \<and> entity_written u m (mo_version out) d d1)"
  using assms
proof (cases rule: mutation_step.cases)
  case envelope
  then show ?thesis using assms(2) envelope_rejects by fastforce
next
  case session
  from session(3) show ?thesis
  proof (cases rule: session_step.cases)
    case (delete cur)
    then show ?thesis
      using session(1) written_session [of "tombstone_session (db_now e) cur" u m "''delete''"] row_at_pair [OF delete(4)]
      by (auto simp: row_keys stored_version_def accepted_def)
  qed (use session(1) assms(2) in \<open>auto simp: outcome_defs stored_version_def row_keys validated_id intro!: written_session\<close>)
next
  case solve
  from solve(3) show ?thesis
  proof (cases rule: solve_step.cases)
    case (delete cur)
    then show ?thesis
      using solve(1) written_solve [of "tombstone_solve (db_now e) cur" u m "''delete''"] row_at_pair [OF delete(4)]
      by (auto simp: row_keys stored_version_def accepted_def)
  qed (use solve(1) assms(2) in \<open>auto simp: outcome_defs stored_version_def row_keys validated_id intro!: written_solve\<close>)
next
  case unknown_entity
  then show ?thesis using assms(2) by (simp add: rejected_def)
qed

text \<open>What an accepted upsert stores.\<close>

lemma accepted_session:
  assumes "mutation_step e u m pv d out d1" "mo_status out = ''accepted''" "m_entity m = ''session''" "m_operation m = ''upsert''"
  shows "\<exists>x. unmarshalSession e (m_data m) = Some x \<and> validateSession e x (m_entity_id m) = [] \<and>
    d1 = write_session (db_now e) ''upsert'' (session_row (db_now e) u (m_base_version m + 1) x) d"
proof -
  have "session_step e u m pv d out d1"
    using assms by (cases rule: mutation_step.cases) (auto dest: envelope_rejects simp: rejected_def)
  then show ?thesis
    by (cases rule: session_step.cases) (use assms(2,4) in \<open>simp_all add: outcome_defs\<close>)
qed

lemma accepted_solve:
  assumes "mutation_step e u m pv d out d1" "mo_status out = ''accepted''" "m_entity m = ''solve''" "m_operation m = ''upsert''"
  shows "\<exists>x. unmarshalSolve e (m_data m) = Some x \<and> validateSolve e x (m_entity_id m) = [] \<and>
    session_ref_ok u (sv_session_id x) d \<and>
    d1 = write_solve (db_now e) ''upsert'' (solve_row (db_now e) u (m_base_version m + 1) (with_timing_device x)) d"
proof -
  have "solve_step e u m pv d out d1"
    using assms by (cases rule: mutation_step.cases) (auto dest: envelope_rejects simp: rejected_def)
  then show ?thesis
    by (cases rule: solve_step.cases) (use assms(2,4) in \<open>simp_all add: outcome_defs\<close>)
qed

definition same_entities :: "db \<Rightarrow> db \<Rightarrow> bool" where
  "same_entities d d' \<longleftrightarrow> cube_sessions d' = cube_sessions d \<and> solves d' = solves d \<and>
     change_log d' = change_log d \<and> change_seq d' = change_seq d"

lemma same_entities_record [simp]:
  "same_entities d d" "same_entities d (record_outcome now u dev i out d1) = same_entities d d1"
  by (simp_all add: same_entities_def record_outcome_def)

lemma entity_written_record [simp]:
  "entity_written u m v d (record_outcome now u dev i out d1) = entity_written u m v d d1"
proof -
  have "replica_of u (record_outcome now u dev i out d1) = replica_of u d1"
    by (simp add: replica_of_def record_outcome_def fun_eq_iff)
  moreover have "stored_version u m (record_outcome now u dev i out d1) = stored_version u m d1"
    "change_log (record_outcome now u dev i out d1) = change_log d1"
    by (simp_all add: stored_version_def record_outcome_def)
  ultimately show ?thesis by (simp add: entity_written_def)
qed


subsection \<open>A dangling session reference\<close>

text \<open>
  PostgreSQL puts the transaction into the failed state before \<open>applySolve\<close> turns the
  foreign-key violation into an outcome, so recording that outcome fails.
\<close>

lemma applyMutation_dangling:
  assumes clean: "tx_faults t = []" "\<not> aborted t"
    and fresh: "row_at pm_key (u, dev, m_id m) (processed_mutations (tables t)) = None"
    and env: "validateMutationEnvelope m = None"
    and m: "m_entity m = ''solve''" "m_operation m = ''upsert''" "m_base_version m = 0"
    and x: "unmarshalSolve e (m_data m) = Some x" "validateSolve e x (m_entity_id m) = []"
      "solve_text_ok (with_timing_device x)"
    and new: "row_at sf_key (u, m_entity_id m) (solves (tables t)) = None"
    and user: "user_exists u (tables t)" and dangling: "\<not> session_ref_ok u (sv_session_id x) (tables t)"
  shows "fst (run_state (applyMutation e u dev m pv) t) = Inl (PgError InFailedTransaction)"
proof -
  note ok = validateSolve_ok [OF x(2)]
  have ins: "InsertSolve (db_now e) u (with_timing_device x) (tables t) = (Inl ForeignKeyViolation, tables t)"
    using x ok new user dangling by (auto simp: InsertSolve_def solve_check_def)
  have "run_state (dispatchMutation e u m pv) t =
      (Inr (rejected (m_id m) ''invalid_session'' ''referenced session does not exist''), t\<lparr>aborted := True\<rparr>)"
    using clean env m x(1,2) new ins
    by (simp add: dispatchMutation_def applySolve_def run_simps GetSolveForUpdate_def upsertSolveBranch_def Let_def
        with_timing_device_def [symmetric] solveUpsertResult_def isForeignKeyViolation_def)
  with envelope_None(1) [OF env] clean fresh show ?thesis
    by (simp add: applyMutation_def run_simps GetProcessedMutation_def) (simp add: exec_def)
qed

end
