(* ===== verification/Samples.thy ===== *)
theory Samples
  imports Sync_Server Sync_Outcome
begin

text \<open>
  A small concrete instance: one user, one device, a decoder that reads the entity id from the
  first byte of the data. The witnesses of the properties are evaluated on it.
\<close>

definition ex_service :: SyncService where
  "ex_service = \<lparr> maxMutations = 500, defaultMaxChange = 1000, maxResponseBytes = 524288,
     inactiveDeviceWindow = 0 \<rparr>"

definition ex_id :: "string \<Rightarrow> uuid" where
  "ex_id data = (case data of [] \<Rightarrow> 0 | c # _ \<Rightarrow> of_nat (of_char c))"

definition ex_session :: "string \<Rightarrow> Session option" where
  "ex_session data = (if data = [] then None else Some
     \<lparr> s_id = ex_id data, s_name = ''evening'', s_event = ''3x3'', s_kind = ''manual'', s_started_at = 5,
       s_ended_at = None, s_archived = False, s_version = 0, s_updated_at = 0, s_deleted_at = None \<rparr>)"

definition ex_solve :: "string \<Rightarrow> Solve option" where
  "ex_solve data = (if data = [] then None else Some
     \<lparr> sv_id = ex_id data, sv_session_id = (case tl data of [] \<Rightarrow> None | _ \<Rightarrow> Some (ex_id (tl data))),
       sv_duration_ms = 9130, sv_penalty = ''none'', sv_solved_at = 7, sv_scramble = ''R U'', sv_event = ''3x3'',
       sv_timing_device = [], sv_version = 0, sv_updated_at = 0, sv_deleted_at = None \<rparr>)"

definition ex_env :: "time \<Rightarrow> env" where
  "ex_env now = \<lparr> go_now = now, db_now = now, unmarshalSession = ex_session, unmarshalSolve = ex_solve,
     doc_len = (\<lambda>_. 100), marshal_len = (\<lambda>_. 100), unicode_lower = (\<lambda>s. s), uuid_string = (\<lambda>_. ''u'') \<rparr>"

definition ex_user :: "uuid \<Rightarrow> UserRow" where
  "ex_user i = \<lparr> us_id = i, us_email = ''ann@example.org'', us_email_verified_at = Some 1, us_created_at = 1,
     us_updated_at = 1, us_user_role = ''user'' \<rparr>"

definition ex_db :: db where
  "ex_db = empty_db\<lparr>users := [ex_user 1]\<rparr>"

definition ex_world :: world where
  "ex_world = \<lparr> committed = ex_db, faults = [] \<rparr>"

definition ex_device :: "uuid \<Rightarrow> Device" where
  "ex_device i = \<lparr> d_id = i, d_name = ''phone'', d_platform = ''ios'' \<rparr>"

definition ex_mutation :: "uuid \<Rightarrow> string \<Rightarrow> string \<Rightarrow> int \<Rightarrow> string \<Rightarrow> Mutation" where
  "ex_mutation i entity operation version data =
     \<lparr> m_id = i, m_entity = entity, m_entity_id = ex_id data, m_operation = operation,
       m_base_version = version, m_data = data \<rparr>"

definition ex_request :: "uuid \<Rightarrow> int \<Rightarrow> Mutation list \<Rightarrow> Request" where
  "ex_request dev c ms = \<lparr> rq_cursor = c, rq_device = ex_device dev, rq_mutations = ms, rq_limit = 0 \<rparr>"

text \<open>A solve of session \<open>a\<close> and the session itself, in the wrong order.\<close>

definition ex_batch :: "Mutation list" where
  "ex_batch = [ex_mutation 21 ''solve'' ''upsert'' 0 ''ba'', ex_mutation 22 ''session'' ''upsert'' 0 ''a'']"

definition ex_attempt :: "fault list \<Rightarrow> attempt" where
  "ex_attempt fs = \<lparr> at_service = ex_service, at_env = ex_env 100, at_cursor = 0, at_limit = 0, at_faults = fs \<rparr>"

text \<open>The world after the batch.\<close>

definition ex_synced :: world where
  "ex_synced = snd (run_state (Sync ex_service (ex_env 100) 1 (ex_request 3 0 ex_batch) 1) ex_world)"

text \<open>Its value, computed once and used by every later evaluation; likewise below.\<close>

lemma ex_synced_eval [code]: "ex_synced =
  \<lparr> committed = \<lparr>users = [\<lparr>us_id = 1, us_email = ''ann@example.org'', us_email_verified_at = Some 1, us_created_at = 1,
    us_updated_at = 1, us_user_role = ''user''\<rparr>], password_credentials = [], identities = [], refresh_tokens = [],
    one_time_tokens = [], devices = [\<lparr>dv_id = 3, dv_user_id = 1, dv_name = ''phone'', dv_platform = ''ios'',
    dv_first_seen_at = 100, dv_last_seen_at = 100, dv_last_ack_cursor = 0\<rparr>], cube_sessions = [\<lparr>cs_id =
    of_nat 97, cs_user_id = 1, cs_name = ''evening'', cs_event = ''3x3'', cs_kind = ''manual'', cs_started_at = 5,
    cs_ended_at = None, cs_archived = False, cs_version = 1, cs_updated_at = 100, cs_deleted_at = None\<rparr>], solves =
    [\<lparr>sf_id = of_nat 98, sf_user_id = 1, sf_session_id = Some (of_nat 97), sf_duration_ms = 9130, sf_penalty =
    ''none'', sf_solved_at = 7, sf_scramble = ''R U'', sf_event = ''3x3'', sf_version = 1, sf_updated_at = 100,
    sf_deleted_at = None, sf_timing_device = ''keyboard''\<rparr>], processed_mutations = [\<lparr>pm_user_id = 1,
    pm_device_id = 3, pm_mutation_id = 22, pm_outcome = \<lparr>mo_mutation_id = 22, mo_status = ''accepted'', mo_version
    = 1, mo_code = [], mo_message = [], mo_current = None\<rparr>, pm_created_at = 100\<rparr>, \<lparr>pm_user_id = 1,
    pm_device_id = 3, pm_mutation_id = 21, pm_outcome = \<lparr>mo_mutation_id = 21, mo_status = ''accepted'', mo_version
    = 1, mo_code = [], mo_message = [], mo_current = None\<rparr>, pm_created_at = 100\<rparr>], change_log =
    [\<lparr>cl_change_id = 1, cl_user_id = 1, cl_entity_type = ''session'', cl_entity_id = of_nat 97, cl_operation =
    ''upsert'', cl_version = 1, cl_payload = SessionDoc \<lparr>s_id = of_nat 97, s_name = ''evening'', s_event = ''3x3'',
    s_kind = ''manual'', s_started_at = 5, s_ended_at = None, s_archived = False, s_version = 1, s_updated_at = 100,
    s_deleted_at = None\<rparr>, cl_created_at = 100\<rparr>, \<lparr>cl_change_id = 2, cl_user_id = 1, cl_entity_type =
    ''solve'', cl_entity_id = of_nat 98, cl_operation = ''upsert'', cl_version = 1, cl_payload = SolveDoc \<lparr>sv_id =
    of_nat 98, sv_session_id = Some (of_nat 97), sv_duration_ms = 9130, sv_penalty = ''none'', sv_solved_at = 7,
    sv_scramble = ''R U'', sv_event = ''3x3'', sv_timing_device = ''keyboard'', sv_version = 1, sv_updated_at = 100,
    sv_deleted_at = None\<rparr>, cl_created_at = 100\<rparr>], change_seq = 2, request_stats_hourly = [], request_errors = [], request_errors_id_seq = 0\<rparr>, faults = [] \<rparr>"
  by code_simp

text \<open>
  The batch sent three times: the first request never reaches the server, the answer to the
  second is lost after its commit, the third is answered.
\<close>

definition ex_retry :: world where
  "ex_retry = attempts 1 (ex_request 3 0 ex_batch) 1
     [ex_attempt [Lost], ex_attempt (replicate 14 Delivered @ [LostAck])] ex_world"

definition ex_answer :: "(error + Response) \<times> world" where
  "ex_answer = attempt_call 1 (ex_request 3 0 ex_batch) 1 (ex_attempt []) ex_retry"

text \<open>A new device bootstraps from two pages; then the first device adds a solve.\<close>

definition ex_snapshot :: SnapshotService where
  "ex_snapshot = \<lparr> snapMaxResponseBytes = 524288 \<rparr>"

definition ex_boot :: SnapshotRequest where
  "ex_boot = \<lparr> sq_device = ex_device 4, sq_cursor = 0, sq_after_id = 0, sq_entity = [], sq_page_size = 0 \<rparr>"

definition ex_page1 :: "(((string \<times> uuid) \<times> document) list \<times> bool \<times> boot_pos) option \<times> world" where
  "ex_page1 = boot_page ex_snapshot (ex_env 200) 1 ex_boot (entitySession, uuid_nil, 0) ex_synced"

definition ex_page2 :: "(((string \<times> uuid) \<times> document) list \<times> bool \<times> boot_pos) option \<times> world" where
  "ex_page2 = boot_page ex_snapshot (ex_env 210) 1 ex_boot (entitySolve, uuid_nil, 2) (snd ex_page1)"

definition ex_later :: "(error + Response) \<times> world" where
  "ex_later = run_state (Sync ex_service (ex_env 300) 1 (ex_request 3 2 [ex_mutation 23 ''solve'' ''upsert'' 0 ''c'']) 1) (snd ex_page2)"

text \<open>A transaction on the synced database, and one mutation in it.\<close>

definition ex_tx :: tx where
  "ex_tx = \<lparr> tables = committed ex_synced, aborted = False, tx_faults = [], held_locks = [] \<rparr>"

definition ex_apply :: "Mutation \<Rightarrow> (error + MutationOutcome) \<times> tx" where
  "ex_apply m = run_state (applyMutation (ex_env 300) 1 3 m 2) ex_tx"

definition ex_update :: "string \<Rightarrow> string \<Rightarrow> int \<Rightarrow> Mutation" where
  "ex_update entity data base = ex_mutation 31 entity ''upsert'' base data"

definition ex_delete :: "string \<Rightarrow> string \<Rightarrow> int \<Rightarrow> Mutation" where
  "ex_delete entity data base = ex_mutation 32 entity ''delete'' base data"

lemma page_shape: "fst p \<noteq> None \<Longrightarrow> snd (the (fst p)) = (b, pos) \<Longrightarrow> p = (Some (fst (the (fst p)), b, pos), snd p)"
  by (cases p) (auto simp: prod_eq_iff)

text \<open>\<open>log_current\<close> by the entries of the log, for evaluation.\<close>

lemma log_current_code [code]:
  "log_current d \<longleftrightarrow> (\<forall>c\<in>set (change_log d).
     last_for entry_key (entry_key c) (user_log (cl_user_id c) d) = Some c \<longrightarrow>
     replica_of (cl_user_id c) d (entry_key c) = Some (cl_payload c))"
  (is "_ \<longleftrightarrow> ?entries")
proof
  assume entries: ?entries
  have "replica_of u d k = Some (cl_payload c)" if last: "last_for entry_key k (user_log u d) = Some c" for u k c
  proof -
    from last_for_Some [OF last] have "c \<in> set (change_log d)" "cl_user_id c = u" "entry_key c = k"
      by (auto simp: user_log_def)
    with entries last show ?thesis by auto
  qed
  then show "log_current d" by (simp add: log_current_def)
qed (unfold log_current_def, blast)

lemma run_answer: "\<not> isl (fst p) \<Longrightarrow> p = (Inr (projr (fst p)), snd p)"
  by (cases p) (auto simp: sum.collapse(2))

lemma run_error: "isl (fst p) \<Longrightarrow> p = (Inl (projl (fst p)), snd p)"
  by (cases p) auto

definition ex_edit :: "(error + Response) \<times> world" where
  "ex_edit = run_state (Sync ex_service (ex_env 300) 1 (ex_request 3 2 [ex_update ''session'' ''a'' 1]) 2) ex_synced"

definition ex_lost :: "(error + Response) \<times> world" where
  "ex_lost = run_state (Sync ex_service (ex_env 300) 1 (ex_request 3 0 [ex_update ''session'' ''a'' 1]) 2)
     (ex_synced\<lparr>faults := replicate 9 Delivered @ [LostAck]\<rparr>)"

lemma ex_edit_run:
  "run_state (Sync ex_service (ex_env 300) 1 (ex_request 3 2 [ex_update ''session'' ''a'' 1]) 2) ex_synced =
     (Inr (projr (fst ex_edit)), snd ex_edit)"
proof -
  have "\<not> isl (fst ex_edit)" by code_simp
  then show ?thesis unfolding ex_edit_def by (rule run_answer)
qed

lemma ex_lost_run:
  "run_state (Sync ex_service (ex_env 300) 1 (ex_request 3 0 [ex_update ''session'' ''a'' 1]) 2)
     (ex_synced\<lparr>faults := replicate 9 Delivered @ [LostAck]\<rparr>) = (Inl (projl (fst ex_lost)), snd ex_lost)"
proof -
  have "isl (fst ex_lost)" by code_simp
  then show ?thesis unfolding ex_lost_def by (rule run_error)
qed

lemma ex_synced_ok: "tables_ok (committed ex_synced)"
  by code_simp

lemma ex_apply_run:
  "\<not> isl (fst (ex_apply m)) \<Longrightarrow>
   run_state (applyMutation (ex_env 300) 1 3 m 2) ex_tx = (Inr (projr (fst (ex_apply m))), snd (ex_apply m))"
  unfolding ex_apply_def by (rule run_answer)

subsection \<open>A device that comes back late\<close>

text \<open>
  Device 4 reads the first of two changes and leaves. A hundred days later device 3 edits the
  session, acknowledges everything, and the retention run prunes; another hundred days later
  device 4 continues from its cursor.
\<close>

definition ex_days :: "int \<Rightarrow> time" where
  "ex_days n = n * 24 * Hour"

definition ex_left :: "(error + Response) \<times> world" where
  "ex_left = run_state (Sync ex_service (ex_env 200) 1 ((ex_request 4 0 [])\<lparr>rq_limit := 1\<rparr>) 1) ex_synced"

definition ex_edited :: world where
  "ex_edited = snd (run_state (Sync ex_service (ex_env (ex_days 100)) 1 (ex_request 3 2 [ex_update ''session'' ''a'' 1]) 1) (snd ex_left))"

definition ex_acked :: world where
  "ex_acked = snd (run_state (Sync ex_service (ex_env (ex_days 100)) 1 (ex_request 3 3 []) 1) ex_edited)"

lemma ex_acked_eval [code]: "ex_acked =
  \<lparr> committed = \<lparr>users = [\<lparr>us_id = 1, us_email = ''ann@example.org'', us_email_verified_at = Some 1, us_created_at = 1,
    us_updated_at = 1, us_user_role = ''user''\<rparr>], password_credentials = [], identities = [], refresh_tokens = [],
    one_time_tokens = [], devices = [\<lparr>dv_id = 3, dv_user_id = 1, dv_name = ''phone'', dv_platform = ''ios'',
    dv_first_seen_at = 100, dv_last_seen_at = 8640000000000, dv_last_ack_cursor = 3\<rparr>, \<lparr>dv_id = 4, dv_user_id
    = 1, dv_name = ''phone'', dv_platform = ''ios'', dv_first_seen_at = 200, dv_last_seen_at = 200, dv_last_ack_cursor =
    0\<rparr>], cube_sessions = [\<lparr>cs_id = of_nat 97, cs_user_id = 1, cs_name = ''evening'', cs_event = ''3x3'',
    cs_kind = ''manual'', cs_started_at = 5, cs_ended_at = None, cs_archived = False, cs_version = 2, cs_updated_at =
    8640000000000, cs_deleted_at = None\<rparr>], solves = [\<lparr>sf_id = of_nat 98, sf_user_id = 1, sf_session_id =
    Some (of_nat 97), sf_duration_ms = 9130, sf_penalty = ''none'', sf_solved_at = 7, sf_scramble = ''R U'', sf_event =
    ''3x3'', sf_version = 1, sf_updated_at = 100, sf_deleted_at = None, sf_timing_device = ''keyboard''\<rparr>],
    processed_mutations = [\<lparr>pm_user_id = 1, pm_device_id = 3, pm_mutation_id = 22, pm_outcome =
    \<lparr>mo_mutation_id = 22, mo_status = ''accepted'', mo_version = 1, mo_code = [], mo_message = [], mo_current =
    None\<rparr>, pm_created_at = 100\<rparr>, \<lparr>pm_user_id = 1, pm_device_id = 3, pm_mutation_id = 21, pm_outcome =
    \<lparr>mo_mutation_id = 21, mo_status = ''accepted'', mo_version = 1, mo_code = [], mo_message = [], mo_current =
    None\<rparr>, pm_created_at = 100\<rparr>, \<lparr>pm_user_id = 1, pm_device_id = 3, pm_mutation_id = 31, pm_outcome =
    \<lparr>mo_mutation_id = 31, mo_status = ''accepted'', mo_version = 2, mo_code = [], mo_message = [], mo_current =
    None\<rparr>, pm_created_at = 8640000000000\<rparr>], change_log = [\<lparr>cl_change_id = 1, cl_user_id = 1,
    cl_entity_type = ''session'', cl_entity_id = of_nat 97, cl_operation = ''upsert'', cl_version = 1, cl_payload =
    SessionDoc \<lparr>s_id = of_nat 97, s_name = ''evening'', s_event = ''3x3'', s_kind = ''manual'', s_started_at = 5,
    s_ended_at = None, s_archived = False, s_version = 1, s_updated_at = 100, s_deleted_at = None\<rparr>, cl_created_at =
    100\<rparr>, \<lparr>cl_change_id = 2, cl_user_id = 1, cl_entity_type = ''solve'', cl_entity_id = of_nat 98,
    cl_operation = ''upsert'', cl_version = 1, cl_payload = SolveDoc \<lparr>sv_id = of_nat 98, sv_session_id = Some
    (of_nat 97), sv_duration_ms = 9130, sv_penalty = ''none'', sv_solved_at = 7, sv_scramble = ''R U'', sv_event =
    ''3x3'', sv_timing_device = ''keyboard'', sv_version = 1, sv_updated_at = 100, sv_deleted_at = None\<rparr>,
    cl_created_at = 100\<rparr>, \<lparr>cl_change_id = 3, cl_user_id = 1, cl_entity_type = ''session'', cl_entity_id =
    of_nat 97, cl_operation = ''upsert'', cl_version = 2, cl_payload = SessionDoc \<lparr>s_id = of_nat 97, s_name =
    ''evening'', s_event = ''3x3'', s_kind = ''manual'', s_started_at = 5, s_ended_at = None, s_archived = False,
    s_version = 2, s_updated_at = 8640000000000, s_deleted_at = None\<rparr>, cl_created_at = 8640000000000\<rparr>],
    change_seq = 3, request_stats_hourly = [], request_errors = [], request_errors_id_seq = 0\<rparr>, faults = [] \<rparr>"
  by code_simp

definition ex_retention :: RetentionService where
  "ex_retention = \<lparr> retInactiveDeviceWindow = 0 \<rparr>"

definition ex_pruned :: world where
  "ex_pruned = snd (run_state (runOnce ex_retention (ex_env (ex_days 100))) ex_acked)"

lemma ex_pruned_eval [code]: "ex_pruned =
  \<lparr> committed = \<lparr>users = [\<lparr>us_id = 1, us_email = ''ann@example.org'', us_email_verified_at = Some 1, us_created_at = 1,
    us_updated_at = 1, us_user_role = ''user''\<rparr>], password_credentials = [], identities = [], refresh_tokens = [],
    one_time_tokens = [], devices = [\<lparr>dv_id = 3, dv_user_id = 1, dv_name = ''phone'', dv_platform = ''ios'',
    dv_first_seen_at = 100, dv_last_seen_at = 8640000000000, dv_last_ack_cursor = 3\<rparr>, \<lparr>dv_id = 4, dv_user_id
    = 1, dv_name = ''phone'', dv_platform = ''ios'', dv_first_seen_at = 200, dv_last_seen_at = 200, dv_last_ack_cursor =
    0\<rparr>], cube_sessions = [\<lparr>cs_id = of_nat 97, cs_user_id = 1, cs_name = ''evening'', cs_event = ''3x3'',
    cs_kind = ''manual'', cs_started_at = 5, cs_ended_at = None, cs_archived = False, cs_version = 2, cs_updated_at =
    8640000000000, cs_deleted_at = None\<rparr>], solves = [\<lparr>sf_id = of_nat 98, sf_user_id = 1, sf_session_id =
    Some (of_nat 97), sf_duration_ms = 9130, sf_penalty = ''none'', sf_solved_at = 7, sf_scramble = ''R U'', sf_event =
    ''3x3'', sf_version = 1, sf_updated_at = 100, sf_deleted_at = None, sf_timing_device = ''keyboard''\<rparr>],
    processed_mutations = [\<lparr>pm_user_id = 1, pm_device_id = 3, pm_mutation_id = 31, pm_outcome =
    \<lparr>mo_mutation_id = 31, mo_status = ''accepted'', mo_version = 2, mo_code = [], mo_message = [], mo_current =
    None\<rparr>, pm_created_at = 8640000000000\<rparr>], change_log = [\<lparr>cl_change_id = 3, cl_user_id = 1,
    cl_entity_type = ''session'', cl_entity_id = of_nat 97, cl_operation = ''upsert'', cl_version = 2, cl_payload =
    SessionDoc \<lparr>s_id = of_nat 97, s_name = ''evening'', s_event = ''3x3'', s_kind = ''manual'', s_started_at = 5,
    s_ended_at = None, s_archived = False, s_version = 2, s_updated_at = 8640000000000, s_deleted_at = None\<rparr>,
    cl_created_at = 8640000000000\<rparr>], change_seq = 3, request_stats_hourly = [], request_errors = [], request_errors_id_seq = 0\<rparr>, faults = [] \<rparr>"
  by code_simp

definition ex_stale :: "(error + Response) \<times> world" where
  "ex_stale = run_state (Sync ex_service (ex_env (ex_days 200)) 1 (ex_request 4 1 []) 1) ex_pruned"

lemma ex_pruned_run: "run_state (runOnce ex_retention (ex_env (ex_days 100))) ex_acked = ((), ex_pruned)"
  by (simp add: ex_pruned_def prod_eq_iff)

lemma ex_synced_call: "(sync_call (ex_env 0))\<^sup>*\<^sup>* (committed ex_world) (committed ex_synced)"
proof -
  have "sync_call (ex_env 0) (committed ex_world) (committed ex_synced)"
    unfolding ex_synced_def by (rule sync_call.intros [OF _ surjective_pairing]) (simp add: ex_env_def)
  then show ?thesis ..
qed

lemma ex_client: "client_ok pv 1 UNIV Map.empty 0 (committed ex_synced)"
proof (rule client_ok_sync_calls [OF ex_synced_call])
  show "server_ok (ex_env 0) (committed ex_world)" by code_simp
  show "client_ok pv 1 UNIV Map.empty 0 (committed ex_world)"
    by (simp add: client_ok_def client_replica_def replica_of_def ex_world_def ex_db_def empty_db_def)
qed

end
