(* ===== verification/Sync_Theorems.thy ===== *)
theory Sync_Theorems
  imports Samples
begin

text \<open>
  The properties of the synchronization service: \<open>Sync\<close>, \<open>Snapshot\<close>, the retention run and
  the two sides of the protocol together. Each is followed by a witness on the concrete
  instance of \<open>Samples\<close>.
\<close>

text \<open>
  C1. A client that repeats a batch of mutations until it is answered, over a connection that may
  fail at any statement and may lose the answer of a commit, has its batch applied exactly once,
  and the answer carries the outcomes of that one application.
\<close>

theorem sync_exactly_once:
  assumes "tables_ok (committed w)" "rq_mutations req \<noteq> []"
    and "attempt_call u req pv a (attempts u req pv as w) = (Inr resp, w')"
  shows "\<exists>outs. applied_once (at_env ` set (as @ [a])) u (d_id (rq_device req)) pv
      (order_mutations (rq_mutations req)) (committed w) outs (committed w') \<and>
    rs_outcomes resp = outcome_list (rq_mutations req)
      (Map.empty(map m_id (order_mutations (rq_mutations req)) [\<mapsto>] outs))"
  using assms by (rule retry_lemma)

theorem sync_exactly_once_witness:
  "length (cube_sessions (committed ex_retry)) = 1 \<and>
   (\<exists>outs. applied_once {ex_env 100} 1 3 1 (order_mutations ex_batch) ex_db outs (committed (snd ex_answer)) \<and>
     rs_outcomes (projr (fst ex_answer)) = outcome_list ex_batch
       (Map.empty(map m_id (order_mutations ex_batch) [\<mapsto>] outs)))"
proof -
  have ok: "tables_ok (committed ex_world)" by code_simp
  have "rq_mutations (ex_request 3 0 ex_batch) \<noteq> []" by code_simp
  moreover have "\<not> isl (fst ex_answer)" by code_simp
  moreover have "length (cube_sessions (committed ex_retry)) = 1" by code_simp
  ultimately show ?thesis
    using sync_exactly_once [OF ok _ run_answer [of ex_answer, unfolded ex_answer_def ex_retry_def]]
    by (simp add: ex_answer_def ex_retry_def ex_attempt_def ex_request_def ex_device_def ex_world_def)
qed

text \<open>
  C2. A new device that pages through the snapshot while other devices keep writing, and then
  pulls changes from the watermark it was given, ends with exactly the server's current sessions
  and solves.
\<close>

theorem bootstrap_converges:
  assumes "boot_run e0 pv u R pos (committed w)" "unicode_lower e = unicode_lower e0"
    and "boot_page s e u req pos w = (Some (xs, False, (next_entity, next_id, c)), w')"
    and "(sync_call e0)\<^sup>*\<^sup>* (committed w') (committed w2)"
    and "pull_ok s2 e2 u req2 c w2" "length (changes_after u c (committed w2)) < fuel"
  shows "\<exists>changes w3. drain (pull_page s2 e2 u req2 pv) fuel c w2 = Some (changes, w3) \<and>
    foldl (apply_change pv) (foldl (apply_item pv) R xs) changes = client_replica pv u (committed w2)"
proof -
  note fin = boot_run_done [OF assms(1-3)]
  note later = sync_calls_journaled [OF assms(4) fin(2)]
  from client_ok_sync_calls [OF assms(4) fin(2,1)] later assms(5,6) show ?thesis
    by (intro pull_converges_lemma) (auto simp: server_ok_def)
qed

theorem bootstrap_converges_witness:
  "\<exists>changes w3. drain (pull_page ex_service (ex_env 400) 1 (ex_request 4 2 []) 1) 5 2 (snd ex_later) = Some (changes, w3) \<and>
    foldl (apply_change 1) (foldl (apply_item 1) (foldl (apply_item 1) Map.empty (fst (the (fst ex_page1)))) (fst (the (fst ex_page2)))) changes
      = client_replica 1 1 (committed (snd ex_later))"
proof -
  have "server_ok (ex_env 0) (committed ex_synced)" by code_simp
  then have 0: "boot_run (ex_env 0) 1 1 Map.empty (entitySession, uuid_nil, 0) (committed ex_synced)" by (rule boot_run.start)
  have "fst ex_page1 \<noteq> None" "snd (the (fst ex_page1)) = (True, (entitySolve, uuid_nil, 2))" by code_simp+
  note p1 = page_shape [OF this, unfolded ex_page1_def]
  have 1: "boot_run (ex_env 0) 1 1 (foldl (apply_item 1) Map.empty (fst (the (fst ex_page1)))) (entitySolve, uuid_nil, 2) (committed (snd ex_page1))"
    using boot_run.page [OF 0 _ p1] by (simp add: ex_env_def ex_page1_def)
  have "fst ex_page2 \<noteq> None" "snd (the (fst ex_page2)) = (False, ([], uuid_nil, 2))" by code_simp+
  then have p2: "boot_page ex_snapshot (ex_env 210) 1 ex_boot (entitySolve, uuid_nil, 2) (snd ex_page1) =
      (Some (fst (the (fst ex_page2)), False, ([], uuid_nil, 2)), snd ex_page2)"
    unfolding ex_page2_def by (rule page_shape)
  have "sync_call (ex_env 0) (committed (snd ex_page2)) (committed (snd ex_later))"
    unfolding ex_later_def by (rule sync_call.intros [OF _ surjective_pairing]) (simp add: ex_env_def)
  then have calls: "(sync_call (ex_env 0))\<^sup>*\<^sup>* (committed (snd ex_page2)) (committed (snd ex_later))" ..
  have ok: "pull_ok ex_service (ex_env 400) 1 (ex_request 4 2 []) 2 (snd ex_later)" by code_simp
  have fuel: "length (changes_after 1 2 (committed (snd ex_later))) < 5" by code_simp
  show ?thesis
    by (rule bootstrap_converges [OF 1 _ p2 calls ok fuel]) (simp add: ex_env_def)
qed

text \<open>
  C4. Whatever calls of Sync and Snapshot and runs of the retention job are made, with whatever
  connection failures, the database keeps its invariant: unique keys, valid rows, no dangling
  references, an increasing change log whose last entry for each entity is the stored row.
\<close>

theorem server_invariant:
  assumes "(server_step e0)\<^sup>*\<^sup>* d d'" "server_ok e0 d"
  shows "server_ok e0 d'"
  using assms by (induction rule: rtranclp_induct) (auto intro: server_ok_step)

theorem server_invariant_witness:
  "cube_sessions (committed ex_synced) \<noteq> [] \<and> server_ok (ex_env 0) (committed ex_synced)"
proof -
  have "(server_step (ex_env 0))\<^sup>*\<^sup>* (committed ex_world) (committed ex_synced)"
    using ex_synced_call by (rule rtranclp_mono [THEN predicate2D, rotated]) (blast intro: server_step.sync)
  moreover have "server_ok (ex_env 0) (committed ex_world)" by code_simp
  moreover have "cube_sessions (committed ex_synced) \<noteq> []" by code_simp
  ultimately show ?thesis using server_invariant by blast
qed






text \<open>
  A mutation that is rejected or in conflict leaves sessions, solves and the change log alone;
  a conflict reports the stored version, which differs from the one the mutation was based on.
\<close>

theorem refused_changes_nothing:
  assumes "run_state (applyMutation e u dev m pv) t = (Inr out, t')" "\<not> aborted t'" "tables_ok (tables t)"
    and "m_id m \<noteq> uuid_nil" "row_at pm_key (u, dev, m_id m) (processed_mutations (tables t)) = None"
    and "mo_status out \<noteq> ''accepted''"
  shows "same_entities (tables t) (tables t') \<and>
    (mo_status out = ''conflict'' \<longrightarrow> mo_version out = stored_version u m (tables t) \<and> stored_version u m (tables t) \<noteq> m_base_version m)"
proof -
  obtain d1 where d1: "mutation_step e u m pv (tables t) out d1" "tables t' = record_outcome (db_now e) u dev (m_id m) out d1"
    using apply_step_fresh [OF applyMutation_sim [OF assms(1-4)] assms(5)] .
  from refused_step [OF d1(1) assms(6)] show ?thesis
    by (simp add: d1(2))
qed


theorem refused_changes_nothing_witness:
  "let m = ex_update ''solve'' ''ba'' 0; t = ex_tx; out = projr (fst (ex_apply m)); t' = snd (ex_apply m) in
   same_entities (tables t) (tables t') \<and> mo_version out = stored_version 1 m (tables t) \<and> stored_version 1 m (tables t) \<noteq> 0"
proof -
  let ?m = "ex_update ''solve'' ''ba'' 0"
  have "\<not> isl (fst (ex_apply ?m))" by code_simp
  note run = ex_apply_run [OF this]
  have "\<not> aborted (snd (ex_apply ?m))" "tables_ok (tables ex_tx)" "m_id ?m \<noteq> uuid_nil"
    "row_at pm_key (1, 3, m_id ?m) (processed_mutations (tables ex_tx)) = None"
    "mo_status (projr (fst (ex_apply ?m))) \<noteq> ''accepted''" by code_simp+
  note hyps = this
  have "m_base_version ?m = 0 \<and> mo_status (projr (fst (ex_apply ?m))) = ''conflict''" by code_simp
  then show ?thesis unfolding Let_def using refused_changes_nothing [OF run hyps] by auto
qed

text \<open>
  An accepted session upsert stores exactly the decoded and validated session under the caller
  and the entity id with version base_version + 1, and touches no other session and no solve.
\<close>

theorem accepted_session_stored:
  assumes "run_state (applyMutation e u dev m pv) t = (Inr out, t')" "\<not> aborted t'" "tables_ok (tables t)"
    and "m_id m \<noteq> uuid_nil" "row_at pm_key (u, dev, m_id m) (processed_mutations (tables t)) = None"
    and "mo_status out = ''accepted''" "m_entity m = ''session''" "m_operation m = ''upsert''"
  shows "\<exists>x. unmarshalSession e (m_data m) = Some x \<and> validateSession e x (m_entity_id m) = [] \<and>
    row_at cs_key (u, m_entity_id m) (cube_sessions (tables t')) = Some (session_row (db_now e) u (m_base_version m + 1) x) \<and>
    (\<forall>k. k \<noteq> (u, m_entity_id m) \<longrightarrow> row_at cs_key k (cube_sessions (tables t')) = row_at cs_key k (cube_sessions (tables t))) \<and>
    solves (tables t') = solves (tables t)"
proof -
  obtain d1 where d1: "mutation_step e u m pv (tables t) out d1" "tables t' = record_outcome (db_now e) u dev (m_id m) out d1"
    using apply_step_fresh [OF applyMutation_sim [OF assms(1-4)] assms(5)] .
  from accepted_session [OF d1(1) assms(6-8)] show ?thesis
    by (auto simp: d1(2) record_outcome_def row_at_write_row row_keys validated_id)
qed


theorem accepted_session_stored_witness:
  "let m = ex_update ''session'' ''a'' 1; t = ex_tx; t' = snd (ex_apply m) in
   \<exists>x. row_at cs_key (1, m_entity_id m) (cube_sessions (tables t')) = Some (session_row (db_now (ex_env 300)) 1 (m_base_version m + 1) x) \<and>
     solves (tables t') = solves (tables t)"
proof -
  let ?m = "ex_update ''session'' ''a'' 1"
  have "\<not> isl (fst (ex_apply ?m))" by code_simp
  note run = ex_apply_run [OF this]
  have "\<not> aborted (snd (ex_apply ?m))" "tables_ok (tables ex_tx)" "m_id ?m \<noteq> uuid_nil"
    "row_at pm_key (1, 3, m_id ?m) (processed_mutations (tables ex_tx)) = None"
    "mo_status (projr (fst (ex_apply ?m))) = ''accepted''" "m_entity ?m = ''session''" "m_operation ?m = ''upsert''" by code_simp+
  note hyps = this
  show ?thesis unfolding Let_def using accepted_session_stored [OF run hyps] by blast
qed

text \<open>
  C6. An accepted solve upsert stores exactly the decoded and validated solve, with the timing
  device defaulted to keyboard, refers to an existing session of the same user if to any, and
  touches no other solve and no session.
\<close>

theorem accepted_solve_stored:
  assumes "run_state (applyMutation e u dev m pv) t = (Inr out, t')" "\<not> aborted t'" "tables_ok (tables t)"
    and "m_id m \<noteq> uuid_nil" "row_at pm_key (u, dev, m_id m) (processed_mutations (tables t)) = None"
    and "mo_status out = ''accepted''" "m_entity m = ''solve''" "m_operation m = ''upsert''"
  shows "\<exists>x. unmarshalSolve e (m_data m) = Some x \<and> validateSolve e x (m_entity_id m) = [] \<and>
    session_ref_ok u (sv_session_id x) (tables t) \<and>
    row_at sf_key (u, m_entity_id m) (solves (tables t')) =
      Some (solve_row (db_now e) u (m_base_version m + 1) (with_timing_device x)) \<and>
    (\<forall>k. k \<noteq> (u, m_entity_id m) \<longrightarrow> row_at sf_key k (solves (tables t')) = row_at sf_key k (solves (tables t))) \<and>
    cube_sessions (tables t') = cube_sessions (tables t)"
proof -
  obtain d1 where d1: "mutation_step e u m pv (tables t) out d1" "tables t' = record_outcome (db_now e) u dev (m_id m) out d1"
    using apply_step_fresh [OF applyMutation_sim [OF assms(1-4)] assms(5)] .
  from accepted_solve [OF d1(1) assms(6-8)] show ?thesis
    by (auto simp: d1(2) record_outcome_def row_at_write_row row_keys validated_id)
qed


theorem accepted_solve_stored_witness:
  "let m = ex_update ''solve'' ''ba'' 1; t = ex_tx; t' = snd (ex_apply m) in
   \<exists>x. row_at sf_key (1, m_entity_id m) (solves (tables t')) =
       Some (solve_row (db_now (ex_env 300)) 1 (m_base_version m + 1) (with_timing_device x)) \<and>
     session_ref_ok 1 (sv_session_id x) (tables t)"
proof -
  let ?m = "ex_update ''solve'' ''ba'' 1"
  have "\<not> isl (fst (ex_apply ?m))" by code_simp
  note run = ex_apply_run [OF this]
  have "\<not> aborted (snd (ex_apply ?m))" "tables_ok (tables ex_tx)" "m_id ?m \<noteq> uuid_nil"
    "row_at pm_key (1, 3, m_id ?m) (processed_mutations (tables ex_tx)) = None"
    "mo_status (projr (fst (ex_apply ?m))) = ''accepted''" "m_entity ?m = ''solve''" "m_operation ?m = ''upsert''" by code_simp+
  note hyps = this
  show ?thesis unfolding Let_def using accepted_solve_stored [OF run hyps] by blast
qed

text \<open>
  C7. Without connection failures, a valid request whose cursor has not expired and whose
  mutations can be stored is answered, with one outcome for every mutation.
\<close>

theorem sync_answers:
  assumes "faults w = []" "validateRequest s req = None" "rq_mutations req \<noteq> []"
    and "server_ok e (committed w)" "user_exists u (committed w)"
    and "text_ok (d_name (rq_device req))" "text_ok (d_platform (rq_device req))" "json_time_ok (db_now e)"
    and "\<forall>m\<in>set (rq_mutations req). storable e u m (committed w)"
    and "fst (run_state (checkCursorNotExpired s e u (rq_cursor req)) w) = Inr ()"
    and "0 \<le> effective_limit s (rq_limit req)" "effective_limit s (rq_limit req) < 2 ^ 31 - 1"
  shows "\<exists>resp w'. run_state (Sync s e u req pv) w = (Inr resp, w') \<and>
    map mo_mutation_id (rs_outcomes resp) = map m_id (rq_mutations req)"
proof -
  have ok: "tables_ok (committed w)" "rows_ok e (committed w)" using assms(4) by (auto simp: server_ok_def)
  from Sync_answers [OF assms(1-3) ok assms(5-)] obtain resp w' where run: "run_state (Sync s e u req pv) w = (Inr resp, w')"
    by blast
  with Sync_outcome_ids [OF run assms(3) ok(1)] show ?thesis by blast
qed


theorem sync_answers_witness:
  "\<exists>resp w'. run_state (Sync ex_service (ex_env 300) 1 (ex_request 3 2 [ex_update ''solve'' ''ca'' 0, ex_delete ''session'' ''a'' 1]) 2) ex_synced = (Inr resp, w') \<and>
    map mo_mutation_id (rs_outcomes resp) = [31, 32]"
proof -
  let ?req = "ex_request 3 2 [ex_update ''solve'' ''ca'' 0, ex_delete ''session'' ''a'' 1]"
  have "faults ex_synced = []" "validateRequest ex_service ?req = None" "rq_mutations ?req \<noteq> []"
    "server_ok (ex_env 300) (committed ex_synced)" "user_exists 1 (committed ex_synced)"
    "text_ok (d_name (rq_device ?req))" "text_ok (d_platform (rq_device ?req))" "json_time_ok (db_now (ex_env 300))"
    "\<forall>m\<in>set (rq_mutations ?req). storable (ex_env 300) 1 m (committed ex_synced)"
    "fst (run_state (checkCursorNotExpired ex_service (ex_env 300) 1 (rq_cursor ?req)) ex_synced) = Inr ()"
    "0 \<le> effective_limit ex_service (rq_limit ?req)" "effective_limit ex_service (rq_limit ?req) < 2 ^ 31 - 1"
    by code_simp+
  note hyps = this
  have "map m_id (rq_mutations ?req) = [31, 32]" by code_simp
  with sync_answers [OF hyps, of 2] show ?thesis by metis
qed

text \<open>
  C9. No call of Sync loses a session or a solve: every stored row is afterwards still there,
  unchanged or with a larger version.
\<close>

theorem sync_versions_kept:
  assumes "run_state (Sync s e u req pv) w = (r, w')" "tables_ok (committed w)"
  shows "versions_kept (committed w) (committed w')"
  using state_io_relD [OF versions.service_Sync assms(1)] assms(2) by blast

theorem sync_versions_kept_witness:
  "cube_sessions (committed (snd ex_edit)) \<noteq> cube_sessions (committed ex_synced) \<and>
   versions_kept (committed ex_synced) (committed (snd ex_edit))"
proof -
  have "cube_sessions (committed (snd ex_edit)) \<noteq> cube_sessions (committed ex_synced)" by code_simp
  with sync_versions_kept [OF ex_edit_run ex_synced_ok] show ?thesis by blast
qed

text \<open>
  A call of Sync for one user leaves every other user's devices, sessions, solves, processed
  mutations and log entries, and all accounts and credentials, as they were.
\<close>

theorem sync_isolates_users:
  assumes "run_state (Sync s e u req pv) w = (r, w')" "tables_ok (committed w)"
  shows "others_kept u (committed w) (committed w')"
  using state_io_relD [OF others.service_Sync assms(1)] assms(2) by blast

theorem sync_isolates_users_witness: "others_kept 1 (committed ex_synced) (committed (snd ex_edit))"
  using sync_isolates_users [OF ex_edit_run ex_synced_ok] .

text \<open>
  C10. The change log is a faithful journal: whatever a call of Sync did to any user's entities,
  replaying the entries it appended on the previous state gives the new state.
\<close>

theorem sync_journaled:
  assumes "run_state (Sync s e u req pv) w = (r, w')" "tables_ok (committed w)"
  shows "journaled (committed w) (committed w')"
  using state_io_relD [OF journal.service_Sync assms(1)] assms(2) by blast

theorem sync_journaled_witness: "journaled (committed ex_synced) (committed (snd ex_edit))"
  using sync_journaled [OF ex_edit_run ex_synced_ok] .

text \<open>
  C8. A call that returns an error has changed no user, session, solve, processed mutation or log
  entry; only when the connection failed may the batch have been committed, and then it is
  committed as a whole.
\<close>

theorem sync_error_atomic:
  assumes "run_state (Sync s e u req pv) w = (Inl err, w')" "tables_ok (committed w)"
  shows "same_data (committed w) (committed w') \<or>
    err = PgError ConnectionFailure \<and>
    (\<exists>outs. applied_once {e} u (d_id (rq_device req)) pv (order_mutations (rq_mutations req)) (committed w) outs (committed w'))"
  using assms by (rule Sync_error)

theorem sync_error_atomic_witness:
  "\<exists>outs. applied_once {ex_env 300} 1 3 2 (order_mutations [ex_update ''session'' ''a'' 1]) (committed ex_synced) outs (committed (snd ex_lost))"
proof -
  have ok: "tables_ok (committed (ex_synced\<lparr>faults := replicate 9 Delivered @ [LostAck]\<rparr>))" using ex_synced_ok by simp
  have "cube_sessions (committed (snd ex_lost)) \<noteq> cube_sessions (committed ex_synced)" by code_simp
  with sync_error_atomic [OF ex_lost_run ok] show ?thesis
    by (auto simp: same_data_def ex_request_def ex_device_def)
qed

text \<open>
  C11. The outcomes of an answer are in the order of the mutations of the request, one for each,
  with the same ids, although the server applies them in another order.
\<close>

theorem sync_outcomes_match:
  assumes "run_state (Sync s e u req pv) w = (Inr resp, w')" "tables_ok (committed w)"
  shows "map mo_mutation_id (rs_outcomes resp) = map m_id (rq_mutations req) \<and>
    distinct (map mo_mutation_id (rs_outcomes resp))"
proof -
  have "validateRequest s req = None" using assms(1) by (auto simp: Sync_def split: option.splits)
  from validateRequest_None(5) [OF this] have "distinct (map m_id (rq_mutations req))" .
  moreover have "map mo_mutation_id (rs_outcomes resp) = map m_id (rq_mutations req)"
  proof (cases "rq_mutations req = []")
    case True
    with assms(1) show ?thesis
      by (auto simp: Sync_def pullOnly_def Let_def split: option.splits prod.splits sum.splits if_splits)
  qed (use Sync_outcome_ids assms in blast)
  ultimately show ?thesis by simp
qed

theorem sync_outcomes_match_witness: "map mo_mutation_id (rs_outcomes (projr (fst ex_edit))) = [31]"
  using sync_outcomes_match [OF ex_edit_run ex_synced_ok] by (simp add: ex_request_def ex_update_def ex_mutation_def)


text \<open>
  C13. The changes of an answer are a prefix of the caller's changes after its cursor, not empty
  when there are any, at most the limit, within the byte budget unless it is a single change;
  has_more and next_cursor say exactly where it stops.
\<close>

theorem sync_page_bounds:
  assumes "run_state (Sync s e u req pv) w = (Inr resp, w')" "tables_ok (committed w)"
    and "1 \<le> effective_limit s (rq_limit req)" "effective_limit s (rq_limit req) < 2 ^ 31 - 1"
  shows "\<exists>n \<le> length (changes_after u (rq_cursor req) (committed w')).
    rs_changes resp = map (buildChange pv) (take n (changes_after u (rq_cursor req) (committed w'))) \<and>
    (rs_has_more resp \<longleftrightarrow> n < length (changes_after u (rq_cursor req) (committed w'))) \<and>
    rs_next_cursor resp = cursor_at (rq_cursor req) (take n (changes_after u (rq_cursor req) (committed w'))) \<and>
    (changes_after u (rq_cursor req) (committed w') \<noteq> [] \<longrightarrow> 0 < n) \<and>
    int n \<le> effective_limit s (rq_limit req) \<and>
    (0 < maxResponseBytes s \<and> 1 < n \<longrightarrow> change_bytes (doc_len e) (rs_changes resp) \<le> maxResponseBytes s)"
  using assms by (rule Sync_page)


theorem sync_page_bounds_witness:
  "\<exists>n \<le> length (changes_after 1 2 (committed (snd ex_edit))).
    rs_changes (projr (fst ex_edit)) = map (buildChange 2) (take n (changes_after 1 2 (committed (snd ex_edit)))) \<and>
    0 < n \<and> int n \<le> 1000"
proof -
  let ?req = "ex_request 3 2 [ex_update ''session'' ''a'' 1]"
  have "1 \<le> effective_limit ex_service (rq_limit ?req)" "effective_limit ex_service (rq_limit ?req) < 2 ^ 31 - 1"
    "rq_cursor ?req = 2 \<and> effective_limit ex_service (rq_limit ?req) = 1000"
    "changes_after 1 2 (committed (snd ex_edit)) \<noteq> []" by code_simp+
  with sync_page_bounds [OF ex_edit_run ex_synced_ok] show ?thesis by auto
qed



text \<open>
  C15. A retention run never takes from an active device a change it has not acknowledged: the
  feed after its cursor is the same before and after the run.
\<close>

theorem retention_keeps_clients:
  assumes "run_state (runOnce rs e) w = (r, w')" "log_ok (committed w)"
    and "dev \<in> set (devices (committed w))" "active (go_now e - effectiveInactiveWindow (retInactiveDeviceWindow rs)) u dev"
    and "dv_last_ack_cursor dev \<le> c" "0 \<le> c" "client_ok pv u S R c (committed w)"
  shows "client_ok pv u S R c (committed w') \<and> changes_after u c (committed w') = changes_after u c (committed w)"
  using state_io_relD [OF runOnce_pruned assms(1)] client_ok_pruned changes_after_pruned assms(2-) by blast

theorem retention_keeps_clients_witness:
  "change_log (committed ex_pruned) \<noteq> change_log (committed ex_acked) \<and>
   client_ok 1 1 {} Map.empty 3 (committed ex_pruned) \<and>
   changes_after 1 3 (committed ex_pruned) = changes_after 1 3 (committed ex_acked)"
proof -
  let ?d = "committed ex_acked" and ?e = "ex_env (ex_days 100)"
  let ?dev = "hd (filter (\<lambda>r. dv_id r = 3) (devices ?d))"
  note ex_pruned_run
  moreover have "log_ok ?d" "?dev \<in> set (devices ?d)"
    "active (go_now ?e - effectiveInactiveWindow (retInactiveDeviceWindow ex_retention)) 1 ?dev"
    "dv_last_ack_cursor ?dev \<le> 3" "change_log (committed ex_pruned) \<noteq> change_log ?d" "3 \<le> change_seq ?d" by code_simp+
  moreover from this have "client_ok 1 1 {} Map.empty 3 ?d" by (simp add: client_ok_def)
  ultimately show ?thesis using retention_keeps_clients [of ex_retention ?e ex_acked "()" ex_pruned ?dev 1 3 1 "{}" Map.empty] by simp
qed

text \<open>
  A retention run deletes no session, solve or device, draws no change id, and keeps every
  processed mutation younger than the window, so that a retry within it is still recognised.
\<close>

theorem retention_keeps_entities:
  assumes "run_state (runOnce rs e) w = (r, w')"
  shows "cube_sessions (committed w') = cube_sessions (committed w) \<and> solves (committed w') = solves (committed w) \<and>
    devices (committed w') = devices (committed w) \<and> change_seq (committed w') = change_seq (committed w) \<and>
    (\<forall>p\<in>set (processed_mutations (committed w)).
       go_now e - effectiveInactiveWindow (retInactiveDeviceWindow rs) \<le> pm_created_at p \<longrightarrow> p \<in> set (processed_mutations (committed w')))"
  using state_io_relD [OF runOnce_pruned assms] by (auto simp: pruned_def)

theorem retention_keeps_entities_witness:
  "cube_sessions (committed ex_pruned) = cube_sessions (committed ex_acked) \<and>
   processed_mutations (committed ex_pruned) \<noteq> processed_mutations (committed ex_acked) \<and>
   the (row_at pm_key (1, 3, 31) (processed_mutations (committed ex_acked))) \<in> set (processed_mutations (committed ex_pruned))"
proof -
  let ?p = "the (row_at pm_key (1, 3, 31) (processed_mutations (committed ex_acked)))"
  have "processed_mutations (committed ex_pruned) \<noteq> processed_mutations (committed ex_acked)"
    "?p \<in> set (processed_mutations (committed ex_acked))"
    "go_now (ex_env (ex_days 100)) - effectiveInactiveWindow (retInactiveDeviceWindow ex_retention) \<le> pm_created_at ?p"
    by code_simp+
  with retention_keeps_entities [OF ex_pruned_run] show ?thesis by blast
qed

text \<open>
  C16. The expiry check refuses exactly the positive cursors below the least acknowledgement of
  the user's active devices, and changes nothing.
\<close>

theorem cursor_expiry_exact:
  assumes "faults w = []"
    and "acks = active_acks (go_now e - effectiveInactiveWindow (inactiveDeviceWindow s)) u (committed w)"
  shows "run_state (checkCursorNotExpired s e u c) w =
    (if 0 < c \<and> acks \<noteq> [] \<and> c < Min (set acks)
     then Inl (ClientError ''cursor_expired'' ''your sync cursor has expired; perform a full resync'') else Inr (), w)"
proof -
  have "acks = map dv_last_ack_cursor (filter (\<lambda>r. dv_user_id r = u \<and>
      go_now e - effectiveInactiveWindow (inactiveDeviceWindow s) < dv_last_seen_at r) (devices (committed w)))"
    by (simp add: assms(2) active_acks_def active_def [abs_def])
  then show ?thesis
    using assms(1) by (auto simp: checkCursorNotExpired_def run_simps MinValidCursorForUser_def Let_def)
qed

theorem cursor_expiry_exact_witness:
  "run_state (checkCursorNotExpired ex_service (ex_env (ex_days 100)) 1 1) ex_pruned =
     (Inl (ClientError ''cursor_expired'' ''your sync cursor has expired; perform a full resync''), ex_pruned)"
proof -
  have "faults ex_pruned = []"
    "[3] = active_acks (go_now (ex_env (ex_days 100)) - effectiveInactiveWindow (inactiveDeviceWindow ex_service)) 1 (committed ex_pruned)"
    by code_simp+
  from cursor_expiry_exact [OF this, of 1] show ?thesis by simp
qed


text \<open>
  C18. A solve that refers to a session that does not exist is not rejected on its own: the
  statement has already failed the transaction, recording the outcome fails, and the whole batch
  returns an internal error.
\<close>

theorem dangling_session_fails:
  assumes "tx_faults t = []" "\<not> aborted t"
    and "row_at pm_key (u, dev, m_id m) (processed_mutations (tables t)) = None" "validateMutationEnvelope m = None"
    and "m_entity m = ''solve''" "m_operation m = ''upsert''" "m_base_version m = 0"
    and "unmarshalSolve e (m_data m) = Some x" "validateSolve e x (m_entity_id m) = []" "solve_text_ok (with_timing_device x)"
    and "row_at sf_key (u, m_entity_id m) (solves (tables t)) = None"
    and "user_exists u (tables t)" "\<not> session_ref_ok u (sv_session_id x) (tables t)"
  shows "fst (run_state (applyMutation e u dev m pv) t) = Inl (PgError InFailedTransaction)"
  using assms by (rule applyMutation_dangling)

theorem dangling_session_fails_witness:
  "fst (ex_apply (ex_update ''solve'' ''cz'' 0)) = Inl (PgError InFailedTransaction)"
proof -
  let ?m = "ex_update ''solve'' ''cz'' 0" and ?x = "the (ex_solve ''cz'')"
  have "tx_faults ex_tx = []" "\<not> aborted ex_tx"
    "row_at pm_key (1, 3, m_id ?m) (processed_mutations (tables ex_tx)) = None" "validateMutationEnvelope ?m = None"
    "m_entity ?m = ''solve''" "m_operation ?m = ''upsert''" "m_base_version ?m = 0"
    "unmarshalSolve (ex_env 300) (m_data ?m) = Some ?x" "validateSolve (ex_env 300) ?x (m_entity_id ?m) = []"
    "solve_text_ok (with_timing_device ?x)" "row_at sf_key (1, m_entity_id ?m) (solves (tables ex_tx)) = None"
    "user_exists 1 (tables ex_tx)" "\<not> session_ref_ok 1 (sv_session_id ?x) (tables ex_tx)"
    by code_simp+
  from dangling_session_fails [OF this, of 2] show ?thesis by (simp add: ex_apply_def)
qed

end
