(* ===== verification/Stats.thy ===== *)
theory Stats
  imports Sync_Spec "HOL-Library.Signed_Division"
begin

text \<open>
  The statistics of \<open>internal/sync/retention.go\<close> (\<open>StatsService\<close>) and its two queries.

  The columns of type \<open>float8\<close> are computed by PostgreSQL from the effective times of the counted
  solves; how it rounds them is the parameter \<open>float_agg\<close> (\<open>avg8\<close> and \<open>stddev8\<close>), and their type is
  a type variable. Everything else is integers: sums of \<open>bigint\<close> that leave 64 bits are an error
  of the server, the Go sum of the averages wraps around.
\<close>

record 'f float_agg =
  avg8 :: "int list \<Rightarrow> 'f"
  stddev8 :: "int list \<Rightarrow> 'f"
  float8_of :: "int \<Rightarrow> 'f"
  int64_of_float :: "'f \<Rightarrow> int"

definition MaxInt64 :: int where
  "MaxInt64 = 2 ^ 63 - 1"

definition int64 :: "int \<Rightarrow> int" where
  "int64 x = (x + 2 ^ 63) mod 2 ^ 64 - 2 ^ 63"

definition fits_bigint :: "int \<Rightarrow> bool" where
  "fits_bigint x \<longleftrightarrow> - (2 ^ 63) \<le> x \<and> x \<le> MaxInt64"


subsection \<open>The queries\<close>

record 'f UserSolveStatsRow =
  st_total_count :: int
  st_counted_count :: int
  st_min_ms :: int
  st_max_ms :: int
  st_mean_ms :: 'f
  st_stddev_ms :: 'f
  st_total_ms :: int
  st_dnf_count :: int

text \<open>A value behind \<open>interface{}\<close>.\<close>

datatype 'f go_value = Int64V int | Int32V int | Int16V int | Float64V 'f | IntV int | OtherV

record 'f UserSolveAoNRow =
  ar_effective_ms :: "'f go_value"
  ar_penalty :: string

definition effective_ms :: "Solf \<Rightarrow> int" where
  "effective_ms r = (if sf_penalty r = ''plus_two'' then sf_duration_ms r + 2000 else sf_duration_ms r)"

definition live_solves :: "uuid \<Rightarrow> string \<Rightarrow> db \<Rightarrow> Solf list" where
  "live_solves user_id event d = filter (\<lambda>r. sf_user_id r = user_id \<and> sf_deleted_at r = None \<and>
     (event = [] \<or> sf_event r = event)) (solves d)"

definition UserSolveAoN :: "uuid \<Rightarrow> string \<Rightarrow> int \<Rightarrow> 'f UserSolveAoNRow list stmt" where
  "UserSolveAoN user_id event lim d =
     (let rows = live_solves user_id event d in
      if lim < 0 then (Inl NegativeLimit, d)
      else if \<not> text_ok event then (Inl InvalidText, d)
      else if \<not> list_all (\<lambda>r. fits_bigint (effective_ms r)) rows then (Inl OutOfRange, d)
      else (Inr (map (\<lambda>r. \<lparr> ar_effective_ms = Int64V (effective_ms r), ar_penalty = sf_penalty r \<rparr>)
              (take (nat lim) (rev (sort_key (\<lambda>r. LexPair (sf_solved_at r) (sf_id r)) rows)))), d))"

definition UserSolveStats :: "'f float_agg \<Rightarrow> uuid \<Rightarrow> string \<Rightarrow> 'f UserSolveStatsRow stmt" where
  "UserSolveStats fa user_id event d =
     (let rows = live_solves user_id event d;
          ms = map effective_ms (filter (\<lambda>r. sf_penalty r \<noteq> ''dnf'') rows) in
      if \<not> text_ok event then (Inl InvalidText, d)
      else if \<not> list_all fits_bigint ms \<or> \<not> fits_bigint (sum_list ms) then (Inl OutOfRange, d)
      else (Inr \<lparr> st_total_count = int (length rows), st_counted_count = int (length ms),
              st_min_ms = (if ms = [] then 0 else Min (set ms)),
              st_max_ms = (if ms = [] then 0 else Max (set ms)),
              st_mean_ms = (if ms = [] then float8_of fa 0 else avg8 fa ms),
              st_stddev_ms = (if ms = [] then float8_of fa 0 else stddev8 fa ms),
              st_total_ms = sum_list ms,
              st_dnf_count = int (length (filter (\<lambda>r. sf_penalty r = ''dnf'') rows)) \<rparr>, d))"


subsection \<open>The service\<close>

record StatsRequest =
  sx_event :: string

record 'f StatsResponse =
  sp_total_count :: int
  sp_counted_count :: int
  sp_dnf_count :: int
  sp_min_ms :: int
  sp_max_ms :: int
  sp_mean_ms :: 'f
  sp_stddev_ms :: 'f
  sp_total_ms :: int
  sp_ao5 :: "int option"
  sp_ao12 :: "int option"
  sp_ao50 :: "int option"
  sp_ao100 :: "int option"
  sp_dnf_averages :: "string list"

definition toInt64 :: "'f float_agg \<Rightarrow> 'f go_value \<Rightarrow> int option" where
  "toInt64 fa v =
     (case v of Int64V x \<Rightarrow> Some x | Int32V x \<Rightarrow> Some x | Int16V x \<Rightarrow> Some x
      | Float64V x \<Rightarrow> Some (int64_of_float fa x) | IntV x \<Rightarrow> Some x | OtherV \<Rightarrow> None)"

text \<open>
  The average, or \<open>(None, True)\<close> for a DNF average. The slice \<open>sorted[k : n-k]\<close> panics when
  \<open>n - k < k\<close>, and indexing the last of an empty slice panics: \<open>None\<close>.
\<close>

definition computeAoNFromTimes :: "int list \<Rightarrow> int \<Rightarrow> (int option \<times> bool) option" where
  "computeAoNFromTimes ms n =
     (if n \<le> 0 \<or> int (length ms) < n then Some (None, False)
      else
        let sorted' = sort (take (nat n) ms);
            k = (n + 19) sdiv 20 in
        if n - k < k then None
        else
          let trimmed = take (nat (n - k) - nat k) (drop (nat k) sorted') in
          if trimmed = [] then None
          else if last trimmed = MaxInt64 then Some (None, True)
          else
            let sum' = foldl (\<lambda>s t. int64 (s + t)) 0 trimmed;
                count = int (length trimmed);
                mean = int64 (int64 (sum' + count sdiv 2) sdiv count) in
            Some (Some mean, False))"

fun aonTimes :: "'f float_agg \<Rightarrow> 'f UserSolveAoNRow list \<Rightarrow> int list option" where
  "aonTimes fa [] = Some []"
| "aonTimes fa (row # rows) =
     (if ar_penalty row = ''dnf'' then map_option ((#) MaxInt64) (aonTimes fa rows)
      else case toInt64 fa (ar_effective_ms row) of
        None \<Rightarrow> None
      | Some t \<Rightarrow> map_option ((#) t) (aonTimes fa rows))"

definition computeAoN :: "'f float_agg \<Rightarrow> uuid \<Rightarrow> string \<Rightarrow> int \<Rightarrow> (world, error + int option \<times> bool) state" where
  "computeAoN fa userID event n = do {
     got \<leftarrow> exec_pool (UserSolveAoN userID event (int32 n));
     case got of
       Inl err \<Rightarrow> State_Monad.return (Inl (PgError err))
     | Inr rows \<Rightarrow>
         (case aonTimes fa rows of
            None \<Rightarrow> State_Monad.return (Inl (OtherError ''unexpected effective_ms type''))
          | Some ms \<Rightarrow>
              (case computeAoNFromTimes ms n of
                 None \<Rightarrow> State_Monad.return (Inl GoPanic)
               | Some r \<Rightarrow> State_Monad.return (Inr r)))
   }"

definition set_average :: "int \<Rightarrow> int option \<Rightarrow> 'f StatsResponse \<Rightarrow> 'f StatsResponse" where
  "set_average n ao resp =
     (if n = 5 then resp\<lparr>sp_ao5 := ao\<rparr> else if n = 12 then resp\<lparr>sp_ao12 := ao\<rparr>
      else if n = 50 then resp\<lparr>sp_ao50 := ao\<rparr> else if n = 100 then resp\<lparr>sp_ao100 := ao\<rparr> else resp)"

fun averagesLoop ::
  "'f float_agg \<Rightarrow> uuid \<Rightarrow> string \<Rightarrow> int \<Rightarrow> int list \<Rightarrow> 'f StatsResponse \<Rightarrow> (world, error + 'f StatsResponse) state" where
  "averagesLoop fa userID event solved [] resp = State_Monad.return (Inr resp)"
| "averagesLoop fa userID event solved (n # ns) resp =
     (if solved < n then State_Monad.return (Inr resp)
      else do {
        r \<leftarrow> computeAoN fa userID event n;
        case r of
          Inl err \<Rightarrow> State_Monad.return (Inl err)
        | Inr (ao, isDNF) \<Rightarrow>
            averagesLoop fa userID event solved ns
              (if isDNF then resp\<lparr>sp_dnf_averages := sp_dnf_averages resp @ [''ao'' @ Sprint_d n]\<rparr>
               else set_average n ao resp)
      })"

definition ComputeStats :: "'f float_agg \<Rightarrow> uuid \<Rightarrow> StatsRequest \<Rightarrow> (world, error + 'f StatsResponse) state" where
  "ComputeStats fa userID req = do {
     got \<leftarrow> exec_pool (UserSolveStats fa userID (sx_event req));
     case got of
       Inl err \<Rightarrow> State_Monad.return (Inl (PgError err))
     | Inr row \<Rightarrow>
         averagesLoop fa userID (sx_event req) (int64 (st_counted_count row + st_dnf_count row)) [5, 12, 50, 100]
           \<lparr> sp_total_count = st_total_count row, sp_counted_count = st_counted_count row,
             sp_dnf_count = st_dnf_count row, sp_min_ms = st_min_ms row, sp_max_ms = st_max_ms row,
             sp_mean_ms = st_mean_ms row, sp_stddev_ms = st_stddev_ms row, sp_total_ms = st_total_ms row,
             sp_ao5 = None, sp_ao12 = None, sp_ao50 = None, sp_ao100 = None, sp_dnf_averages = [] \<rparr>
   }"


subsection \<open>The averages\<close>

text \<open>
  The reference: drop the \<open>k\<close> best and the \<open>k\<close> worst of the last \<open>n\<close> times, a twentieth each
  rounded up, and round the mean of the rest to the nearest integer; with more than \<open>k\<close> DNFs
  one of them is left and there is no average.
\<close>

definition trim_count :: "nat \<Rightarrow> nat" where
  "trim_count n = (n + 19) div 20"

definition middle :: "nat \<Rightarrow> int list \<Rightarrow> int list" where
  "middle n ms = take (n - 2 * trim_count n) (drop (trim_count n) (sort (take n ms)))"

definition dnf_count :: "nat \<Rightarrow> int list \<Rightarrow> nat" where
  "dnf_count n ms = length (filter (\<lambda>t. t = MaxInt64) (take n ms))"

definition wca_average :: "nat \<Rightarrow> int list \<Rightarrow> int option" where
  "wca_average n ms =
     (let mid = middle n ms; c = int (length mid) in
      if trim_count n < dnf_count n ms then None else Some ((2 * sum_list mid + c) div (2 * c)))"

lemma trim_count_bounds: "3 \<le> n \<Longrightarrow> 2 * trim_count n < n" "0 < n \<Longrightarrow> 0 < trim_count n"
  by (simp_all add: trim_count_def)

lemma last_of_sorted:
  fixes xs :: "int list"
  assumes "sorted xs" "\<forall>x\<in>set xs. x \<le> M" "j < length xs"
  shows "xs ! j = M \<longleftrightarrow> length xs - j \<le> length (filter (\<lambda>x. x = M) xs)"
proof
  assume "xs ! j = M"
  have "\<forall>x\<in>set (drop j xs). x = M"
  proof
    fix x assume "x \<in> set (drop j xs)"
    then obtain i where "i < length xs - j" "x = xs ! (j + i)" by (auto simp: in_set_conv_nth)
    with sorted_nth_mono [OF assms(1), of j "j + i"] assms(2) \<open>xs ! j = M\<close> show "x = M" by (auto simp: antisym)
  qed
  then have "filter (\<lambda>x. x = M) (drop j xs) = drop j xs" by (simp add: filter_id_conv)
  then have "length xs - j = length (filter (\<lambda>x. x = M) (drop j xs))" by simp
  also have "\<dots> \<le> length (filter (\<lambda>x. x = M) xs)"
    by (metis append_take_drop_id filter_append length_append le_add2)
  finally show "length xs - j \<le> length (filter (\<lambda>x. x = M) xs)" .
next
  assume le: "length xs - j \<le> length (filter (\<lambda>x. x = M) xs)"
  show "xs ! j = M"
  proof (rule ccontr)
    assume "xs ! j \<noteq> M"
    have "filter (\<lambda>x. x = M) (take (Suc j) xs) = []"
    proof -
      have "x \<noteq> M" if "x \<in> set (take (Suc j) xs)" for x
      proof -
        from that obtain i where "i < length xs" "i \<le> j" "x = xs ! i" by (auto simp: in_set_conv_nth)
        with sorted_nth_mono [OF assms(1), of i j] assms(2,3) \<open>xs ! j \<noteq> M\<close> show ?thesis
          by (metis antisym nth_mem)
      qed
      then show ?thesis by (simp add: filter_empty_conv)
    qed
    then have "filter (\<lambda>x. x = M) xs = filter (\<lambda>x. x = M) (drop (Suc j) xs)"
      by (metis append_take_drop_id filter_append append_Nil)
    then have "length (filter (\<lambda>x. x = M) xs) \<le> length xs - Suc j"
      by (metis length_drop length_filter_le)
    with le assms(3) show False by simp
  qed
qed

lemma length_middle: "3 \<le> n \<Longrightarrow> n \<le> length ms \<Longrightarrow> length (middle n ms) = n - 2 * trim_count n"
  using trim_count_bounds(1) [of n] by (simp add: middle_def)

lemma middle_subset: "set (middle n ms) \<subseteq> set (take n ms)"
  by (auto simp: middle_def dest!: in_set_takeD in_set_dropD)

lemma last_middle:
  assumes "3 \<le> n" "n \<le> length ms" "\<forall>t\<in>set ms. t \<le> MaxInt64"
  shows "last (middle n ms) = MaxInt64 \<longleftrightarrow> trim_count n < dnf_count n ms"
proof -
  let ?xs = "sort (take n ms)" and ?k = "trim_count n"
  note k = trim_count_bounds(1) [OF assms(1)] trim_count_bounds(2) [of n]
  have ne: "middle n ms \<noteq> []" using length_middle [OF assms(1,2)] k by auto
  have "last (middle n ms) = ?xs ! (n - ?k - 1)"
    using k assms(1,2) by (subst last_conv_nth [OF ne]) (simp add: length_middle middle_def)
  moreover have "?xs ! (n - ?k - 1) = MaxInt64 \<longleftrightarrow> length ?xs - (n - ?k - 1) \<le> length (filter (\<lambda>x. x = MaxInt64) ?xs)"
    using k assms by (intro last_of_sorted) (auto dest: in_set_takeD)
  moreover have "length ?xs - (n - ?k - 1) = Suc ?k" using k assms(1,2) by simp
  moreover have "length (filter (\<lambda>x. x = MaxInt64) ?xs) = dnf_count n ms"
    by (simp add: dnf_count_def filter_sort)
  ultimately show ?thesis by (simp add: Suc_le_eq)
qed

lemma le_last: "sorted xs \<Longrightarrow> x \<in> set xs \<Longrightarrow> x \<le> last (xs :: int list)"
  by (induction xs) auto

lemma int64_id: "- (2 ^ 63) \<le> x \<Longrightarrow> x < 2 ^ 63 \<Longrightarrow> int64 x = x"
  by (simp add: int64_def)

lemma wrapped_sum:
  assumes "\<forall>t\<in>set ts. 0 \<le> t" "0 \<le> s" "s + sum_list ts < 2 ^ 63"
  shows "foldl (\<lambda>s t. int64 (s + t)) s ts = s + sum_list ts"
  using assms
proof (induction ts arbitrary: s)
  case (Cons t ts)
  then have "0 \<le> sum_list ts" by (intro sum_list_nonneg) simp
  with Cons.prems have "int64 (s + t) = s + t" by (intro int64_id) auto
  with Cons show ?case by (simp add: algebra_simps)
qed simp

lemma sdiv_nonneg: "0 \<le> a \<Longrightarrow> 0 < b \<Longrightarrow> a sdiv b = a div (b :: int)"
  by (cases "a = 0") (simp_all add: signed_divide_int_def)

lemma div_le_dividend_int: "0 \<le> a \<Longrightarrow> 0 < c \<Longrightarrow> a div c \<le> (a :: int)"
  using zdiv_mono2 [of a 1 c] by simp

lemma round_nearest:
  fixes s c :: int
  assumes "0 < c"
  shows "(s + c div 2) div c = (2 * s + c) div (2 * c)"
proof -
  have "(2 * s + c) div (2 * c) = (2 * s + c) div 2 div c" using assms by (simp add: zdiv_zmult2_eq)
  also have "(2 * s + c) div 2 = s + c div 2" by simp
  finally show ?thesis by simp
qed

lemma sum_list_le: "\<forall>t\<in>set ts. t \<le> (b::int) \<Longrightarrow> sum_list ts \<le> int (length ts) * b"
  by (induction ts) (auto simp: algebra_simps)

definition time_ok :: "int \<Rightarrow> bool" where
  "time_ok t \<longleftrightarrow> t = MaxInt64 \<or> 0 \<le> t \<and> t \<le> maxSolveDurationMS + 2000"

lemma computeAoNFromTimes_eq:
  assumes n: "3 \<le> n" "n \<le> 100" "n \<le> length ms" and t: "\<forall>t\<in>set ms. time_ok t"
  shows "computeAoNFromTimes ms (int n) = Some (wca_average n ms, trim_count n < dnf_count n ms)"
proof -
  let ?mid = "middle n ms"
  note k = trim_count_bounds(1) [OF n(1)]
  have kk: "(int n + 19) sdiv 20 = int (trim_count n)" by (simp add: trim_count_def sdiv_nonneg zdiv_int)
  have len: "length ?mid = n - 2 * trim_count n" using length_middle [OF n(1,3)] .
  have mid: "take (nat (int n - int (trim_count n)) - trim_count n) (drop (trim_count n) (sort (take n ms))) = ?mid"
    by (simp add: middle_def nat_diff_distrib' flip: mult_2)
  have "\<forall>t\<in>set ms. t \<le> MaxInt64" using t by (auto simp: time_ok_def MaxInt64_def maxSolveDurationMS_def)
  note dnf = last_middle [OF n(1,3) this]
  show ?thesis
  proof (cases "trim_count n < dnf_count n ms")
    case True
    with dnf have "last ?mid = MaxInt64" by simp
    with True n k kk mid len show ?thesis
      by (auto simp: computeAoNFromTimes_def Let_def wca_average_def)
  next
    case False
    have small: "\<forall>t\<in>set ?mid. 0 \<le> t \<and> t \<le> maxSolveDurationMS + 2000"
    proof
      fix t assume "t \<in> set ?mid"
      then have "time_ok t" "t \<le> last ?mid"
        using assms(4) le_last [of ?mid t]
        by (auto simp: middle_def sorted_wrt_take sorted_wrt_drop dest!: in_set_takeD in_set_dropD)
      moreover have "last ?mid \<noteq> MaxInt64" using dnf False by simp
      moreover have "last ?mid \<in> set (take n ms)"
        using \<open>t \<in> set ?mid\<close> last_in_set [of ?mid] middle_subset by fastforce
      then have "last ?mid \<le> MaxInt64" using \<open>\<forall>t\<in>set ms. t \<le> MaxInt64\<close> in_set_takeD by fast
      ultimately show "0 \<le> t \<and> t \<le> maxSolveDurationMS + 2000" by (auto simp: time_ok_def)
    qed
    have "sum_list ?mid \<le> int (length ?mid) * (maxSolveDurationMS + 2000)" using small by (intro sum_list_le) simp
    also have "\<dots> \<le> 100 * (maxSolveDurationMS + 2000)" using len n(2) by (intro mult_right_mono) (auto simp: maxSolveDurationMS_def)
    finally have hi: "sum_list ?mid \<le> 2 ^ 62" by (simp add: maxSolveDurationMS_def)
    have lo: "0 \<le> sum_list ?mid" using small by (intro sum_list_nonneg) simp
    have "foldl (\<lambda>s t. int64 (s + t)) 0 ?mid = sum_list ?mid" using wrapped_sum [of ?mid 0] small hi by simp
    moreover have half: "int (length ?mid) sdiv 2 = int (length ?mid) div 2" by (simp add: sdiv_nonneg)
    moreover have bound: "0 \<le> sum_list ?mid + int (length ?mid) div 2" "sum_list ?mid + int (length ?mid) div 2 < 2 ^ 63"
      using hi lo len n(2) by auto
    moreover have "int64 (sum_list ?mid + int (length ?mid) div 2) = sum_list ?mid + int (length ?mid) div 2"
      using bound by (intro int64_id) auto
    moreover have "int64 ((sum_list ?mid + int (length ?mid) div 2) sdiv int (length ?mid)) =
        (2 * sum_list ?mid + int (length ?mid)) div (2 * int (length ?mid))"
    proof -
      let ?a = "sum_list ?mid + int (length ?mid) div 2" and ?c = "int (length ?mid)"
      have c: "0 < ?c" using len k by simp
      have "?a sdiv ?c = ?a div ?c" using c bound by (simp add: sdiv_nonneg)
      moreover have "0 \<le> ?a div ?c" "?a div ?c \<le> ?a"
        using c bound by (simp_all add: pos_imp_zdiv_nonneg_iff div_le_dividend_int)
      ultimately show ?thesis using round_nearest [OF c] bound by (simp add: int64_id)
    qed
    moreover have "last ?mid \<noteq> MaxInt64" "?mid \<noteq> []" using dnf False len k by auto
    ultimately show ?thesis
      using False n k kk mid by (auto simp: computeAoNFromTimes_def Let_def wca_average_def)
  qed
qed


subsection \<open>The response\<close>

text \<open>The live solves of the user, the latest first, and what each counts for.\<close>

definition recent_solves :: "uuid \<Rightarrow> string \<Rightarrow> db \<Rightarrow> Solf list" where
  "recent_solves u event d = rev (sort_key (\<lambda>r. LexPair (sf_solved_at r) (sf_id r)) (live_solves u event d))"

definition counted_ms :: "Solf \<Rightarrow> int" where
  "counted_ms r = (if sf_penalty r = ''dnf'' then MaxInt64 else effective_ms r)"

definition recent_times :: "uuid \<Rightarrow> string \<Rightarrow> db \<Rightarrow> int list" where
  "recent_times u event d = map counted_ms (recent_solves u event d)"

lemma aonTimes_rows:
  "aonTimes fa (map (\<lambda>r. \<lparr> ar_effective_ms = Int64V (effective_ms r), ar_penalty = sf_penalty r \<rparr>) rows) =
     Some (map counted_ms rows)"
  by (induction rows) (auto simp: toInt64_def counted_ms_def)

lemma live_solves_ok:
  assumes "rows_ok e d" "r \<in> set (live_solves u event d)"
  shows "0 \<le> effective_ms r" "effective_ms r \<le> maxSolveDurationMS + 2000" "sf_penalty r \<in> {''none'', ''plus_two'', ''dnf''}"
  using assms by (auto simp: live_solves_def rows_ok_def solve_ok_def effective_ms_def)

lemma set_recent [simp]: "set (recent_solves u event d) = set (live_solves u event d)"
  "length (recent_solves u event d) = length (live_solves u event d)"
  by (simp_all add: recent_solves_def)

lemma UserSolveAoN_rows:
  assumes "rows_ok e d" "text_ok event"
  shows "UserSolveAoN u event (int n) d =
    (Inr (map (\<lambda>r. \<lparr> ar_effective_ms = Int64V (effective_ms r), ar_penalty = sf_penalty r \<rparr>) (take n (recent_solves u event d))), d)"
proof -
  have "fits_bigint (effective_ms r)" if "r \<in> set (live_solves u event d)" for r
    using live_solves_ok [OF assms(1) that] by (simp add: fits_bigint_def MaxInt64_def maxSolveDurationMS_def)
  with assms(2) show ?thesis by (simp add: UserSolveAoN_def recent_solves_def list_all_iff)
qed

lemma wca_average_take: "wca_average n (take n ms) = wca_average n ms" "dnf_count n (take n ms) = dnf_count n ms"
  by (simp_all add: wca_average_def middle_def dnf_count_def)

lemma computeAoN_clean:
  assumes "rows_ok e (committed w)" "text_ok event" "faults w = []" "3 \<le> n" "n \<le> 100" "n \<le> length (live_solves u event (committed w))"
  shows "run_state (computeAoN fa u event (int n)) w =
    (Inr (wca_average n (recent_times u event (committed w)), trim_count n < dnf_count n (recent_times u event (committed w))), w)"
proof -
  have "time_ok t" if "t \<in> set (recent_times u event (committed w))" for t
    using that live_solves_ok [OF assms(1)] by (auto simp: recent_times_def counted_ms_def time_ok_def)
  then have "\<forall>t\<in>set (take n (recent_times u event (committed w))). time_ok t" by (meson in_set_takeD)
  then have "computeAoNFromTimes (take n (recent_times u event (committed w))) (int n) =
      Some (wca_average n (recent_times u event (committed w)), trim_count n < dnf_count n (recent_times u event (committed w)))"
    using computeAoNFromTimes_eq [of n "take n (recent_times u event (committed w))"] assms(4-)
    by (simp add: recent_times_def wca_average_take)
  moreover have "int32 (int n) = int n" using assms(5) by (intro int32_id) auto
  ultimately show ?thesis
    using assms(3)
    by (simp add: computeAoN_def run_simps aonTimes_rows recent_times_def take_map UserSolveAoN_rows [OF assms(1,2)])
qed

definition stats_of :: "'f float_agg \<Rightarrow> uuid \<Rightarrow> string \<Rightarrow> db \<Rightarrow> 'f StatsResponse" where
  "stats_of fa u event d =
     (let rows = live_solves u event d; ms = recent_times u event d;
          counted = map effective_ms (filter (\<lambda>r. sf_penalty r \<noteq> ''dnf'') rows);
          ao = (\<lambda>n. if n \<le> length rows then wca_average n ms else None) in
      \<lparr> sp_total_count = int (length rows), sp_counted_count = int (length counted),
        sp_dnf_count = int (length rows) - int (length counted),
        sp_min_ms = (if counted = [] then 0 else Min (set counted)),
        sp_max_ms = (if counted = [] then 0 else Max (set counted)),
        sp_mean_ms = (if counted = [] then float8_of fa 0 else avg8 fa counted),
        sp_stddev_ms = (if counted = [] then float8_of fa 0 else stddev8 fa counted),
        sp_total_ms = sum_list counted,
        sp_ao5 = ao 5, sp_ao12 = ao 12, sp_ao50 = ao 50, sp_ao100 = ao 100,
        sp_dnf_averages = map (\<lambda>n. ''ao'' @ Sprint_d (int n))
          (filter (\<lambda>n. n \<le> length rows \<and> trim_count n < dnf_count n ms) [5, 12, 50, 100]) \<rparr>)"

text \<open>The loop over the window lengths, which stops at the first that is too long.\<close>

definition add_average :: "int list \<Rightarrow> 'f StatsResponse \<Rightarrow> nat \<Rightarrow> 'f StatsResponse" where
  "add_average ms resp n =
     (if trim_count n < dnf_count n ms
      then resp\<lparr>sp_dnf_averages := sp_dnf_averages resp @ [''ao'' @ Sprint_d (int n)]\<rparr>
      else set_average (int n) (wca_average n ms) resp)"

lemma averagesLoop_clean:
  assumes "rows_ok e (committed w)" "text_ok event" "faults w = []" "\<forall>n\<in>set ns. 3 \<le> n \<and> n \<le> 100"
  shows "run_state (averagesLoop fa u event (int (length (live_solves u event (committed w)))) (map int ns) resp) w =
    (Inr (foldl (add_average (recent_times u event (committed w))) resp
       (takeWhile (\<lambda>n. n \<le> length (live_solves u event (committed w))) ns)), w)"
  using assms
proof (induction ns arbitrary: resp)
  case (Cons n ns)
  then show ?case
    using computeAoN_clean [OF assms(1-3), of n u fa] by (simp add: add_average_def not_less)
qed simp

lemma averages_of_windows:
  assumes "sp_ao5 B = None" "sp_ao12 B = None" "sp_ao50 B = None" "sp_ao100 B = None" "sp_dnf_averages B = []"
    and "ao = (\<lambda>n. if n \<le> L then wca_average n ms else None)"
  shows "foldl (add_average ms) B (takeWhile (\<lambda>n. n \<le> L) [5, 12, 50, 100]) =
    B\<lparr>sp_ao5 := ao 5, sp_ao12 := ao 12, sp_ao50 := ao 50, sp_ao100 := ao 100,
      sp_dnf_averages := map (\<lambda>n. ''ao'' @ Sprint_d (int n))
        (filter (\<lambda>n. n \<le> L \<and> trim_count n < dnf_count n ms) [5, 12, 50, 100])\<rparr>"
proof -
  have none: "wca_average n ms = None" if "trim_count n < dnf_count n ms" for n
    using that by (simp add: wca_average_def)
  let ?dnf = "\<lambda>n. trim_count n < dnf_count n ms"
  consider "L < 5" | "5 \<le> L" "L < 12" | "12 \<le> L" "L < 50" | "50 \<le> L" "L < 100" | "100 \<le> L" by linarith
  then show ?thesis
    using assms
    by cases (cases B; cases "?dnf 5"; cases "?dnf 12"; cases "?dnf 50"; cases "?dnf 100";
        simp add: add_average_def set_average_def none)+
qed

lemma ComputeStats_clean:
  assumes ok: "rows_ok e (committed w)" and t: "text_ok (sx_event req)" and clean: "faults w = []"
    and few: "length (live_solves u (sx_event req) (committed w)) < 2 ^ 32"
  shows "run_state (ComputeStats fa u req) w = (Inr (stats_of fa u (sx_event req) (committed w)), w)"
proof -
  let ?rows = "live_solves u (sx_event req) (committed w)"
  let ?counted = "map effective_ms (filter (\<lambda>r. sf_penalty r \<noteq> ''dnf'') ?rows)"
  have range: "0 \<le> x \<and> x \<le> maxSolveDurationMS + 2000" if "x \<in> set ?counted" for x
    using that live_solves_ok [OF ok] by auto
  have "int (length ?counted) \<le> 2 ^ 32" using few length_filter_le [of "\<lambda>r. sf_penalty r \<noteq> ''dnf''" ?rows]
    by (simp del: length_filter_le)
  then have "sum_list ?counted \<le> 2 ^ 32 * (maxSolveDurationMS + 2000)"
    using sum_list_le [of ?counted "maxSolveDurationMS + 2000"] range
    by (smt (verit) mult_right_mono maxSolveDurationMS_def)
  moreover have "0 \<le> sum_list ?counted" using range by (intro sum_list_nonneg) blast
  ultimately have fits: "fits_bigint (sum_list ?counted)"
    by (simp add: fits_bigint_def MaxInt64_def maxSolveDurationMS_def)
  have "fits_bigint x" if "x \<in> set ?counted" for x
    using range [OF that] by (simp add: fits_bigint_def MaxInt64_def maxSolveDurationMS_def)
  then have each: "list_all fits_bigint ?counted" by (simp add: list_all_iff)
  have split: "int (length ?counted) + int (length (filter (\<lambda>r. sf_penalty r = ''dnf'') ?rows)) = int (length ?rows)"
    using sum_length_filter_compl [of "\<lambda>r. sf_penalty r \<noteq> ''dnf''" ?rows] by simp
  have id: "int64 (int (length ?rows)) = int (length ?rows)" using few by (intro int64_id) auto
  let ?L = "length ?rows" and ?ms = "recent_times u (sx_event req) (committed w)"
  have query: "run_state (exec_pool (UserSolveStats fa u (sx_event req))) w = (fst (UserSolveStats fa u (sx_event req) (committed w)), w)"
    using clean by (simp add: run_simps UserSolveStats_def Let_def)
  have loop: "run_state (averagesLoop fa u (sx_event req) (int ?L) [5, 12, 50, 100] resp) w =
      (Inr (foldl (add_average ?ms) resp (takeWhile (\<lambda>n. n \<le> ?L) [5, 12, 50, 100])), w)" for resp
    using averagesLoop_clean [OF ok t clean, of "[5, 12, 50, 100]" fa u resp] by simp
  have dnfs: "int (length (filter (\<lambda>r. sf_penalty r = ''dnf'') ?rows)) = int ?L - int (length (filter (\<lambda>r. sf_penalty r \<noteq> ''dnf'') ?rows))"
    using split by simp
  have "run_state (ComputeStats fa u req) w =
      (Inr (foldl (add_average ?ms) (stats_of fa u (sx_event req) (committed w)
         \<lparr>sp_ao5 := None, sp_ao12 := None, sp_ao50 := None, sp_ao100 := None, sp_dnf_averages := []\<rparr>)
         (takeWhile (\<lambda>n. n \<le> ?L) [5, 12, 50, 100])), w)"
    using query t fits each id
    by (simp add: ComputeStats_def UserSolveStats_def Let_def loop stats_of_def dnfs del: takeWhile.simps averagesLoop.simps)
  also have "foldl (add_average ?ms) (stats_of fa u (sx_event req) (committed w)
         \<lparr>sp_ao5 := None, sp_ao12 := None, sp_ao50 := None, sp_ao100 := None, sp_dnf_averages := []\<rparr>)
         (takeWhile (\<lambda>n. n \<le> ?L) [5, 12, 50, 100]) = stats_of fa u (sx_event req) (committed w)"
    by (subst averages_of_windows [OF _ _ _ _ _ refl]) (simp_all add: stats_of_def Let_def)
  finally show ?thesis .
qed

end
