(* ===== verification/Stats_Theorems.thy ===== *)
theory Stats_Theorems
  imports Samples Stats
begin

text \<open>
  The properties of the statistics service.
\<close>

definition ex_floats :: "int float_agg" where
  "ex_floats = \<lparr> avg8 = (\<lambda>ts. sum_list ts div int (length ts)), stddev8 = (\<lambda>_. 0), float8_of = id, int64_of_float = id \<rparr>"

text \<open>
  C20. The average of the latest n times is the reference one: five percent, rounded up, are
  dropped at each end, it is a DNF exactly when more times are DNF than are dropped, and otherwise
  the mean rounded to the nearest millisecond, with no overflow.
\<close>

theorem aon_reference:
  assumes "3 \<le> n" "n \<le> 100" "n \<le> length ms" "\<forall>t\<in>set ms. time_ok t"
  shows "computeAoNFromTimes ms (int n) = Some (wca_average n ms, trim_count n < dnf_count n ms)"
  using assms by (rule computeAoNFromTimes_eq)

theorem aon_reference_witness:
  "computeAoNFromTimes (replicate 47 10000 @ replicate 3 MaxInt64) 50 = Some (Some 10000, False)"
proof -
  let ?ms = "replicate 47 10000 @ replicate 3 MaxInt64"
  have "\<forall>t\<in>set ?ms. time_ok t" "(50::nat) \<le> length ?ms" by code_simp+
  moreover have "wca_average 50 ?ms = Some 10000 \<and> \<not> trim_count 50 < dnf_count 50 ?ms" by code_simp
  ultimately show ?thesis using aon_reference [of 50 ?ms] by simp
qed

text \<open>
  C19. Without connection failures the statistics answered for a user are those of the user's live
  solves of the asked event: counts, least, largest and total effective time, and for each window
  length that fits the reference average or its entry among the DNF averages.
\<close>

theorem compute_stats_spec:
  assumes "rows_ok e (committed w)" "text_ok (sx_event req)" "faults w = []"
    and "length (live_solves u (sx_event req) (committed w)) < 2 ^ 32"
  shows "run_state (ComputeStats fa u req) w = (Inr (stats_of fa u (sx_event req) (committed w)), w)"
  using assms by (rule ComputeStats_clean)

theorem compute_stats_spec_witness:
  "run_state (ComputeStats ex_floats 1 \<lparr> sx_event = ''3x3'' \<rparr>) ex_synced =
     (Inr (stats_of ex_floats 1 ''3x3'' (committed ex_synced)), ex_synced) \<and>
   sp_total_ms (stats_of ex_floats 1 ''3x3'' (committed ex_synced)) = 9130"
proof -
  let ?req = "\<lparr> sx_event = ''3x3'' \<rparr>"
  have one: "length (live_solves 1 (sx_event ?req) (committed ex_synced)) = 1" by code_simp
  have "rows_ok (ex_env 0) (committed ex_synced)" "text_ok (sx_event ?req)" "faults ex_synced = []" by code_simp+
  moreover have "length (live_solves 1 (sx_event ?req) (committed ex_synced)) < 2 ^ 32" unfolding one by simp
  ultimately have hyps: "rows_ok (ex_env 0) (committed ex_synced)" "text_ok (sx_event ?req)" "faults ex_synced = []"
    "length (live_solves 1 (sx_event ?req) (committed ex_synced)) < 2 ^ 32" by blast+
  have "sp_total_ms (stats_of ex_floats 1 ''3x3'' (committed ex_synced)) = 9130" by code_simp
  with compute_stats_spec [OF hyps, of ex_floats] show ?thesis by simp
qed

end
