(* ===== verification/Admin_Queries.thy ===== *)
theory Admin_Queries
  imports Stats "HOL-Library.List_Lexorder" "HOL-Library.Char_ord"
begin

text \<open>
  The statements of \<open>internal/store/db/admin.sql.go\<close> and the \<open>COPY\<close> of \<open>copyfrom.go\<close>: the hourly
  request statistics and the log of request errors.

  What a statement takes from the settings of its session is the record \<open>pg_session\<close>: the beginning of
  a day and the arithmetic with days depend on the time zone, the order of texts on the collation,
  which is given by its sort keys; equal keys are ordered by their bytes.
\<close>

record pg_session =
  pg_day_start :: "time \<Rightarrow> time"
  pg_minus_days :: "int \<Rightarrow> time \<Rightarrow> time"
  pg_sort_key :: "string \<Rightarrow> string"


subsection \<open>Writing statistics\<close>

type_synonym stat_id = "time \<times> string \<times> string \<times> int"

text \<open>The primary key of \<open>request_stats_hourly\<close>.\<close>

definition stat_key :: "RequestStatsHourly \<Rightarrow> stat_id" where
  "stat_key r = (qh_bucket_hour r, qh_method r, qh_route r, qh_status_code r)"

definition stat_check :: "RequestStatsHourly \<Rightarrow> bool" where
  "stat_check r \<longleftrightarrow> 0 \<le> qh_request_count r \<and> 0 \<le> qh_total_duration_ms r \<and> 0 \<le> qh_max_duration_ms r"

text \<open>The fields of \<open>RecordRequestStatParams\<close> are those of a row.\<close>

definition merge_stat :: "RequestStatsHourly \<Rightarrow> RequestStatsHourly \<Rightarrow> RequestStatsHourly" where
  "merge_stat excluded r = r\<lparr>
     qh_request_count := qh_request_count r + qh_request_count excluded,
     qh_total_duration_ms := qh_total_duration_ms r + qh_total_duration_ms excluded,
     qh_max_duration_ms := max (qh_max_duration_ms r) (qh_max_duration_ms excluded)\<rparr>"

definition RecordRequestStat :: "RequestStatsHourly \<Rightarrow> unit stmt" where
  "RecordRequestStat arg d =
     (if \<not> text_ok (qh_method arg) \<or> \<not> text_ok (qh_route arg) then (Inl InvalidText, d)
      else if \<not> stat_check arg then (Inl CheckViolation, d)
      else case row_at stat_key (stat_key arg) (request_stats_hourly d) of
        None \<Rightarrow> (Inr (), d\<lparr>request_stats_hourly := request_stats_hourly d @ [arg]\<rparr>)
      | Some r \<Rightarrow>
          let r' = merge_stat arg r in
          if \<not> fits_bigint (qh_request_count r') \<or> \<not> fits_bigint (qh_total_duration_ms r') then (Inl OutOfRange, d)
          else if \<not> stat_check r' then (Inl CheckViolation, d)
          else (Inr (), d\<lparr>request_stats_hourly :=
            update_where (\<lambda>x. stat_key x = stat_key arg) (merge_stat arg) (request_stats_hourly d)\<rparr>))"

definition DeleteOldRequestStats :: "pg_session \<Rightarrow> time \<Rightarrow> unit stmt" where
  "DeleteOldRequestStats pg now d =
     (Inr (), d\<lparr>request_stats_hourly := filter (\<lambda>r. \<not> qh_bucket_hour r < pg_minus_days pg 90 now) (request_stats_hourly d)\<rparr>)"


subsection \<open>Writing errors\<close>

record CopyRequestErrorsParams =
  ce_user_id :: "uuid option"
  ce_method :: string
  ce_route :: string
  ce_status_code :: int
  ce_code :: string
  ce_message :: string

text \<open>The source of the rows, with its flag for the first call of \<open>Next\<close>.\<close>

record iteratorForCopyRequestErrors =
  it_rows :: "CopyRequestErrorsParams list"
  it_skippedFirstNextCall :: bool

definition Next :: "iteratorForCopyRequestErrors \<Rightarrow> bool \<times> iteratorForCopyRequestErrors" where
  "Next r =
     (if it_rows r = [] then (False, r)
      else if \<not> it_skippedFirstNextCall r then (True, r\<lparr>it_skippedFirstNextCall := True\<rparr>)
      else (tl (it_rows r) \<noteq> [], r\<lparr>it_rows := tl (it_rows r)\<rparr>))"

definition Values :: "iteratorForCopyRequestErrors \<Rightarrow> CopyRequestErrorsParams" where
  "Values r = it_rows r ! 0"

text \<open>The loop of the driver: \<open>Next\<close> and \<open>Values\<close> until \<open>Next\<close> answers false.\<close>

function copy_source :: "iteratorForCopyRequestErrors \<Rightarrow> CopyRequestErrorsParams list" where
  "copy_source r = (if fst (Next r) then Values (snd (Next r)) # copy_source (snd (Next r)) else [])"
  by pat_completeness auto

termination
  by (relation "measure (\<lambda>r. 2 * length (it_rows r) + (if it_skippedFirstNextCall r then 0 else 1))")
    (auto simp: Next_def split: if_splits)

declare copy_source.simps [simp del]

lemma copy_source_rest:
  "copy_source \<lparr> it_rows = rows, it_skippedFirstNextCall = True \<rparr> = tl rows"
proof (induction "length rows" arbitrary: rows)
  case (Suc n)
  then obtain x xs where rows: "rows = x # xs" "n = length xs" by (cases rows) auto
  show ?case
    using Suc(1) [of xs] rows by (subst copy_source.simps) (cases xs, auto simp: Next_def Values_def)
qed (subst copy_source.simps, simp add: Next_def)

lemma copy_source_all: "copy_source \<lparr> it_rows = rows, it_skippedFirstNextCall = False \<rparr> = rows"
  by (subst copy_source.simps) (cases rows, auto simp: Next_def Values_def copy_source_rest)

text \<open>
  The server reads row after row; the id of each is drawn from the sequence when the row has been read.
  A row that cannot be stored ends the copy, and none is kept.
\<close>

definition copy_text_ok :: "CopyRequestErrorsParams \<Rightarrow> bool" where
  "copy_text_ok p \<longleftrightarrow> text_ok (ce_method p) \<and> text_ok (ce_route p) \<and> text_ok (ce_code p) \<and> text_ok (ce_message p)"

definition error_row :: "time \<Rightarrow> int \<Rightarrow> CopyRequestErrorsParams \<Rightarrow> RequestError" where
  "error_row now i p = \<lparr> qe_id = i, qe_created_at = now, qe_user_id = ce_user_id p, qe_method = ce_method p,
     qe_route = ce_route p, qe_status_code = ce_status_code p, qe_code = ce_code p, qe_message = ce_message p \<rparr>"

fun copy_rows :: "time \<Rightarrow> CopyRequestErrorsParams list \<Rightarrow> int \<Rightarrow> (pgerror + RequestError list) \<times> int" where
  "copy_rows now [] i = (Inr [], i)"
| "copy_rows now (p # ps) i =
     (if \<not> copy_text_ok p then (Inl InvalidText, i)
      else if MaxInt64 \<le> i then (Inl OutOfRange, i)
      else case copy_rows now ps (i + 1) of
        (Inl err, j) \<Rightarrow> (Inl err, j)
      | (Inr rows, j) \<Rightarrow> (Inr (error_row now (i + 1) p # rows), j))"

definition CopyRequestErrors :: "time \<Rightarrow> CopyRequestErrorsParams list \<Rightarrow> int stmt" where
  "CopyRequestErrors now arg d =
     (case copy_rows now (copy_source \<lparr> it_rows = arg, it_skippedFirstNextCall = False \<rparr>) (request_errors_id_seq d) of
        (Inl err, j) \<Rightarrow> (Inl err, d\<lparr>request_errors_id_seq := j\<rparr>)
      | (Inr rows, j) \<Rightarrow> (Inr (int (length rows)),
          d\<lparr>request_errors := request_errors d @ rows, request_errors_id_seq := j\<rparr>))"

definition DeleteOldErrors :: "pg_session \<Rightarrow> time \<Rightarrow> unit stmt" where
  "DeleteOldErrors pg now d =
     (Inr (), d\<lparr>request_errors := filter (\<lambda>r. \<not> qe_created_at r < pg_minus_days pg 30 now) (request_errors d)\<rparr>)"


subsection \<open>Reading\<close>

record GetOverviewStatsRow =
  go_total_users :: int
  go_verified_users :: int
  go_new_users_24h :: int
  go_new_users_7d :: int
  go_new_users_30d :: int
  go_active_users_24h :: int
  go_active_users_7d :: int
  go_active_users_30d :: int
  go_total_devices :: int
  go_total_sessions :: int
  go_total_solves :: int

definition count_rows :: "('r \<Rightarrow> bool) \<Rightarrow> 'r list \<Rightarrow> int" where
  "count_rows P rows = int (length (filter P rows))"

definition active_users :: "time \<Rightarrow> db \<Rightarrow> int" where
  "active_users since d = int (length (remdups (map dv_user_id (filter (\<lambda>r. since \<le> dv_last_seen_at r) (devices d)))))"

definition GetOverviewStats :: "pg_session \<Rightarrow> time \<Rightarrow> GetOverviewStatsRow stmt" where
  "GetOverviewStats pg now d =
     (let day = now - 24 * Hour; week = pg_minus_days pg 7 now; month = pg_minus_days pg 30 now in
      (Inr \<lparr> go_total_users = int (length (users d)),
         go_verified_users = count_rows (\<lambda>r. us_email_verified_at r \<noteq> None) (users d),
         go_new_users_24h = count_rows (\<lambda>r. day \<le> us_created_at r) (users d),
         go_new_users_7d = count_rows (\<lambda>r. week \<le> us_created_at r) (users d),
         go_new_users_30d = count_rows (\<lambda>r. month \<le> us_created_at r) (users d),
         go_active_users_24h = active_users day d,
         go_active_users_7d = active_users week d,
         go_active_users_30d = active_users month d,
         go_total_devices = int (length (devices d)),
         go_total_sessions = int (length (cube_sessions d)),
         go_total_solves = int (length (solves d)) \<rparr>, d))"

definition ListIndividualErrors :: "time \<Rightarrow> int \<Rightarrow> int \<Rightarrow> RequestError list stmt" where
  "ListIndividualErrors before before_id lim d =
     (if lim < 0 then (Inl NegativeLimit, d)
      else (Inr (take (nat lim) (rev (sort_key (\<lambda>r. LexPair (qe_created_at r) (qe_id r))
        (filter (\<lambda>r. qe_created_at r < before \<or> qe_created_at r = before \<and> qe_id r < before_id) (request_errors d))))), d))"

record ListRequestStatsRow =
  lq_bucket :: time
  lq_request_count :: int
  lq_status_2xx :: int
  lq_status_3xx :: int
  lq_status_4xx :: int
  lq_status_5xx :: int
  lq_total_duration_ms :: int
  lq_max_duration_ms :: int

definition stats_between :: "time \<Rightarrow> time \<Rightarrow> db \<Rightarrow> RequestStatsHourly list" where
  "stats_between from_time to_time d =
     filter (\<lambda>r. from_time \<le> qh_bucket_hour r \<and> qh_bucket_hour r < to_time) (request_stats_hourly d)"

text \<open>\<open>SUM(CASE WHEN ... THEN request_count ELSE 0 END)\<close>\<close>

definition sum_count :: "(int \<Rightarrow> bool) \<Rightarrow> RequestStatsHourly list \<Rightarrow> int" where
  "sum_count P rows = sum_list (map (\<lambda>r. if P (qh_status_code r) then qh_request_count r else 0) rows)"

definition stats_row :: "time \<Rightarrow> RequestStatsHourly list \<Rightarrow> ListRequestStatsRow" where
  "stats_row bucket rows =
     \<lparr> lq_bucket = bucket,
       lq_request_count = sum_list (map qh_request_count rows),
       lq_status_2xx = sum_count (\<lambda>c. 200 \<le> c \<and> c < 300) rows,
       lq_status_3xx = sum_count (\<lambda>c. 300 \<le> c \<and> c < 400) rows,
       lq_status_4xx = sum_count (\<lambda>c. 400 \<le> c \<and> c < 500) rows,
       lq_status_5xx = sum_count (\<lambda>c. 500 \<le> c) rows,
       lq_total_duration_ms = sum_list (map qh_total_duration_ms rows),
       lq_max_duration_ms = (if rows = [] then 0 else Max (set (map qh_max_duration_ms rows))) \<rparr>"

text \<open>The sums are \<open>numeric\<close>; the casts to \<open>bigint\<close> fail when they do not fit.\<close>

definition stats_row_fits :: "ListRequestStatsRow \<Rightarrow> bool" where
  "stats_row_fits r \<longleftrightarrow> list_all fits_bigint [lq_request_count r, lq_status_2xx r, lq_status_3xx r, lq_status_4xx r,
     lq_status_5xx r, lq_total_duration_ms r]"

definition stats_bucket :: "pg_session \<Rightarrow> string \<Rightarrow> RequestStatsHourly \<Rightarrow> time" where
  "stats_bucket pg interval r = (if interval = ''day'' then pg_day_start pg (qh_bucket_hour r) else qh_bucket_hour r)"

definition ListRequestStats :: "pg_session \<Rightarrow> string \<Rightarrow> time \<Rightarrow> time \<Rightarrow> ListRequestStatsRow list stmt" where
  "ListRequestStats pg interval from_time to_time d =
     (let rows = stats_between from_time to_time d;
          bucket = stats_bucket pg interval;
          groups = map (\<lambda>b. stats_row b (filter (\<lambda>r. bucket r = b) rows)) (sort (remdups (map bucket rows))) in
      if \<not> text_ok interval then (Inl InvalidText, d)
      else if \<not> list_all stats_row_fits groups then (Inl OutOfRange, d)
      else (Inr groups, d))"

record ListRequestStatsByTypeRow =
  lt_route :: string
  lt_request_count :: int

definition ListRequestStatsByType :: "pg_session \<Rightarrow> time \<Rightarrow> time \<Rightarrow> ListRequestStatsByTypeRow list stmt" where
  "ListRequestStatsByType pg from_time to_time d =
     (let rows = stats_between from_time to_time d;
          groups = map (\<lambda>route. \<lparr> lt_route = route,
            lt_request_count = sum_list (map qh_request_count (filter (\<lambda>r. qh_route r = route) rows)) \<rparr>)
            (remdups (map qh_route rows)) in
      if \<not> list_all (\<lambda>g. fits_bigint (lt_request_count g)) groups then (Inl OutOfRange, d)
      else (Inr (sort_key (\<lambda>g. LexPair (- lt_request_count g) (LexPair (pg_sort_key pg (lt_route g)) (lt_route g))) groups), d))"

end
