(* ===== verification/Go_Text.thy ===== *)
theory Go_Text
  imports Prelude
begin

text \<open>
  What the authentication code uses of Go's text packages: \<open>strings.Split\<close>,
  \<open>strings.TrimSpace\<close>, \<open>fmt.Sscanf\<close> with the verb \<open>%d\<close>, and the two unpadded encodings of
  \<open>encoding/base64\<close>. Strings are byte strings, so a multi-byte white space is the list of its
  UTF-8 bytes.
\<close>


subsection \<open>Splitting and trimming\<close>

text \<open>\<open>strings.Split\<close> with a separator of one byte.\<close>

fun Split :: "char \<Rightarrow> string \<Rightarrow> string list" where
  "Split sep [] = [[]]"
| "Split sep (c # s) =
     (if c = sep then [] # Split sep s
      else case Split sep s of [] \<Rightarrow> [[c]] | p # ps \<Rightarrow> (c # p) # ps)"

text \<open>The UTF-8 encodings of the runes that \<open>unicode.IsSpace\<close> accepts.\<close>

definition space_runes :: "string list" where
  "space_runes =
     [[CHR 0x09], [CHR 0x0A], [CHR 0x0B], [CHR 0x0C], [CHR 0x0D], [CHR 0x20], [CHR 0xC2, CHR 0x85],
      [CHR 0xC2, CHR 0xA0], [CHR 0xE1, CHR 0x9A, CHR 0x80], [CHR 0xE2, CHR 0x80, CHR 0x80],
      [CHR 0xE2, CHR 0x80, CHR 0x81], [CHR 0xE2, CHR 0x80, CHR 0x82],
      [CHR 0xE2, CHR 0x80, CHR 0x83], [CHR 0xE2, CHR 0x80, CHR 0x84],
      [CHR 0xE2, CHR 0x80, CHR 0x85], [CHR 0xE2, CHR 0x80, CHR 0x86],
      [CHR 0xE2, CHR 0x80, CHR 0x87], [CHR 0xE2, CHR 0x80, CHR 0x88],
      [CHR 0xE2, CHR 0x80, CHR 0x89], [CHR 0xE2, CHR 0x80, CHR 0x8A],
      [CHR 0xE2, CHR 0x80, CHR 0xA8], [CHR 0xE2, CHR 0x80, CHR 0xA9],
      [CHR 0xE2, CHR 0x80, CHR 0xAF], [CHR 0xE2, CHR 0x81, CHR 0x9F],
      [CHR 0xE3, CHR 0x80, CHR 0x80]]"

text \<open>The number of bytes of the white space rune a string starts with, or zero.\<close>

definition space_len :: "string list \<Rightarrow> string \<Rightarrow> nat" where
  "space_len runes s = (case List.find (\<lambda>r. take (length r) s = r) runes of None \<Rightarrow> 0 | Some r \<Rightarrow> length r)"

lemma space_len_le: "s \<noteq> [] \<Longrightarrow> space_len runes s \<le> length s"
  by (auto simp: space_len_def split: option.split dest!: find_Some_in)
    (metis length_take min.cobounded1)

function trim_runes :: "string list \<Rightarrow> string \<Rightarrow> string" where
  "trim_runes runes s =
     (if s = [] \<or> space_len runes s = 0 then s else trim_runes runes (drop (space_len runes s) s))"
  by pat_completeness auto

termination
  by (relation "measure (\<lambda>(runes, s). length s)") auto

declare trim_runes.simps [simp del]

definition TrimSpace :: "string \<Rightarrow> string" where
  "TrimSpace s = rev (trim_runes (map rev space_runes) (rev (trim_runes space_runes s)))"


subsection \<open>Scanning numbers\<close>

text \<open>A literal of the format must be the next input.\<close>

definition scan_literal :: "string \<Rightarrow> string \<Rightarrow> string option" where
  "scan_literal p s = (if take (length p) s = p then Some (drop (length p) s) else None)"

text \<open>White space before a number is skipped, but a line feed is an error.\<close>

function SkipSpace :: "string \<Rightarrow> string option" where
  "SkipSpace s =
     (if s = [] \<or> space_len space_runes s = 0 then Some s
      else if hd s = CHR 0x0A then None
      else SkipSpace (drop (space_len space_runes s) s))"
  by pat_completeness auto

termination
  by (relation "measure length") auto

declare SkipSpace.simps [simp del]

definition is_digit :: "char \<Rightarrow> bool" where
  "is_digit c \<longleftrightarrow> c \<in> set ''0123456789''"

definition digits_value :: "string \<Rightarrow> int" where
  "digits_value ds = foldl (\<lambda>v c. 10 * v + (of_char c - 48)) 0 ds"

text \<open>The verb \<open>%d\<close> into an unsigned integer of the given width.\<close>

definition scan_uint :: "nat \<Rightarrow> string \<Rightarrow> (int \<times> string) option" where
  "scan_uint bits s =
     (case SkipSpace s of
        None \<Rightarrow> None
      | Some r \<Rightarrow>
          let ds = takeWhile is_digit r; v = digits_value ds in
          if ds = [] \<or> 2 ^ bits \<le> v then None else Some (v, dropWhile is_digit r))"


subsection \<open>Unpadded base64\<close>

definition StdAlphabet :: string where
  "StdAlphabet = ''ABCDEFGHIJKLMNOPQRSTUVWXYZabcdefghijklmnopqrstuvwxyz0123456789+/''"

definition UrlAlphabet :: string where
  "UrlAlphabet = ''ABCDEFGHIJKLMNOPQRSTUVWXYZabcdefghijklmnopqrstuvwxyz0123456789-_''"

text \<open>Bytes to groups of six bits, and back. A single group left over is malformed.\<close>

fun sextets :: "nat list \<Rightarrow> nat list" where
  "sextets [] = []"
| "sextets [a] = [a div 4, a mod 4 * 16]"
| "sextets [a, b] = [a div 4, a mod 4 * 16 + b div 16, b mod 16 * 4]"
| "sextets (a # b # c # bs) =
     a div 4 # (a mod 4 * 16 + b div 16) # (b mod 16 * 4 + c div 64) # c mod 64 # sextets bs"

fun octets :: "nat list \<Rightarrow> nat list option" where
  "octets [] = Some []"
| "octets [w] = None"
| "octets [w, x] = Some [w * 4 + x div 16]"
| "octets [w, x, y] = Some [w * 4 + x div 16, x mod 16 * 16 + y div 4]"
| "octets (w # x # y # z # ws) =
     map_option (\<lambda>bs. (w * 4 + x div 16) # (x mod 16 * 16 + y div 4) # (y mod 4 * 64 + z) # bs) (octets ws)"

definition EncodeToString :: "string \<Rightarrow> string \<Rightarrow> string" where
  "EncodeToString alphabet bs = map (\<lambda>i. alphabet ! i) (sextets (map of_char bs))"

text \<open>The decoder skips carriage returns and line feeds and refuses any other byte outside the alphabet.\<close>

definition sextet_of :: "string \<Rightarrow> char \<Rightarrow> nat option" where
  "sextet_of alphabet c = List.find (\<lambda>i. alphabet ! i = c) [0 ..< length alphabet]"

definition line_break :: "char \<Rightarrow> bool" where
  "line_break c \<longleftrightarrow> c = CHR 0x0A \<or> c = CHR 0x0D"

definition DecodeString :: "string \<Rightarrow> string \<Rightarrow> string option" where
  "DecodeString alphabet s =
     (case those (map (sextet_of alphabet) (filter (\<lambda>c. \<not> line_break c) s)) of
        None \<Rightarrow> None
      | Some ws \<Rightarrow> map_option (map char_of) (octets ws))"


subsection \<open>Lemmas\<close>

lemma Split_nonempty [simp]: "Split sep s \<noteq> []"
  by (cases s) (auto split: list.split)

lemma Split_no_sep: "sep \<notin> set s \<Longrightarrow> Split sep s = [s]"
  by (induction s) auto

lemma Split_append: "sep \<notin> set p \<Longrightarrow> Split sep (p @ sep # s) = p # Split sep s"
  by (induction p) auto

lemma Split_parts:
  "\<forall>p\<in>set ps. sep \<notin> set p \<Longrightarrow> sep \<notin> set q \<Longrightarrow>
   Split sep (concat (map (\<lambda>p. p @ [sep]) ps) @ q) = ps @ [q]"
  by (induction ps) (simp_all add: Split_append Split_no_sep)

lemma octets_sextets: "\<forall>b\<in>set bs. b < 256 \<Longrightarrow> octets (sextets bs) = Some bs"
proof (induction bs rule: sextets.induct)
  case (4 a b c bs)
  have "(a mod 4 * 16 + b div 16) div 16 = a mod 4" "(a mod 4 * 16 + b div 16) mod 16 = b div 16"
    "(b mod 16 * 4 + c div 64) div 4 = b mod 16" "(b mod 16 * 4 + c div 64) mod 4 = c div 64"
    using 4 by (auto simp: div_mult_self3 less_mult_imp_div_less)
  with 4 show ?case by (simp add: mult.commute)
next
  case (3 a b)
  then have "(a mod 4 * 16 + b div 16) div 16 = a mod 4" "(a mod 4 * 16 + b div 16) mod 16 = b div 16"
    by (auto simp: less_mult_imp_div_less)
  with 3 show ?case by (simp add: mult.commute)
qed (auto simp: mult.commute)

lemma sextets_less: "\<forall>b\<in>set bs. b < 256 \<Longrightarrow> w \<in> set (sextets bs) \<Longrightarrow> w < 64"
proof (induction bs rule: sextets.induct)
  case (4 a b c bs)
  have "a mod 4 \<le> 3" "b mod 16 \<le> 15" by (simp_all add: less_Suc_eq_le [symmetric])
  moreover have "a div 4 < 64" "b div 16 < 16" "c div 64 < 4" using 4 by (auto simp: less_mult_imp_div_less)
  ultimately show ?case using 4 by auto
next
  case (3 a b)
  have "a mod 4 \<le> 3" "b mod 16 \<le> 15" by (simp_all add: less_Suc_eq_le [symmetric])
  moreover have "a div 4 < 64" "b div 16 < 16" using 3 by (auto simp: less_mult_imp_div_less)
  ultimately show ?case using 3 by auto
next
  case (2 a)
  have "a mod 4 \<le> 3" by (simp add: less_Suc_eq_le [symmetric])
  moreover have "a div 4 < 64" using 2 by (auto simp: less_mult_imp_div_less)
  ultimately show ?case using 2 by auto
qed simp

lemma those_map_Some: "(\<And>x. x \<in> set xs \<Longrightarrow> f x = Some (g x)) \<Longrightarrow> those (map f xs) = Some (map g xs)"
  by (induction xs) auto

text \<open>An alphabet of 64 different bytes without line breaks: what both encodings rest on.\<close>

locale base64_alphabet =
  fixes alphabet :: string
  assumes alphabet_length: "length alphabet = 64"
    and alphabet_distinct: "distinct alphabet"
    and alphabet_no_break: "\<not> list_ex line_break alphabet"
begin

lemma sextet_of_nth: "i < 64 \<Longrightarrow> sextet_of alphabet (alphabet ! i) = Some i"
  unfolding sextet_of_def find_Some_iff
  using alphabet_length alphabet_distinct by (auto simp: nth_eq_iff_index_eq intro!: exI [of _ i])

lemma Encode_chars: "set (EncodeToString alphabet bs) \<subseteq> set alphabet"
  using sextets_less [of "map of_char bs"] alphabet_length by (auto simp: EncodeToString_def)

lemma Decode_Encode: "DecodeString alphabet (EncodeToString alphabet bs) = Some bs"
proof -
  let ?ws = "sextets (map of_char bs)"
  have less: "w < 64" if "w \<in> set ?ws" for w using that sextets_less [of "map of_char bs"] by auto
  have "\<not> line_break c" if "c \<in> set (EncodeToString alphabet bs)" for c
    using that Encode_chars alphabet_no_break by (auto simp: list_ex_iff)
  then have "filter (\<lambda>c. \<not> line_break c) (EncodeToString alphabet bs) = EncodeToString alphabet bs"
    by (simp add: filter_id_conv)
  moreover have "those (map (sextet_of alphabet) (EncodeToString alphabet bs)) = Some ?ws"
    using those_map_Some [of ?ws "\<lambda>i. sextet_of alphabet (alphabet ! i)" id] less
    by (simp add: EncodeToString_def sextet_of_nth comp_def)
  moreover have "octets ?ws = Some (map of_char bs)" by (rule octets_sextets) auto
  ultimately show ?thesis by (simp add: DecodeString_def comp_def)
qed

end

interpretation std: base64_alphabet StdAlphabet
  by unfold_locales (code_simp, code_simp, code_simp)

interpretation url: base64_alphabet UrlAlphabet
  by unfold_locales (code_simp, code_simp, code_simp)

lemma alphabet_no_dollar: "CHR ''$'' \<notin> set StdAlphabet"
  by code_simp

end
