(* ===== verification/Admin_Service.thy ===== *)
theory Admin_Service
  imports Admin_Queries Go_Text
begin

text \<open>
  \<open>internal/admin/service.go\<close>: the statistics the operators read, and the recording of requests and
  errors, which goes through two bounded channels and a background loop.

  The channels and the flags of the service are the record \<open>AdminService\<close>; the local state of
  \<open>flushLoop\<close> is \<open>flush_loop\<close>. The iteration over a Go map has no fixed order: it is the argument \<open>order\<close>, of which
  the properties assume that it is a permutation. The arithmetic of \<open>float64\<close> is \<open>go_float\<close>, the
  Unicode case table \<open>ul\<close>.
\<close>

definition unmatchedRoute :: string where "unmatchedRoute = ''unmatched''"
definition defaultLookback :: duration where "defaultLookback = 24 * Hour"
definition maxRange :: duration where "maxRange = 90 * 24 * Hour"
definition IntervalHour :: string where "IntervalHour = ''hour''"
definition IntervalDay :: string where "IntervalDay = ''day''"

definition HasPrefix :: "string \<Rightarrow> string \<Rightarrow> bool" where
  "HasPrefix s p \<longleftrightarrow> take (length p) s = p"

definition shouldSkipRoute :: "string \<Rightarrow> bool" where
  "shouldSkipRoute route \<longleftrightarrow> HasPrefix route ''/health/'' \<or> HasPrefix route ''/v1/admin/stats''"

definition normalizeRoute :: "string \<Rightarrow> string" where
  "normalizeRoute route = (let r = TrimSpace route in if r = [] then unmatchedRoute else r)"

definition requestTypeForRoute :: "string \<Rightarrow> string" where
  "requestTypeForRoute route =
     (if HasPrefix route ''/v1/auth/'' then ''auth''
      else if HasPrefix route ''/v1/me'' then ''account''
      else if route = ''/v1/sync'' then ''sync''
      else if route = ''/v1/snapshot'' then ''snapshot''
      else if HasPrefix route ''/v1/sessions'' then ''sessions''
      else if HasPrefix route ''/v1/stats'' then ''stats''
      else ''other'')"


subsection \<open>Recording\<close>

record metric =
  mt_method :: string
  mt_route :: string
  mt_status :: int
  mt_duration :: duration
  mt_at :: time

record errorEvent =
  ee_userID :: "uuid option"
  ee_method :: string
  ee_route :: string
  ee_statusCode :: int
  ee_code :: string
  ee_message :: string

record AdminService =
  ad_metrics :: "metric list"
  ad_errorLogs :: "errorEvent list"
  ad_shutdown :: bool
  ad_stopChan :: bool

definition channel_size :: nat where
  "channel_size = 4096"

definition NewAdminService :: AdminService where
  "NewAdminService = \<lparr> ad_metrics = [], ad_errorLogs = [], ad_shutdown = False, ad_stopChan = False \<rparr>"

text \<open>
  \<open>RecordRequestAsync\<close> and \<open>RecordErrorAsync\<close> decide first and send afterwards; a send to a channel that is full
  drops the value.
\<close>

definition accepts_metric :: "AdminService \<Rightarrow> string \<Rightarrow> bool" where
  "accepts_metric s route \<longleftrightarrow> \<not> (shouldSkipRoute route \<or> ad_shutdown s)"

definition send_metric :: "metric \<Rightarrow> AdminService \<Rightarrow> AdminService" where
  "send_metric m s = (if length (ad_metrics s) < channel_size then s\<lparr>ad_metrics := ad_metrics s @ [m]\<rparr> else s)"

definition RecordRequestAsync :: "time \<Rightarrow> string \<Rightarrow> string \<Rightarrow> int \<Rightarrow> duration \<Rightarrow> AdminService \<Rightarrow> AdminService" where
  "RecordRequestAsync now meth route status dur s =
     (if accepts_metric s route
      then send_metric \<lparr> mt_method = meth, mt_route = route, mt_status = status, mt_duration = dur, mt_at = now \<rparr> s
      else s)"

definition accepts_error :: "AdminService \<Rightarrow> string \<Rightarrow> int \<Rightarrow> bool" where
  "accepts_error s route status \<longleftrightarrow> \<not> (shouldSkipRoute route \<or> ad_shutdown s \<or> status = 401)"

definition send_error :: "errorEvent \<Rightarrow> AdminService \<Rightarrow> AdminService" where
  "send_error e s = (if length (ad_errorLogs s) < channel_size then s\<lparr>ad_errorLogs := ad_errorLogs s @ [e]\<rparr> else s)"

definition error_event :: "uuid \<Rightarrow> string \<Rightarrow> string \<Rightarrow> int \<Rightarrow> string \<Rightarrow> string \<Rightarrow> errorEvent" where
  "error_event userID meth route status code message =
     \<lparr> ee_userID = (if userID \<noteq> uuid_nil then Some userID else None), ee_method = meth, ee_route = route,
       ee_statusCode = int32 status, ee_code = code, ee_message = message \<rparr>"

definition RecordErrorAsync ::
  "uuid \<Rightarrow> string \<Rightarrow> string \<Rightarrow> int \<Rightarrow> string \<Rightarrow> string \<Rightarrow> AdminService \<Rightarrow> AdminService" where
  "RecordErrorAsync userID meth route status code message s =
     (if accepts_error s route status then send_error (error_event userID meth route status code message) s else s)"


subsection \<open>Flushing\<close>

definition Milliseconds :: "duration \<Rightarrow> int" where
  "Milliseconds d = d sdiv 1000"

definition Truncate :: "time \<Rightarrow> duration \<Rightarrow> time" where
  "Truncate t d = t - t mod d"

text \<open>\<open>metricKey\<close> is the primary key of the table.\<close>

definition metricKey :: "metric \<Rightarrow> stat_id" where
  "metricKey m =
     (Truncate (mt_at m) Hour, mt_method m, normalizeRoute (mt_route m),
      if int32 (mt_status m) \<le> 0 then 200 else int32 (mt_status m))"

definition durationMS :: "metric \<Rightarrow> int" where
  "durationMS m = max (Milliseconds (mt_duration m)) 0"

definition new_stat :: "stat_id \<Rightarrow> RequestStatsHourly" where
  "new_stat key = (case key of (bucketHour, meth, route, statusCode) \<Rightarrow>
     \<lparr> qh_bucket_hour = bucketHour, qh_method = meth, qh_route = route, qh_status_code = statusCode,
       qh_request_count = 0, qh_total_duration_ms = 0, qh_max_duration_ms = 0 \<rparr>)"

definition add_request :: "int \<Rightarrow> RequestStatsHourly \<Rightarrow> RequestStatsHourly" where
  "add_request ms agg = agg\<lparr>
     qh_request_count := int64 (qh_request_count agg + 1),
     qh_total_duration_ms := int64 (qh_total_duration_ms agg + ms),
     qh_max_duration_ms := max (qh_max_duration_ms agg) ms\<rparr>"

definition aggregate_metric :: "RequestStatsHourly list \<Rightarrow> metric \<Rightarrow> RequestStatsHourly list" where
  "aggregate_metric aggregated m =
     (let key = metricKey m in
      case row_at stat_key key aggregated of
        None \<Rightarrow> aggregated @ [add_request (durationMS m) (new_stat key)]
      | Some _ \<Rightarrow> update_where (\<lambda>r. stat_key r = key) (add_request (durationMS m)) aggregated)"

type_synonym map_order = "RequestStatsHourly list \<Rightarrow> RequestStatsHourly list"

definition map_order_ok :: "map_order \<Rightarrow> bool" where
  "map_order_ok order \<longleftrightarrow> (\<forall>rows. mset (order rows) = mset rows)"

fun recordAll :: "RequestStatsHourly list \<Rightarrow> (world, unit) state" where
  "recordAll [] = State_Monad.return ()"
| "recordAll (agg # aggs) = do {
     _ \<leftarrow> exec_pool (RecordRequestStat agg);
     recordAll aggs
   }"

definition flush :: "map_order \<Rightarrow> metric list \<Rightarrow> (world, unit) state" where
  "flush order buffer =
     (if buffer = [] then State_Monad.return () else recordAll (order (foldl aggregate_metric [] buffer)))"

definition error_params :: "errorEvent \<Rightarrow> CopyRequestErrorsParams" where
  "error_params e = \<lparr> ce_user_id = ee_userID e, ce_method = ee_method e, ce_route = normalizeRoute (ee_route e),
     ce_status_code = ee_statusCode e, ce_code = ee_code e, ce_message = ee_message e \<rparr>"

definition flushErrors :: "time \<Rightarrow> errorEvent list \<Rightarrow> (world, unit) state" where
  "flushErrors now buffer =
     (if buffer = [] then State_Monad.return ()
      else do {
        _ \<leftarrow> exec_pool (CopyRequestErrors now (map error_params buffer));
        State_Monad.return ()
      })"

definition runCleanup :: "pg_session \<Rightarrow> time \<Rightarrow> (world, unit) state" where
  "runCleanup pg now = do {
     _ \<leftarrow> exec_pool (DeleteOldErrors pg now);
     _ \<leftarrow> exec_pool (DeleteOldRequestStats pg now);
     State_Monad.return ()
   }"


subsection \<open>The statistics of the operators\<close>

record 'f go_float =
  float64_of :: "int \<Rightarrow> 'f"
  float64_div :: "'f \<Rightarrow> 'f \<Rightarrow> 'f"

record QueryRange =
  qr_from :: time
  qr_to :: time
  qr_interval :: string

record 'f RequestSeriesPoint =
  sq_bucket :: time
  sq_request_count :: int
  sq_status_2xx :: int
  sq_status_3xx :: int
  sq_status_4xx :: int
  sq_status_5xx :: int
  sq_average_duration_ms :: 'f
  sq_max_duration_ms :: int

record 'f RequestSeries =
  sy_from :: time
  sy_to :: time
  sy_interval :: string
  sy_points :: "'f RequestSeriesPoint list"

record RequestTypeCount =
  tc_type :: string
  tc_request_count :: int

record RequestTypeSeries =
  ty_from :: time
  ty_to :: time
  ty_interval :: string
  ty_types :: "RequestTypeCount list"

record ErrorLog =
  el_id :: int
  el_created_at :: time
  el_user_id :: "string option"
  el_method :: string
  el_route :: string
  el_status :: int
  el_code :: string
  el_message :: string

record ErrorLogResponse =
  lo_errors :: "ErrorLog list"
  lo_next_cursor :: "time option"
  lo_next_cursor_id :: "int option"

text \<open>\<open>Sub\<close> saturates at the limits of a \<open>time.Duration\<close>.\<close>

definition MaxDuration :: duration where
  "MaxDuration = 9223372036854775"

definition Sub :: "time \<Rightarrow> time \<Rightarrow> duration" where
  "Sub t u = max (- MaxDuration) (min MaxDuration (t - u))"

definition resolveRange :: "(string \<Rightarrow> string) \<Rightarrow> time \<Rightarrow> QueryRange \<Rightarrow> error + QueryRange" where
  "resolveRange ul now query =
     (let trimmed = ToLower ul (TrimSpace (qr_interval query));
          interval = (if trimmed = [] then IntervalHour else trimmed) in
      if interval \<noteq> IntervalHour \<and> interval \<noteq> IntervalDay then Inl (AdminError ''invalid_interval'' ''interval must be hour or day'')
      else
        let missing = IsZero (qr_from query) \<and> IsZero (qr_to query);
            to_time = (if missing then now else qr_to query);
            from_time = (if missing then now - defaultLookback else qr_from query) in
        if IsZero from_time \<or> IsZero to_time then Inl (AdminError ''invalid_range'' ''from and to must both be provided'')
        else if \<not> from_time < to_time then Inl (AdminError ''invalid_range'' ''from must be earlier than to'')
        else if maxRange < Sub to_time from_time then Inl (AdminError ''invalid_range'' ''range cannot exceed 90 days'')
        else Inr \<lparr> qr_from = from_time, qr_to = to_time, qr_interval = interval \<rparr>)"

record OverviewStats =
  ov_total_users :: int
  ov_verified_users :: int
  ov_new_users_24h :: int
  ov_new_users_7d :: int
  ov_new_users_30d :: int
  ov_active_users_24h :: int
  ov_active_users_7d :: int
  ov_active_users_30d :: int
  ov_total_devices :: int
  ov_total_sessions :: int
  ov_total_solves :: int

definition overview_of :: "GetOverviewStatsRow \<Rightarrow> OverviewStats" where
  "overview_of row = \<lparr> ov_total_users = go_total_users row, ov_verified_users = go_verified_users row,
     ov_new_users_24h = go_new_users_24h row, ov_new_users_7d = go_new_users_7d row, ov_new_users_30d = go_new_users_30d row,
     ov_active_users_24h = go_active_users_24h row, ov_active_users_7d = go_active_users_7d row,
     ov_active_users_30d = go_active_users_30d row, ov_total_devices = go_total_devices row,
     ov_total_sessions = go_total_sessions row, ov_total_solves = go_total_solves row \<rparr>"

definition Overview :: "pg_session \<Rightarrow> time \<Rightarrow> (world, error + OverviewStats) state" where
  "Overview pg pg_now = do {
     got \<leftarrow> exec_pool (GetOverviewStats pg pg_now);
     State_Monad.return (case got of Inl err \<Rightarrow> Inl (PgError err) | Inr row \<Rightarrow> Inr (overview_of row))
   }"

definition series_point :: "'f go_float \<Rightarrow> ListRequestStatsRow \<Rightarrow> 'f RequestSeriesPoint" where
  "series_point fl row =
     \<lparr> sq_bucket = lq_bucket row, sq_request_count = lq_request_count row, sq_status_2xx = lq_status_2xx row,
       sq_status_3xx = lq_status_3xx row, sq_status_4xx = lq_status_4xx row, sq_status_5xx = lq_status_5xx row,
       sq_average_duration_ms =
         (if 0 < lq_request_count row
          then float64_div fl (float64_of fl (lq_total_duration_ms row)) (float64_of fl (lq_request_count row))
          else float64_of fl 0),
       sq_max_duration_ms = lq_max_duration_ms row \<rparr>"

definition RequestStats ::
  "pg_session \<Rightarrow> 'f go_float \<Rightarrow> (string \<Rightarrow> string) \<Rightarrow> time \<Rightarrow> QueryRange \<Rightarrow> (world, error + 'f RequestSeries) state" where
  "RequestStats pg fl ul now query =
     (case resolveRange ul now query of
        Inl err \<Rightarrow> State_Monad.return (Inl err)
      | Inr resolved \<Rightarrow> do {
          got \<leftarrow> exec_pool (ListRequestStats pg (qr_interval resolved) (qr_from resolved) (qr_to resolved));
          case got of
            Inl err \<Rightarrow> State_Monad.return (Inl (PgError err))
          | Inr rows \<Rightarrow> State_Monad.return (Inr \<lparr> sy_from = qr_from resolved, sy_to = qr_to resolved,
              sy_interval = qr_interval resolved, sy_points = map (series_point fl) rows \<rparr>)
        })"

text \<open>The loop over the rows, with the sums wrapped to 64 bits.\<close>

definition count_type :: "RequestTypeCount list \<Rightarrow> ListRequestStatsByTypeRow \<Rightarrow> RequestTypeCount list" where
  "count_type counts row =
     (let requestType = requestTypeForRoute (lt_route row) in
      case row_at tc_type requestType counts of
        None \<Rightarrow> counts @ [\<lparr> tc_type = requestType, tc_request_count = lt_request_count row \<rparr>]
      | Some _ \<Rightarrow> update_where (\<lambda>c. tc_type c = requestType)
          (\<lambda>c. c\<lparr>tc_request_count := int64 (tc_request_count c + lt_request_count row)\<rparr>) counts)"

text \<open>
  The iteration over the map is in any order, but the types are distinct, so that the comparison of
  \<open>sort.Slice\<close> is that of a total order and its result does not depend on it.
\<close>

definition RequestTypeStats ::
  "pg_session \<Rightarrow> (string \<Rightarrow> string) \<Rightarrow> time \<Rightarrow> QueryRange \<Rightarrow> (world, error + RequestTypeSeries) state" where
  "RequestTypeStats pg ul now query =
     (case resolveRange ul now query of
        Inl err \<Rightarrow> State_Monad.return (Inl err)
      | Inr resolved \<Rightarrow> do {
          got \<leftarrow> exec_pool (ListRequestStatsByType pg (qr_from resolved) (qr_to resolved));
          case got of
            Inl err \<Rightarrow> State_Monad.return (Inl (PgError err))
          | Inr rows \<Rightarrow> State_Monad.return (Inr \<lparr> ty_from = qr_from resolved, ty_to = qr_to resolved,
              ty_interval = qr_interval resolved,
              ty_types = sort_key (\<lambda>c. LexPair (- tc_request_count c) (tc_type c)) (foldl count_type [] rows) \<rparr>)
        })"

definition error_log :: "(uuid \<Rightarrow> string) \<Rightarrow> RequestError \<Rightarrow> ErrorLog" where
  "error_log uuid_text row =
     \<lparr> el_id = qe_id row, el_created_at = qe_created_at row, el_user_id = map_option uuid_text (qe_user_id row),
       el_method = qe_method row, el_route = qe_route row, el_status = qe_status_code row,
       el_code = qe_code row, el_message = qe_message row \<rparr>"

definition ListErrors :: "(uuid \<Rightarrow> string) \<Rightarrow> time \<Rightarrow> time \<Rightarrow> int \<Rightarrow> int \<Rightarrow> (world, error + ErrorLogResponse) state" where
  "ListErrors uuid_text now before0 beforeID0 limit0 =
     (let limit = (if limit0 \<le> 0 \<or> 100 < limit0 then 50 else limit0);
          before = (if IsZero before0 then now else before0);
          beforeID = (if beforeID0 = 0 then MaxInt64 else beforeID0) in
      do {
        got \<leftarrow> exec_pool (ListIndividualErrors before beforeID (int32 limit));
        case got of
          Inl err \<Rightarrow> State_Monad.return (Inl (PgError err))
        | Inr rows \<Rightarrow>
            let errors = map (error_log uuid_text) rows in
            State_Monad.return (Inr
              \<lparr> lo_errors = errors,
                lo_next_cursor = (if int (length errors) = limit then Some (el_created_at (last errors)) else None),
                lo_next_cursor_id = (if int (length errors) = limit then Some (el_id (last errors)) else None) \<rparr>)
      })"

end
