(* ===== verification/Admin_Tally.thy ===== *)
theory Admin_Tally
  imports Admin_Service
begin

text \<open>
  What a flush of the request statistics amounts to. The requests that are counted under one key form
  a \<open>tally\<close>: how many they are, the time they took together, and the longest of them. Tallies are a commutative
  monoid, so that the aggregation in the buffer, the order of the map and the merging in the table
  all come down to sums.
\<close>

subsection \<open>Tallies\<close>

datatype tally = Tally (tl_requests: nat) (tl_spent: nat) (tl_longest: nat)

instantiation tally :: comm_monoid_add
begin

definition zero_tally :: tally where
  "zero_tally = Tally 0 0 0"

definition plus_tally :: "tally \<Rightarrow> tally \<Rightarrow> tally" where
  "plus_tally s t = Tally (tl_requests s + tl_requests t) (tl_spent s + tl_spent t) (max (tl_longest s) (tl_longest t))"

instance
  by standard (auto simp: zero_tally_def plus_tally_def)

end

lemma tally_sel [simp]:
  "tl_requests (s + t) = tl_requests s + tl_requests t" "tl_spent (s + t) = tl_spent s + tl_spent t"
  "tl_longest (s + t) = max (tl_longest s) (tl_longest t)"
  "tl_requests 0 = 0" "tl_spent 0 = 0" "tl_longest 0 = 0"
  by (simp_all add: zero_tally_def plus_tally_def)

definition tally_of :: "stat_id \<Rightarrow> metric list \<Rightarrow> tally" where
  "tally_of k ms = sum_list (map (\<lambda>m. if metricKey m = k then Tally 1 (nat (durationMS m)) (nat (durationMS m)) else 0) ms)"

lemma tally_of_simps [simp]:
  "tally_of k [] = 0"
  "tally_of k (ms @ ns) = tally_of k ms + tally_of k ns"
  "tally_of k (m # ms) = (if metricKey m = k then Tally 1 (nat (durationMS m)) (nat (durationMS m)) else 0) + tally_of k ms"
  by (simp_all add: tally_of_def)

definition tally_row :: "RequestStatsHourly \<Rightarrow> tally" where
  "tally_row r = Tally (nat (qh_request_count r)) (nat (qh_total_duration_ms r)) (nat (qh_max_duration_ms r))"

text \<open>The tally stored under a key, and that it is a row the schema admits.\<close>

definition stored :: "stat_id \<Rightarrow> RequestStatsHourly list \<Rightarrow> tally" where
  "stored k rows = (case row_at stat_key k rows of None \<Rightarrow> 0 | Some r \<Rightarrow> tally_row r)"

definition stored_ok :: "stat_id \<Rightarrow> RequestStatsHourly list \<Rightarrow> bool" where
  "stored_ok k rows \<longleftrightarrow> (case row_at stat_key k rows of None \<Rightarrow> True | Some r \<Rightarrow> stat_check r)"

definition tally_fits :: "tally \<Rightarrow> bool" where
  "tally_fits t \<longleftrightarrow> int (tl_requests t) \<le> MaxInt64 \<and> int (tl_spent t) \<le> MaxInt64"

lemma tally_fits_less: "tally_fits (s + t) \<Longrightarrow> tally_fits s" "tally_fits (s + t) \<Longrightarrow> tally_fits t"
  by (auto simp: tally_fits_def)

lemma int64_nonneg: "0 \<le> x \<Longrightarrow> x \<le> MaxInt64 \<Longrightarrow> int64 x = x"
  by (simp add: int64_def MaxInt64_def)


subsection \<open>Aggregation\<close>

lemma stat_key_updates [simp]:
  "stat_key (add_request ms r) = stat_key r" "stat_key (merge_stat a r) = stat_key r" "stat_key (new_stat k) = k"
  by (auto simp: stat_key_def add_request_def merge_stat_def new_stat_def split: prod.splits)

lemma durationMS_nonneg [simp]: "0 \<le> durationMS m"
  by (simp add: durationMS_def)

lemma add_request_tally:
  assumes "stat_check r" "0 \<le> ms" "tally_fits (tally_row r + Tally 1 (nat ms) (nat ms))"
  shows "stat_check (add_request ms r)" "tally_row (add_request ms r) = tally_row r + Tally 1 (nat ms) (nat ms)"
proof -
  have "int64 (qh_request_count r + 1) = qh_request_count r + 1" "int64 (qh_total_duration_ms r + ms) = qh_total_duration_ms r + ms"
    using assms by (auto simp: stat_check_def tally_fits_def tally_row_def intro!: int64_nonneg)
  then show "stat_check (add_request ms r)" "tally_row (add_request ms r) = tally_row r + Tally 1 (nat ms) (nat ms)"
    using assms by (auto simp: add_request_def stat_check_def tally_row_def plus_tally_def nat_add_distrib max_def)
qed

lemma new_stat_tally: "stat_check (new_stat k)" "tally_row (new_stat k) = 0"
  by (auto simp: new_stat_def stat_check_def tally_row_def zero_tally_def split: prod.splits)

lemma row_at_aggregate:
  "row_at stat_key k (aggregate_metric rows m) =
     (if metricKey m = k then Some (add_request (durationMS m) (case row_at stat_key k rows of None \<Rightarrow> new_stat k | Some r \<Rightarrow> r))
      else row_at stat_key k rows)"
  by (auto simp: aggregate_metric_def Let_def row_at_append row_at_update_where dest: row_at_Some split: option.split)

lemma aggregate_metric_tally:
  assumes ok: "stored_ok k rows" and fits: "tally_fits (stored k rows + tally_of k [m])"
  shows "stored_ok k (aggregate_metric rows m)" "stored k (aggregate_metric rows m) = stored k rows + tally_of k [m]"
proof -
  let ?r = "case row_at stat_key k rows of None \<Rightarrow> new_stat k | Some r \<Rightarrow> r"
  have "stored_ok k (aggregate_metric rows m) \<and> stored k (aggregate_metric rows m) = stored k rows + tally_of k [m]"
  proof (cases "metricKey m = k")
    case True
    have r: "stat_check ?r" "tally_row ?r = stored k rows"
      using ok by (auto simp: stored_ok_def stored_def new_stat_tally split: option.splits)
    have "tally_fits (tally_row ?r + Tally 1 (nat (durationMS m)) (nat (durationMS m)))" using fits True r by simp
    with add_request_tally [OF r(1) durationMS_nonneg this] True r
    show ?thesis by (simp add: stored_ok_def stored_def [of k "aggregate_metric rows m"] row_at_aggregate)
  qed (use ok in \<open>simp add: stored_ok_def stored_def row_at_aggregate\<close>)
  then show "stored_ok k (aggregate_metric rows m)" "stored k (aggregate_metric rows m) = stored k rows + tally_of k [m]" by auto
qed

lemma aggregate_tally:
  assumes "stored_ok k rows" "tally_fits (stored k rows + tally_of k ms)"
  shows "stored_ok k (foldl aggregate_metric rows ms) \<and> stored k (foldl aggregate_metric rows ms) = stored k rows + tally_of k ms"
  using assms
proof (induction ms arbitrary: rows)
  case (Cons m ms)
  have "tally_fits (stored k rows + tally_of k [m])"
    using Cons.prems(2) by (auto intro: tally_fits_less(1) simp: add.assoc [symmetric])
  note step = aggregate_metric_tally [OF Cons.prems(1) this]
  show ?case using Cons.IH [OF step(1)] Cons.prems(2) step(2) by (simp add: add.assoc)
qed simp

lemma aggregate_keys: "keys_distinct stat_key rows \<Longrightarrow> keys_distinct stat_key (foldl aggregate_metric rows ms)"
proof (induction ms arbitrary: rows)
  case (Cons m ms)
  have "keys_distinct stat_key (aggregate_metric rows m)"
    using Cons.prems
    by (auto simp: aggregate_metric_def Let_def keys_distinct_update_where intro!: keys_distinct_append split: option.split)
  then show ?case using Cons.IH by simp
qed simp

lemma row_at_reorder:
  assumes "keys_distinct key rows" "mset rows' = mset rows"
  shows "keys_distinct key rows'" "row_at key k rows' = row_at key k rows"
proof -
  have "mset (map key rows') = mset (map key rows)" using assms(2) by simp
  then show distinct': "keys_distinct key rows'" using assms(1) unfolding keys_distinct_def by (metis mset_eq_imp_distinct_iff)
  have "set rows' = set rows" using assms(2) by (metis set_mset_mset)
  then show "row_at key k rows' = row_at key k rows"
    using row_at_iff [OF assms(1)] row_at_iff [OF distinct'] by (metis not_Some_eq)
qed


subsection \<open>Merging into the table\<close>

abbreviation stats_of :: "world \<Rightarrow> RequestStatsHourly list" where
  "stats_of w \<equiv> request_stats_hourly (committed w)"

lemma merge_tally:
  assumes "stat_check a" "stat_check r"
  shows "stat_check (merge_stat a r)" "tally_row (merge_stat a r) = tally_row r + tally_row a"
  using assms by (auto simp: stat_check_def merge_stat_def tally_row_def plus_tally_def nat_add_distrib max_def)

lemma RecordRequestStat_other:
  assumes "stat_key a \<noteq> k"
  shows "row_at stat_key k (request_stats_hourly (snd (RecordRequestStat a d))) = row_at stat_key k (request_stats_hourly d)"
  using assms
  by (auto simp: RecordRequestStat_def Let_def row_at_append row_at_update_where dest: row_at_Some split: option.split)

lemma RecordRequestStat_same:
  assumes "stat_key a = k" "text_ok (qh_method a)" "text_ok (qh_route a)" "stat_check a" "stored_ok k (request_stats_hourly d)"
    and "tally_fits (stored k (request_stats_hourly d) + tally_row a)"
  shows "stored_ok k (request_stats_hourly (snd (RecordRequestStat a d)))"
    "stored k (request_stats_hourly (snd (RecordRequestStat a d))) = stored k (request_stats_hourly d) + tally_row a"
proof (atomize (full), cases "row_at stat_key k (request_stats_hourly d)")
  case None
  with assms show "stored_ok k (request_stats_hourly (snd (RecordRequestStat a d))) \<and>
    stored k (request_stats_hourly (snd (RecordRequestStat a d))) = stored k (request_stats_hourly d) + tally_row a"
    by (simp add: RecordRequestStat_def stored_def stored_ok_def row_at_append)
next
  case (Some r)
  then have r: "stat_check r" using assms(5) by (simp add: stored_ok_def)
  note merged = merge_tally [OF assms(4) r]
  have "fits_bigint (qh_request_count (merge_stat a r))" "fits_bigint (qh_total_duration_ms (merge_stat a r))"
    using assms(4,6) Some r
    by (auto simp: stored_def tally_fits_def fits_bigint_def stat_check_def tally_row_def merge_stat_def)
  with Some merged assms show "stored_ok k (request_stats_hourly (snd (RecordRequestStat a d))) \<and>
    stored k (request_stats_hourly (snd (RecordRequestStat a d))) = stored k (request_stats_hourly d) + tally_row a"
    using row_at_Some [OF Some]
    by (simp add: RecordRequestStat_def Let_def stored_def stored_ok_def row_at_update_where)
qed

lemma recordAll_other:
  assumes "faults w = []" "\<forall>a\<in>set aggs. stat_key a \<noteq> k"
  shows "row_at stat_key k (stats_of (snd (run_state (recordAll aggs) w))) = row_at stat_key k (stats_of w)"
  using assms by (induction aggs arbitrary: w) (auto simp: run_simps RecordRequestStat_other)

definition text_key :: "stat_id \<Rightarrow> bool" where
  "text_key k \<longleftrightarrow> (case k of (_, meth, route, _) \<Rightarrow> text_ok meth \<and> text_ok route)"

lemma text_key_row: "text_key (stat_key a) \<longleftrightarrow> text_ok (qh_method a) \<and> text_ok (qh_route a)"
  by (simp add: text_key_def stat_key_def)

lemma recordAll_tally:
  assumes "faults w = []" "keys_distinct stat_key aggs" "text_key k" "stored_ok k aggs" "stored_ok k (stats_of w)"
    and "tally_fits (stored k (stats_of w) + stored k aggs)"
  shows "stored_ok k (stats_of (snd (run_state (recordAll aggs) w))) \<and>
    stored k (stats_of (snd (run_state (recordAll aggs) w))) = stored k (stats_of w) + stored k aggs"
  using assms
proof (induction aggs arbitrary: w)
  case (Cons a aggs)
  let ?w = "w\<lparr>committed := snd (RecordRequestStat a (committed w))\<rparr>"
  have run: "snd (run_state (recordAll (a # aggs)) w) = snd (run_state (recordAll aggs) ?w)"
    using Cons.prems(1) by (simp add: run_simps)
  show ?case
  proof (cases "stat_key a = k")
    case True
    then have rest: "\<forall>b\<in>set aggs. stat_key b \<noteq> k" using Cons.prems(2) by (simp add: keys_distinct_def) (metis imageI)
    have a: "stat_check a" "stored k (a # aggs) = tally_row a" "text_ok (qh_method a)" "text_ok (qh_route a)"
      using Cons.prems(3,4) True text_key_row [of a] by (auto simp: stored_ok_def stored_def)
    have "row_at stat_key k (stats_of (snd (run_state (recordAll aggs) ?w))) = row_at stat_key k (stats_of ?w)"
      using Cons.prems(1) rest by (intro recordAll_other) auto
    then show ?thesis
      using RecordRequestStat_same [OF True a(3,4,1) Cons.prems(5)] Cons.prems(6) a(2) unfolding run
      by (simp add: stored_def stored_ok_def)
  next
    case False
    then have same: "row_at stat_key k (stats_of ?w) = row_at stat_key k (stats_of w)" by (simp add: RecordRequestStat_other)
    have "stored_ok k (stats_of (snd (run_state (recordAll aggs) ?w))) \<and>
        stored k (stats_of (snd (run_state (recordAll aggs) ?w))) = stored k (stats_of ?w) + stored k aggs"
      using Cons.prems False same by (intro Cons.IH) (auto simp: stored_def stored_ok_def keys_distinct_def)
    then show ?thesis using same False unfolding run by (simp add: stored_def)
  qed
qed (simp add: stored_def)

text \<open>A flush on a working connection adds what the buffer holds, for every key, in whatever order the map is read.\<close>

lemma flush_tally:
  assumes "map_order_ok order" "faults w = []" "text_key k" "stored_ok k (stats_of w)"
    and "tally_fits (stored k (stats_of w) + tally_of k buffer)"
  shows "stored_ok k (stats_of (snd (run_state (flush order buffer) w)))"
    "stored k (stats_of (snd (run_state (flush order buffer) w))) = stored k (stats_of w) + tally_of k buffer"
proof -
  let ?aggs = "foldl aggregate_metric [] buffer"
  have keys: "keys_distinct stat_key ?aggs" by (rule aggregate_keys) (simp add: keys_distinct_def)
  note order = row_at_reorder [OF keys, of "order ?aggs"]
  have perm: "mset (order ?aggs) = mset ?aggs" using assms(1) by (simp add: map_order_ok_def)
  have "tally_fits (stored k [] + tally_of k buffer)" using tally_fits_less(2) [OF assms(5)] by (simp add: stored_def)
  then have aggs: "stored_ok k ?aggs" "stored k ?aggs = tally_of k buffer"
    using aggregate_tally [of k "[]" buffer] by (simp_all add: stored_ok_def stored_def)
  have "stored_ok k (stats_of (snd (run_state (recordAll (order ?aggs)) w))) \<and>
      stored k (stats_of (snd (run_state (recordAll (order ?aggs)) w))) = stored k (stats_of w) + stored k (order ?aggs)"
    using assms(2-5) order [OF perm] aggs by (intro recordAll_tally) (simp_all add: stored_def stored_ok_def)
  then have "stored_ok k (stats_of (snd (run_state (flush order buffer) w))) \<and>
    stored k (stats_of (snd (run_state (flush order buffer) w))) = stored k (stats_of w) + tally_of k buffer"
    using assms(4) order(2) [OF perm] aggs by (auto simp: flush_def stored_def)
  then show "stored_ok k (stats_of (snd (run_state (flush order buffer) w)))"
    "stored k (stats_of (snd (run_state (flush order buffer) w))) = stored k (stats_of w) + tally_of k buffer" by auto
qed

end
