(* ===== verification/Admin_Loop.thy ===== *)
theory Admin_Loop
  imports Admin_Tally
begin

text \<open>
  The background loop of \<open>internal/admin/service.go\<close> as a transition system: senders that have passed
  the checks of \<open>RecordRequestAsync\<close> and \<open>RecordErrorAsync\<close> and have not sent yet, the two channels, the
  buffers of \<open>flushLoop\<close>, and the database, which other parts of the server change meanwhile. A \<open>select\<close> takes
  any case that is ready, and the two tickers may fire at any time. A step is labelled with what it lets in or
  removes, so that a run has a history.
\<close>

datatype loop_phase = Running | Draining | Stopped

record admin_conf =
  cf_service :: AdminService
  cf_sending :: "metric list"
  cf_sending_errors :: "errorEvent list"
  cf_phase :: loop_phase
  cf_buffer :: "metric list"
  cf_errBuffer :: "errorEvent list"
  cf_world :: world

datatype loop_event = RequestAccepted metric | ErrorAccepted errorEvent | CleanedBefore time


subsection \<open>The cases of the loop\<close>

definition flush_buffer :: "map_order \<Rightarrow> admin_conf \<Rightarrow> admin_conf" where
  "flush_buffer order c = c\<lparr>cf_world := snd (run_state (flush order (cf_buffer c)) (cf_world c)), cf_buffer := []\<rparr>"

definition flush_errBuffer :: "time \<Rightarrow> admin_conf \<Rightarrow> admin_conf" where
  "flush_errBuffer now c = c\<lparr>cf_world := snd (run_state (flushErrors now (cf_errBuffer c)) (cf_world c)), cf_errBuffer := []\<rparr>"

definition flushAll :: "map_order \<Rightarrow> time \<Rightarrow> admin_conf \<Rightarrow> admin_conf" where
  "flushAll order now c = flush_errBuffer now (flush_buffer order c)"

text \<open>A value moves from the channel to the buffer.\<close>

definition take_metric :: "admin_conf \<Rightarrow> admin_conf" where
  "take_metric c =
     (case ad_metrics (cf_service c) of
        [] \<Rightarrow> c
      | m # ms \<Rightarrow> c\<lparr>cf_service := (cf_service c)\<lparr>ad_metrics := ms\<rparr>, cf_buffer := cf_buffer c @ [m]\<rparr>)"

definition take_error :: "admin_conf \<Rightarrow> admin_conf" where
  "take_error c =
     (case ad_errorLogs (cf_service c) of
        [] \<Rightarrow> c
      | e # es \<Rightarrow> c\<lparr>cf_service := (cf_service c)\<lparr>ad_errorLogs := es\<rparr>, cf_errBuffer := cf_errBuffer c @ [e]\<rparr>)"

definition receive_metric :: "map_order \<Rightarrow> admin_conf \<Rightarrow> admin_conf" where
  "receive_metric order c = (let c' = take_metric c in if 200 \<le> length (cf_buffer c') then flush_buffer order c' else c')"

definition receive_error :: "time \<Rightarrow> admin_conf \<Rightarrow> admin_conf" where
  "receive_error now c = (let c' = take_error c in if 100 \<le> length (cf_errBuffer c') then flush_errBuffer now c' else c')"

definition cleanup :: "pg_session \<Rightarrow> time \<Rightarrow> admin_conf \<Rightarrow> admin_conf" where
  "cleanup pg now c = c\<lparr>cf_world := snd (run_state (runCleanup pg now) (cf_world c))\<rparr>"

definition same_request_tables :: "db \<Rightarrow> db \<Rightarrow> bool" where
  "same_request_tables d d' \<longleftrightarrow> request_stats_hourly d' = request_stats_hourly d \<and> request_errors d' = request_errors d \<and>
     request_errors_id_seq d' = request_errors_id_seq d"

inductive admin_step :: "pg_session \<Rightarrow> map_order \<Rightarrow> admin_conf \<Rightarrow> loop_event list \<Rightarrow> admin_conf \<Rightarrow> bool" for pg order where
  check_metric: "accepts_metric (cf_service c) (mt_route m) \<Longrightarrow>
    admin_step pg order c [] (c\<lparr>cf_sending := m # cf_sending c\<rparr>)"
| send_metric: "m \<in> set (cf_sending c) \<Longrightarrow>
    admin_step pg order c (if length (ad_metrics (cf_service c)) < channel_size then [RequestAccepted m] else [])
      (c\<lparr>cf_sending := remove1 m (cf_sending c), cf_service := send_metric m (cf_service c)\<rparr>)"
| check_error: "accepts_error (cf_service c) (ee_route e) status \<Longrightarrow> ee_statusCode e = int32 status \<Longrightarrow>
    admin_step pg order c [] (c\<lparr>cf_sending_errors := e # cf_sending_errors c\<rparr>)"
| send_error: "e \<in> set (cf_sending_errors c) \<Longrightarrow>
    admin_step pg order c (if length (ad_errorLogs (cf_service c)) < channel_size then [ErrorAccepted e] else [])
      (c\<lparr>cf_sending_errors := remove1 e (cf_sending_errors c), cf_service := send_error e (cf_service c)\<rparr>)"
| receive_metric: "cf_phase c = Running \<Longrightarrow> ad_metrics (cf_service c) \<noteq> [] \<Longrightarrow>
    admin_step pg order c [] (receive_metric order c)"
| receive_error: "cf_phase c = Running \<Longrightarrow> ad_errorLogs (cf_service c) \<noteq> [] \<Longrightarrow>
    admin_step pg order c [] (receive_error now c)"
| tick: "cf_phase c = Running \<Longrightarrow> admin_step pg order c [] (flushAll order now c)"
| cleanup: "cf_phase c = Running \<Longrightarrow> admin_step pg order c [CleanedBefore (pg_minus_days pg 90 now)] (cleanup pg now c)"
| shutdown: "admin_step pg order c [] (c\<lparr>cf_service := (cf_service c)\<lparr>ad_shutdown := True\<rparr>\<rparr>)"
| close: "ad_shutdown (cf_service c) \<Longrightarrow> admin_step pg order c [] (c\<lparr>cf_service := (cf_service c)\<lparr>ad_stopChan := True\<rparr>\<rparr>)"
| stop: "cf_phase c = Running \<Longrightarrow> ad_stopChan (cf_service c) \<Longrightarrow> admin_step pg order c [] (c\<lparr>cf_phase := Draining\<rparr>)"
| drain_metric: "cf_phase c = Draining \<Longrightarrow> ad_metrics (cf_service c) \<noteq> [] \<Longrightarrow> admin_step pg order c [] (take_metric c)"
| drain_error: "cf_phase c = Draining \<Longrightarrow> ad_errorLogs (cf_service c) \<noteq> [] \<Longrightarrow> admin_step pg order c [] (take_error c)"
| drained: "cf_phase c = Draining \<Longrightarrow> ad_metrics (cf_service c) = [] \<Longrightarrow> ad_errorLogs (cf_service c) = [] \<Longrightarrow>
    admin_step pg order c [] ((flushAll order now c)\<lparr>cf_phase := Stopped\<rparr>)"
| others: "same_request_tables (committed (cf_world c)) d \<Longrightarrow>
    admin_step pg order c [] (c\<lparr>cf_world := (cf_world c)\<lparr>committed := d\<rparr>\<rparr>)"

inductive admin_run :: "pg_session \<Rightarrow> map_order \<Rightarrow> admin_conf \<Rightarrow> loop_event list \<Rightarrow> admin_conf \<Rightarrow> bool" for pg order where
  start: "admin_run pg order c [] c"
| extend: "admin_run pg order c evs c' \<Longrightarrow> admin_step pg order c' es c'' \<Longrightarrow> admin_run pg order c (evs @ es) c''"

lemma admin_run_first:
  assumes "admin_run pg order c1 evs c'" "admin_step pg order c es c1"
  shows "admin_run pg order c (es @ evs) c'"
  using assms
proof (induction rule: admin_run.induct)
  case (start c1)
  then show ?case using admin_run.extend [OF admin_run.start] by simp
next
  case (extend c1 evs c' es' c'')
  then show ?case using admin_run.extend [of pg order c "es @ evs" c'] by simp
qed

fun accepted_requests :: "loop_event list \<Rightarrow> metric list" where
  "accepted_requests [] = []"
| "accepted_requests (RequestAccepted m # evs) = m # accepted_requests evs"
| "accepted_requests (_ # evs) = accepted_requests evs"

fun accepted_errors :: "loop_event list \<Rightarrow> errorEvent list" where
  "accepted_errors [] = []"
| "accepted_errors (ErrorAccepted e # evs) = e # accepted_errors evs"
| "accepted_errors (_ # evs) = accepted_errors evs"

lemma accepted_append [simp]:
  "accepted_requests (evs @ es) = accepted_requests evs @ accepted_requests es"
  "accepted_errors (evs @ es) = accepted_errors evs @ accepted_errors es"
  by (induction evs rule: accepted_requests.induct; simp) (induction evs rule: accepted_errors.induct; simp)


subsection \<open>What the programs of the loop touch\<close>

text \<open>A flush of one table leaves the other alone, and a working connection keeps working.\<close>

lemma run_clean:
  assumes "faults w = []"
  shows "faults (snd (run_state (recordAll aggs) w)) = []" "faults (snd (run_state (flush order buffer) w)) = []"
    "faults (snd (run_state (flushErrors now errs) w)) = []" "faults (snd (run_state (runCleanup pg now) w)) = []"
proof -
  have all: "faults (snd (run_state (recordAll aggs) w)) = []" if "faults w = []" for aggs w
    using that by (induction aggs arbitrary: w) (simp_all add: run_simps)
  show "faults (snd (run_state (recordAll aggs) w)) = []" using all assms by simp
  show "faults (snd (run_state (flush order buffer) w)) = []" using all assms by (simp add: flush_def)
qed (use assms in \<open>simp_all add: flushErrors_def runCleanup_def run_simps\<close>)

interpretation errors_kept: transition_preorder
  "\<lambda>w w'. request_errors (committed w') = request_errors (committed w) \<and> request_errors_id_seq (committed w') = request_errors_id_seq (committed w)"
  by unfold_locales auto

interpretation stats_kept: transition_preorder "\<lambda>w w'. stats_of w' = stats_of w"
  by unfold_locales auto

lemma flush_errors_kept:
  "request_errors (committed (snd (run_state (flush order buffer) w))) = request_errors (committed w)"
  "request_errors_id_seq (committed (snd (run_state (flush order buffer) w))) = request_errors_id_seq (committed w)"
proof -
  have stmt: "state_io_rel (\<lambda>w w'. request_errors (committed w') = request_errors (committed w) \<and>
      request_errors_id_seq (committed w') = request_errors_id_seq (committed w)) (exec_pool (RecordRequestStat a))" for a
    by (rule state_io_relI)
      (auto simp: exec_pool_def RecordRequestStat_def Let_def split: fault.splits option.splits if_splits)
  have "state_io_rel (\<lambda>w w'. request_errors (committed w') = request_errors (committed w) \<and>
      request_errors_id_seq (committed w') = request_errors_id_seq (committed w)) (recordAll aggs)" for aggs
    by (induction aggs) (auto intro: stmt)
  then have "state_io_rel (\<lambda>w w'. request_errors (committed w') = request_errors (committed w) \<and>
      request_errors_id_seq (committed w') = request_errors_id_seq (committed w)) (flush order buffer)"
    by (auto simp: flush_def)
  then show "request_errors (committed (snd (run_state (flush order buffer) w))) = request_errors (committed w)"
    "request_errors_id_seq (committed (snd (run_state (flush order buffer) w))) = request_errors_id_seq (committed w)"
    by (auto simp: state_io_rel_def)
qed

lemma flushErrors_stats_kept: "stats_of (snd (run_state (flushErrors now buffer) w)) = stats_of w"
proof -
  have "state_io_rel (\<lambda>w w'. stats_of w' = stats_of w) (exec_pool (CopyRequestErrors now arg))" for arg
    by (rule state_io_relI)
      (auto simp: exec_pool_def Let_def CopyRequestErrors_def split: fault.splits sum.splits prod.splits)
  then have "state_io_rel (\<lambda>w w'. stats_of w' = stats_of w) (flushErrors now buffer)" by (auto simp: flushErrors_def)
  then show ?thesis by (simp add: state_io_rel_def)
qed


subsection \<open>Every request that was let in is counted\<close>

text \<open>What is counted under a key, in the table or on the way to it.\<close>

definition booked :: "stat_id \<Rightarrow> admin_conf \<Rightarrow> tally" where
  "booked k c = stored k (stats_of (cf_world c)) + tally_of k (cf_buffer c @ ad_metrics (cf_service c))"

definition counting :: "stat_id \<Rightarrow> admin_conf \<Rightarrow> bool" where
  "counting k c \<longleftrightarrow> faults (cf_world c) = [] \<and> stored_ok k (stats_of (cf_world c))"

lemma take_metric_booked: "booked k (take_metric c) = booked k c" "counting k (take_metric c) = counting k c"
  by (auto simp: take_metric_def booked_def counting_def add.assoc split: list.split)

lemma take_error_booked: "booked k (take_error c) = booked k c" "counting k (take_error c) = counting k c"
  by (auto simp: take_error_def booked_def counting_def split: list.split)

lemma flush_buffer_booked:
  assumes "map_order_ok order" "text_key k" "counting k c" "tally_fits (booked k c)"
  shows "booked k (flush_buffer order c) = booked k c" "counting k (flush_buffer order c)"
proof -
  have c: "faults (cf_world c) = []" "stored_ok k (stats_of (cf_world c))" using assms(3) by (auto simp: counting_def)
  have "tally_fits (stored k (stats_of (cf_world c)) + tally_of k (cf_buffer c))"
    using assms(4) tally_fits_less(1) by (simp add: booked_def add.assoc [symmetric])
  note flushed = flush_tally [OF assms(1) c(1) assms(2) c(2) this]
  show "booked k (flush_buffer order c) = booked k c" using flushed(2) by (simp add: booked_def flush_buffer_def add.assoc)
  show "counting k (flush_buffer order c)" using flushed(1) run_clean(2) [OF c(1)] by (simp add: counting_def flush_buffer_def)
qed

lemma flush_errBuffer_booked:
  "booked k (flush_errBuffer now c) = booked k c" "counting k c \<Longrightarrow> counting k (flush_errBuffer now c)"
  by (simp_all add: booked_def counting_def flush_errBuffer_def flushErrors_stats_kept run_clean(3))

lemma cleanup_booked:
  assumes "counting k c" "pg_minus_days pg 90 now \<le> fst k"
  shows "booked k (cleanup pg now c) = booked k c" "counting k (cleanup pg now c)"
proof -
  have "row_at stat_key k (filter (\<lambda>r. \<not> qh_bucket_hour r < pg_minus_days pg 90 now) rows) = row_at stat_key k rows" for rows
    using assms(2) by (induction rows) (auto simp: stat_key_def)
  then have "row_at stat_key k (stats_of (cf_world (cleanup pg now c))) = row_at stat_key k (stats_of (cf_world c))"
    using assms(1) by (simp add: cleanup_def runCleanup_def run_simps counting_def DeleteOldErrors_def DeleteOldRequestStats_def)
  then show "booked k (cleanup pg now c) = booked k c" "counting k (cleanup pg now c)"
    using assms(1) run_clean(4) by (simp_all add: booked_def counting_def stored_def stored_ok_def cleanup_def)
qed

lemma admin_step_booked:
  assumes "admin_step pg order c es c'" "map_order_ok order" "text_key k" "counting k c"
    and "tally_fits (booked k c + tally_of k (accepted_requests es))" "\<forall>t. CleanedBefore t \<in> set es \<longrightarrow> t \<le> fst k"
  shows "booked k c' = booked k c + tally_of k (accepted_requests es) \<and> counting k c'"
  using assms
proof (cases rule: admin_step.cases)
  case (send_metric m)
  then show ?thesis using assms(4) by (auto simp: booked_def counting_def send_metric_def add_ac)
next
  case (send_error e)
  then show ?thesis using assms(4) by (auto simp: booked_def counting_def send_error_def)
next
  case receive_metric
  then show ?thesis
    using assms(2-5) flush_buffer_booked [of order k "take_metric c"] by (auto simp: receive_metric_def Let_def take_metric_booked)
next
  case (receive_error now)
  then show ?thesis
    using assms(4) flush_errBuffer_booked [where k = k and now = now and c = "take_error c"] by (auto simp: receive_error_def Let_def take_error_booked)
next
  case (tick now)
  then show ?thesis
    using assms(2-5) flush_buffer_booked [of order k c] flush_errBuffer_booked [where k = k and now = now] by (auto simp: flushAll_def)
next
  case (cleanup now)
  then show ?thesis using cleanup_booked [OF assms(4), of pg now] assms(6) by simp
next
  case (drained now)
  have phase: "booked k (x\<lparr>cf_phase := Stopped\<rparr>) = booked k x" "counting k (x\<lparr>cf_phase := Stopped\<rparr>) = counting k x" for x
    by (simp_all add: booked_def counting_def)
  from drained show ?thesis
    using assms(2-5) flush_buffer_booked [of order k c] flush_errBuffer_booked [where k = k and now = now] by (auto simp: flushAll_def phase)
next
  case (others d)
  then show ?thesis using assms(4) by (simp add: booked_def counting_def same_request_tables_def)
next
  case drain_metric
  then show ?thesis using assms(4) by (simp add: take_metric_booked)
next
  case drain_error
  then show ?thesis using assms(4) by (simp add: take_error_booked)
qed (auto simp: booked_def counting_def)

lemma admin_run_booked:
  assumes "admin_run pg order c evs c'" "map_order_ok order" "text_key k" "counting k c"
    and "tally_fits (booked k c + tally_of k (accepted_requests evs))" "\<forall>t. CleanedBefore t \<in> set evs \<longrightarrow> t \<le> fst k"
  shows "booked k c' = booked k c + tally_of k (accepted_requests evs) \<and> counting k c'"
  using assms
proof (induction rule: admin_run.induct)
  case (extend c evs c' es c'')
  have all: "tally_fits ((booked k c + tally_of k (accepted_requests evs)) + tally_of k (accepted_requests es))"
    using extend.prems(4) by (simp add: add.assoc)
  have "booked k c' = booked k c + tally_of k (accepted_requests evs) \<and> counting k c'"
    using extend.prems tally_fits_less(1) [OF all] by (intro extend.IH) auto
  then show ?case
    using admin_step_booked [OF extend.hyps(2) extend.prems(1,2)] all extend.prems(5) by (auto simp: add.assoc)
qed simp

text \<open>A loop that has ended has emptied its buffers.\<close>

definition emptied :: "admin_conf \<Rightarrow> bool" where
  "emptied c \<longleftrightarrow> (cf_phase c = Stopped \<longrightarrow> cf_buffer c = [] \<and> cf_errBuffer c = [])"

lemma admin_step_emptied: "admin_step pg order c es c' \<Longrightarrow> emptied c \<Longrightarrow> emptied c'"
  by (induction rule: admin_step.induct)
    (auto simp: emptied_def take_metric_def take_error_def receive_metric_def receive_error_def flush_buffer_def
      flush_errBuffer_def flushAll_def cleanup_def Let_def split: list.split)

lemma admin_run_emptied: "admin_run pg order c evs c' \<Longrightarrow> emptied c \<Longrightarrow> emptied c'"
  by (induction rule: admin_run.induct) (auto intro: admin_step_emptied)


subsection \<open>Shutting down\<close>

lemma drain_ends:
  assumes "cf_phase c = Draining"
  shows "\<exists>c'. admin_run pg order c [] c' \<and> cf_phase c' = Stopped \<and> ad_metrics (cf_service c') = []"
  using assms
proof (induction "length (ad_metrics (cf_service c)) + length (ad_errorLogs (cf_service c))" arbitrary: c rule: less_induct)
  case less
  have step: "\<exists>c'. admin_run pg order c [] c' \<and> cf_phase c' = Stopped \<and> ad_metrics (cf_service c') = []"
    if first: "admin_step pg order c [] c1" "cf_phase c1 = Draining"
      and shorter: "length (ad_metrics (cf_service c1)) + length (ad_errorLogs (cf_service c1)) <
        length (ad_metrics (cf_service c)) + length (ad_errorLogs (cf_service c))" for c1
  proof -
    obtain c' where c': "admin_run pg order c1 [] c'" "cf_phase c' = Stopped" "ad_metrics (cf_service c') = []"
      using less(1) [OF shorter first(2)] by blast
    with admin_run_first [OF c'(1) first(1)] c'(2,3) show ?thesis by auto
  qed
  show ?case
  proof (cases "ad_metrics (cf_service c) = [] \<and> ad_errorLogs (cf_service c) = []")
    case True
    let ?c = "(flushAll order 0 c)\<lparr>cf_phase := Stopped\<rparr>"
    have "admin_run pg order c ([] @ []) ?c"
      using True less(2) by (intro admin_run.extend [OF admin_run.start] drained) auto
    then show ?thesis using True by (intro exI [of _ ?c]) (simp add: flushAll_def flush_errBuffer_def flush_buffer_def)
  next
    case False
    show ?thesis
    proof (cases "ad_metrics (cf_service c) = []")
      case True
      with False less(2) step [OF drain_error] show ?thesis by (cases "ad_errorLogs (cf_service c)") (auto simp: take_error_def)
    next
      case False
      with less(2) step [OF drain_metric] show ?thesis by (cases "ad_metrics (cf_service c)") (auto simp: take_metric_def)
    qed
  qed
qed


subsection \<open>Every error that was let in is logged, in order\<close>

definition logged_params :: "RequestError \<Rightarrow> CopyRequestErrorsParams" where
  "logged_params r = \<lparr> ce_user_id = qe_user_id r, ce_method = qe_method r, ce_route = qe_route r,
     ce_status_code = qe_status_code r, ce_code = qe_code r, ce_message = qe_message r \<rparr>"

text \<open>The ids of the log grow with the rows and have been drawn from the sequence.\<close>

definition error_ids_ok :: "db \<Rightarrow> bool" where
  "error_ids_ok d \<longleftrightarrow> sorted_wrt (<) (map qe_id (request_errors d)) \<and>
     (\<forall>r\<in>set (request_errors d). 0 < qe_id r \<and> qe_id r \<le> request_errors_id_seq d) \<and> 0 \<le> request_errors_id_seq d"

lemma copy_rows_ids:
  assumes "copy_rows now ps i = (r, j)"
  shows "i \<le> j \<and> (case r of Inl _ \<Rightarrow> True
    | Inr rows \<Rightarrow> sorted_wrt (<) (map qe_id rows) \<and> (\<forall>r\<in>set rows. i < qe_id r \<and> qe_id r \<le> j))"
  using assms
proof (induction ps arbitrary: i r j)
  case (Cons p ps)
  obtain r' j' where rest: "copy_rows now ps (i + 1) = (r', j')" by (cases "copy_rows now ps (i + 1)")
  show ?case
    using Cons.prems Cons.IH [OF rest] rest by (fastforce simp: error_row_def split: if_splits sum.splits)
qed auto

lemma copy_rows_all:
  assumes "list_all copy_text_ok ps" "i + int (length ps) \<le> MaxInt64"
  shows "\<exists>rows. copy_rows now ps i = (Inr rows, i + int (length ps)) \<and> map logged_params rows = ps"
  using assms
proof (induction ps arbitrary: i)
  case (Cons p ps)
  from Cons.prems obtain rows where "copy_rows now ps (i + 1) = (Inr rows, (i + 1) + int (length ps))" "map logged_params rows = ps"
    using Cons.IH [of "i + 1"] by auto
  with Cons.prems show ?case by (auto simp: logged_params_def error_row_def)
qed simp

lemma CopyRequestErrors_ids:
  assumes "error_ids_ok d"
  shows "error_ids_ok (snd (CopyRequestErrors now ps d))"
proof -
  obtain r j where run: "copy_rows now ps (request_errors_id_seq d) = (r, j)" by fastforce
  from copy_rows_ids [OF run] run assms show ?thesis
    by (fastforce simp: CopyRequestErrors_def copy_source_all error_ids_ok_def sorted_wrt_append split: sum.splits)
qed

text \<open>Whatever fails, the ids stay in order.\<close>

interpretation ids: transition_preorder "\<lambda>w w'. error_ids_ok (committed w) \<longrightarrow> error_ids_ok (committed w')"
  by unfold_locales auto

lemma flushErrors_ids:
  "error_ids_ok (committed w) \<Longrightarrow> error_ids_ok (committed (snd (run_state (flushErrors now buffer) w)))"
proof -
  have "state_io_rel (\<lambda>w w'. error_ids_ok (committed w) \<longrightarrow> error_ids_ok (committed w')) (exec_pool (CopyRequestErrors now arg))" for arg
    by (rule state_io_relI) (auto simp: exec_pool_def Let_def CopyRequestErrors_ids split: fault.splits)
  then have "state_io_rel (\<lambda>w w'. error_ids_ok (committed w) \<longrightarrow> error_ids_ok (committed w')) (flushErrors now buffer)"
    by (auto simp: flushErrors_def)
  then show "error_ids_ok (committed w) \<Longrightarrow> error_ids_ok (committed (snd (run_state (flushErrors now buffer) w)))"
    by (auto simp: state_io_rel_def)
qed

lemma flush_ids:
  "error_ids_ok (committed w) \<Longrightarrow> error_ids_ok (committed (snd (run_state (flush order buffer) w)))"
  by (simp add: error_ids_ok_def flush_errors_kept)

lemma runCleanup_ids:
  "error_ids_ok (committed w) \<Longrightarrow> error_ids_ok (committed (snd (run_state (runCleanup pg now) w)))"
proof -
  have 1: "error_ids_ok (snd (DeleteOldErrors pg now d))" if "error_ids_ok d" for d
    using that by (auto simp: DeleteOldErrors_def error_ids_ok_def sorted_wrt_map sorted_wrt_filter)
  have 2: "error_ids_ok (snd (DeleteOldRequestStats pg now d)) = error_ids_ok d" for d
    by (simp add: DeleteOldRequestStats_def error_ids_ok_def)
  have "state_io_rel (\<lambda>w w'. error_ids_ok (committed w) \<longrightarrow> error_ids_ok (committed w')) (exec_pool (DeleteOldErrors pg now))"
    "state_io_rel (\<lambda>w w'. error_ids_ok (committed w) \<longrightarrow> error_ids_ok (committed w')) (exec_pool (DeleteOldRequestStats pg now))"
    by (rule state_io_relI, auto simp: exec_pool_def Let_def 1 2 split: fault.splits)+
  then have "state_io_rel (\<lambda>w w'. error_ids_ok (committed w) \<longrightarrow> error_ids_ok (committed w')) (runCleanup pg now)"
    by (auto simp: runCleanup_def)
  then show "error_ids_ok (committed w) \<Longrightarrow> error_ids_ok (committed (snd (run_state (runCleanup pg now) w)))"
    by (auto simp: state_io_rel_def)
qed

lemma admin_step_ids:
  "admin_step pg order c es c' \<Longrightarrow> error_ids_ok (committed (cf_world c)) \<Longrightarrow> error_ids_ok (committed (cf_world c'))"
proof (induction rule: admin_step.induct)
  case (others c d)
  then show ?case by (simp add: same_request_tables_def error_ids_ok_def)
qed (auto simp: take_metric_def take_error_def receive_metric_def receive_error_def flush_buffer_def flush_errBuffer_def
    flushAll_def cleanup_def Let_def flush_ids flushErrors_ids runCleanup_ids split: list.split)

lemma admin_run_ids:
  "admin_run pg order c evs c' \<Longrightarrow> error_ids_ok (committed (cf_world c)) \<Longrightarrow> error_ids_ok (committed (cf_world c'))"
  by (induction rule: admin_run.induct) (auto dest: admin_step_ids)

text \<open>
  The log with what is on the way to it, on a working connection, with texts that can be stored and
  ids left in the sequence for all of them.
\<close>

definition pending_errors :: "admin_conf \<Rightarrow> CopyRequestErrorsParams list" where
  "pending_errors c = map error_params (cf_errBuffer c @ ad_errorLogs (cf_service c))"

definition ids_needed :: "admin_conf \<Rightarrow> int" where
  "ids_needed c = request_errors_id_seq (committed (cf_world c)) + int (length (pending_errors c))"

definition logging :: "admin_conf \<Rightarrow> bool" where
  "logging c \<longleftrightarrow> faults (cf_world c) = [] \<and> list_all copy_text_ok (pending_errors c)"

definition error_history :: "admin_conf \<Rightarrow> CopyRequestErrorsParams list" where
  "error_history c = map logged_params (request_errors (committed (cf_world c))) @ pending_errors c"

lemmas history_defs = error_history_def pending_errors_def ids_needed_def logging_def

definition same_log :: "admin_conf \<Rightarrow> admin_conf \<Rightarrow> bool" where
  "same_log c c' \<longleftrightarrow> error_history c' = error_history c \<and> ids_needed c' = ids_needed c \<and> logging c'"

lemma same_log_trans: "same_log c c' \<Longrightarrow> same_log c' c'' \<Longrightarrow> same_log c c''"
  by (simp add: same_log_def)

lemma same_log_moves:
  assumes "logging c"
  shows "same_log c (take_metric c)" "same_log c (take_error c)" "same_log c (flush_buffer order c)"
  using assms
  by (auto simp: same_log_def history_defs take_metric_def take_error_def flush_buffer_def flush_errors_kept run_clean(2) split: list.split)

lemma flush_errBuffer_log:
  assumes "logging c" "ids_needed c \<le> MaxInt64"
  shows "same_log c (flush_errBuffer now c)"
proof -
  let ?w = "cf_world c" and ?ps = "map error_params (cf_errBuffer c)"
  have w: "faults ?w = []" "list_all copy_text_ok ?ps" using assms(1) by (auto simp: history_defs)
  obtain rows where rows: "copy_rows now ?ps (request_errors_id_seq (committed ?w)) =
      (Inr rows, request_errors_id_seq (committed ?w) + int (length ?ps))" "map logged_params rows = ?ps"
    using copy_rows_all [OF w(2), of "request_errors_id_seq (committed ?w)" now] assms(2) by (auto simp: history_defs)
  show ?thesis
  proof (cases "cf_errBuffer c = []")
    case False
    have "run_state (flushErrors now (cf_errBuffer c)) ?w = ((), ?w\<lparr>committed := (committed ?w)\<lparr>request_errors := request_errors (committed ?w) @ rows,
        request_errors_id_seq := request_errors_id_seq (committed ?w) + int (length ?ps)\<rparr>\<rparr>)"
      using False w(1) rows(1) by (simp add: flushErrors_def run_simps CopyRequestErrors_def copy_source_all)
    then show ?thesis using assms(1) rows(2) by (simp add: same_log_def flush_errBuffer_def history_defs)
  qed (use assms in \<open>simp add: same_log_def flush_errBuffer_def flushErrors_def history_defs\<close>)
qed

lemma flushAll_log:
  assumes "logging c" "ids_needed c \<le> MaxInt64"
  shows "same_log c (flushAll order now c)"
proof -
  have first: "same_log c (flush_buffer order c)" by (rule same_log_moves(3) [OF assms(1)])
  then have "same_log (flush_buffer order c) (flushAll order now c)"
    unfolding flushAll_def using assms(2) by (intro flush_errBuffer_log) (auto simp: same_log_def)
  with first show ?thesis by (rule same_log_trans)
qed

lemma admin_step_log:
  assumes "admin_step pg order c es c'" "logging c" "ids_needed c \<le> MaxInt64"
    and "list_all copy_text_ok (map error_params (accepted_errors es))" "\<forall>t. CleanedBefore t \<notin> set es"
  shows "error_history c' = error_history c @ map error_params (accepted_errors es) \<and>
    ids_needed c' = ids_needed c + int (length (accepted_errors es)) \<and> logging c'"
proof -
  have moved: ?thesis if "same_log c c'" "accepted_errors es = []" using that by (simp add: same_log_def)
  from assms(1) show ?thesis
  proof (cases rule: admin_step.cases)
    case (send_metric m)
    then show ?thesis using assms(2) by (auto simp: send_metric_def history_defs)
  next
    case (send_error e)
    then show ?thesis using assms(2,4) by (auto simp: send_error_def history_defs)
  next
    case receive_metric
    have "same_log c (receive_metric order c)"
      using same_log_moves [OF assms(2)] same_log_moves(3) [of "take_metric c"] same_log_trans
      by (auto simp: receive_metric_def Let_def same_log_def)
    then show ?thesis using moved receive_metric by simp
  next
    case (receive_error now)
    have "same_log c (receive_error now c)"
      using same_log_moves(2) [OF assms(2)] flush_errBuffer_log [of "take_error c" now] assms(3)
      by (auto simp: receive_error_def Let_def same_log_def)
    then show ?thesis using moved receive_error by simp
  next
    case (tick now)
    then show ?thesis using moved flushAll_log [OF assms(2,3)] by simp
  next
    case (drained now)
    have "same_log c ((flushAll order now c)\<lparr>cf_phase := Stopped\<rparr>)"
      using flushAll_log [OF assms(2,3), of order now] by (simp add: same_log_def history_defs)
    then show ?thesis using moved drained by simp
  next
    case drain_metric
    then show ?thesis using moved same_log_moves [OF assms(2)] by simp
  next
    case drain_error
    then show ?thesis using moved same_log_moves [OF assms(2)] by simp
  next
    case (others d)
    then show ?thesis using assms(2) by (simp add: history_defs same_request_tables_def)
  qed (use assms(2,5) in \<open>auto simp: history_defs\<close>)
qed

lemma admin_run_log:
  assumes "admin_run pg order c evs c'" "logging c" "ids_needed c + int (length (accepted_errors evs)) \<le> MaxInt64"
    and "list_all copy_text_ok (map error_params (accepted_errors evs))" "\<forall>t. CleanedBefore t \<notin> set evs"
  shows "error_history c' = error_history c @ map error_params (accepted_errors evs) \<and>
    ids_needed c' = ids_needed c + int (length (accepted_errors evs)) \<and> logging c'"
  using assms
proof (induction rule: admin_run.induct)
  case (extend c evs c' es c'')
  have "error_history c' = error_history c @ map error_params (accepted_errors evs) \<and>
    ids_needed c' = ids_needed c + int (length (accepted_errors evs)) \<and> logging c'"
    using extend.prems by (intro extend.IH) auto
  then show ?case using admin_step_log [OF extend.hyps(2)] extend.prems by auto
qed simp

end
