(* ===== verification/Go_Time.thy ===== *)
theory Go_Time
  imports Go_Text
begin

text \<open>
  What the history endpoints use of Go's packages \<open>time\<close> and \<open>strconv\<close>: the calendar, the layout
  \<open>RFC3339Nano\<close> in both directions, and \<open>Atoi\<close>. Times are in microseconds from January 1 of
  year 1 in UTC, as in the rest of the model.

  \<open>time.Parse\<close> first tries \<open>parseRFC3339\<close>, which is modelled step by step, and then the parser for
  arbitrary layouts, which is the parameter \<open>general\<close> of \<open>ParseRFC3339Nano\<close>.
\<close>

subsection \<open>The calendar\<close>

definition isLeap :: "int \<Rightarrow> bool" where
  "isLeap y \<longleftrightarrow> y mod 4 = 0 \<and> (y mod 100 \<noteq> 0 \<or> y mod 400 = 0)"

definition year_len :: "int \<Rightarrow> int" where
  "year_len y = (if isLeap y then 366 else 365)"

definition month_lens :: "int \<Rightarrow> int list" where
  "month_lens y = [31, if isLeap y then 29 else 28, 31, 30, 31, 30, 31, 31, 30, 31, 30, 31]"

text \<open>The day on which a year starts, and the day of a date.\<close>

definition year_start :: "int \<Rightarrow> int" where
  "year_start y = 365 * (y - 1) + (y - 1) div 4 - (y - 1) div 100 + (y - 1) div 400"

definition Date :: "int \<Rightarrow> nat \<Rightarrow> int \<Rightarrow> int" where
  "Date y m d = year_start y + sum_list (take (m - 1) (month_lens y)) + (d - 1)"

text \<open>
  The year of a day and the day in that year, by cycles of 400, 100, 4 and 1 years; the last
  cycle of 100 and of 1 years may be one day longer.
\<close>

definition absYear :: "int \<Rightarrow> int \<times> int" where
  "absYear z =
     (let a = z div 146097; r = z mod 146097; b = min 3 (r div 36524); s = r - 36524 * b;
          c = s div 1461; t = s - 1461 * c; n = min 3 (t div 365) in
      (1 + 400 * a + 100 * b + 4 * c + n, t - 365 * n))"

fun month_of :: "int list \<Rightarrow> nat \<Rightarrow> int \<Rightarrow> nat \<times> int" where
  "month_of [] m d = (m, d + 1)"
| "month_of (l # ls) m d = (if d < l then (m, d + 1) else month_of ls (Suc m) (d - l))"

definition absDate :: "int \<Rightarrow> int \<times> nat \<times> int" where
  "absDate z = (case absYear z of (y, d) \<Rightarrow> (y, month_of (month_lens y) 1 d))"

lemma year_start_cycles:
  assumes "0 \<le> b" "b \<le> 3" "0 \<le> c" "c \<le> 24" "0 \<le> n" "n \<le> (3 :: int)"
  shows "year_start (1 + 400 * a + 100 * b + 4 * c + n) = 146097 * a + 36524 * b + 1461 * c + 365 * n"
proof -
  let ?x = "400 * a + 100 * b + 4 * c + n"
  have d4: "?x div 4 = 100 * a + 25 * b + c" by (rule int_div_pos_eq [where r = n]) (use assms in simp_all)
  have d100: "?x div 100 = 4 * a + b" by (rule int_div_pos_eq [where r = "4 * c + n"]) (use assms in simp_all)
  have d400: "?x div 400 = a" by (rule int_div_pos_eq [where r = "100 * b + 4 * c + n"]) (use assms in simp_all)
  have eq: "1 + 400 * a + 100 * b + 4 * c + n - 1 = ?x" by simp
  show ?thesis unfolding year_start_def eq d4 d100 d400 by simp
qed

text \<open>Four cycles of length \<open>k\<close>, the last of which may have one more element.\<close>

lemma four_cycles:
  fixes t k :: int
  assumes "0 \<le> t" "t \<le> 4 * k" "1 < k"
  defines "q \<equiv> min 3 (t div k)"
  shows "0 \<le> q" "q \<le> 3" "0 \<le> t - k * q" "t - k * q \<le> k" "t - k * q = k \<Longrightarrow> q = 3"
proof -
  have t: "t = k * (t div k) + t mod k" "0 \<le> t mod k" "t mod k < k" using assms by simp_all
  have "0 \<le> t div k" using assms by (simp add: pos_imp_zdiv_nonneg_iff)
  moreover have "t div k \<le> 4"
    using zdiv_mono1 [OF assms(2), of k] assms(3) by simp
  ultimately have "t div k = 0 \<or> t div k = 1 \<or> t div k = 2 \<or> t div k = 3 \<or> t div k = 4" by linarith
  then show "0 \<le> q" "q \<le> 3" "0 \<le> t - k * q" "t - k * q \<le> k" "t - k * q = k \<Longrightarrow> q = 3"
    using t assms(2) unfolding q_def by (elim disjE; simp)+
qed

lemma absYear_cycles:
  assumes "absYear z = (y, d)"
  obtains a b c n where "y = 1 + 400 * a + 100 * b + 4 * c + n"
    "z = 146097 * a + 36524 * b + 1461 * c + 365 * n + d" "0 \<le> b" "b \<le> 3" "0 \<le> c" "c \<le> 24" "0 \<le> n" "n \<le> 3"
    "0 \<le> d" "d \<le> 365" "d = 365 \<longrightarrow> n = 3 \<and> (c = 24 \<longrightarrow> b = 3)"
proof -
  define a r where "a = z div 146097" and "r = z mod 146097"
  define b where "b = min 3 (r div 36524)"
  define s where "s = r - 36524 * b"
  define c where "c = s div 1461"
  define t where "t = s - 1461 * c"
  define n where "n = min 3 (t div 365)"
  have z: "z = 146097 * a + r" "0 \<le> r" "r < 146097" by (simp_all add: a_def r_def)
  have b: "0 \<le> b" "b \<le> 3" "0 \<le> s" "s \<le> 36524" "s = 36524 \<Longrightarrow> b = 3"
    using four_cycles [of r 36524] z(2,3) unfolding b_def s_def by simp_all
  have t: "t = s mod 1461" by (simp add: t_def c_def minus_mult_div_eq_mod)
  have c: "0 \<le> c" "c \<le> 24" using zdiv_mono1 [of 0 s 1461] zdiv_mono1 [OF b(4), of 1461] b(3) by (simp_all add: c_def)
  have t': "0 \<le> t" "t \<le> 1460" "s = 1461 * c + t" using t pos_mod_bound [of 1461 s] by (simp_all add: t_def)
  have n: "0 \<le> n" "n \<le> 3" "0 \<le> t - 365 * n" "t - 365 * n \<le> 365" "t - 365 * n = 365 \<Longrightarrow> n = 3"
    using four_cycles [of t 365] t'(1,2) unfolding n_def by simp_all
  have eq: "y = 1 + 400 * a + 100 * b + 4 * c + n" "d = t - 365 * n"
    using assms [unfolded absYear_def Let_def, folded a_def r_def, folded b_def, folded s_def, folded c_def, folded t_def, folded n_def]
    by simp_all
  have "z = 146097 * a + 36524 * b + 1461 * c + 365 * n + d" using z(1) t'(3) s_def eq(2) by linarith
  moreover have "n = 3 \<and> (c = 24 \<longrightarrow> b = 3)" if "d = 365"
  proof
    show "n = 3" using n(5) that eq(2) by simp
    then show "c = 24 \<longrightarrow> b = 3" using that eq(2) t'(3) b(5) by linarith
  qed
  ultimately show thesis
    using that [OF eq(1) _ b(1,2) c n(1,2)] n(3,4) eq(2) by blast
qed

lemma absYear_start:
  assumes "absYear z = (y, d)"
  shows "z = year_start y + d" "0 \<le> d" "d < year_len y"
proof -
  obtain a b c n where y: "y = 1 + 400 * a + 100 * b + 4 * c + n" and z: "z = 146097 * a + 36524 * b + 1461 * c + 365 * n + d"
    and r: "0 \<le> b" "b \<le> 3" "0 \<le> c" "c \<le> 24" "0 \<le> n" "n \<le> 3" and d: "0 \<le> d" "d \<le> 365" "d = 365 \<longrightarrow> n = 3 \<and> (c = 24 \<longrightarrow> b = 3)"
    using assms by (rule absYear_cycles)
  show "z = year_start y + d" unfolding y year_start_cycles [OF r] using z by simp
  show "0 \<le> d" by fact
  show "d < year_len y"
  proof (cases "d = 365")
    case True
    with d(3) have n: "n = 3" "c = 24 \<Longrightarrow> b = 3" by auto
    have "y = 4 * (100 * a + 25 * b + c + 1)" using y n(1) by simp
    then have "y mod 4 = 0" by simp
    moreover have "y mod 100 \<noteq> 0 \<or> y mod 400 = 0"
    proof (cases "c = 24")
      case True
      then have "y = 400 * (a + 1)" using y n by simp
      then show ?thesis by simp
    next
      case False
      have "y mod 100 = 4 * c + 4" by (rule int_mod_pos_eq [where q = "4 * a + b"]) (use False y n(1) r in simp_all)
      then show ?thesis using r(3) by simp
    qed
    ultimately show ?thesis using True by (simp add: year_len_def isLeap_def)
  next
    case False
    with d(2) show ?thesis by (simp add: year_len_def)
  qed
qed

lemma month_of_sum:
  assumes "month_of ls m d = (k, x)" "0 \<le> d" "d < sum_list ls"
  shows "m \<le> k \<and> k < m + length ls \<and> 1 \<le> x \<and> x \<le> ls ! (k - m) \<and> d = sum_list (take (k - m) ls) + (x - 1)"
  using assms
proof (induction ls m d rule: month_of.induct)
  case (2 l ls m d)
  show ?case
  proof (cases "d < l")
    case False
    with 2 have "Suc m \<le> k \<and> k < Suc m + length ls \<and> 1 \<le> x \<and> x \<le> ls ! (k - Suc m) \<and> d - l = sum_list (take (k - Suc m) ls) + (x - 1)"
      by auto
    moreover from this have "k - m = Suc (k - Suc m)" by auto
    ultimately show ?thesis by simp
  qed (use 2 in auto)
qed simp

lemma sum_month_lens: "sum_list (month_lens y) = year_len y"
  by (simp add: month_lens_def year_len_def)

lemma Date_absDate:
  assumes "absDate z = (y, m, d)"
  shows "Date y m d = z" "1 \<le> m" "m \<le> 12" "1 \<le> d" "d \<le> month_lens y ! (m - 1)"
proof -
  obtain x where x: "absYear z = (y, x)" "month_of (month_lens y) 1 x = (m, d)" using assms by (auto simp: absDate_def split: prod.splits)
  note start = absYear_start [OF x(1)]
  from month_of_sum [OF x(2)] start(2,3) sum_month_lens
  have "1 \<le> m \<and> m < 1 + length (month_lens y) \<and> 1 \<le> d \<and> d \<le> month_lens y ! (m - 1) \<and> x = sum_list (take (m - 1) (month_lens y)) + (d - 1)"
    by simp
  with start(1) show "Date y m d = z" "1 \<le> m" "m \<le> 12" "1 \<le> d" "d \<le> month_lens y ! (m - 1)"
    by (auto simp: Date_def month_lens_def)
qed

lemma month_len_le: "1 \<le> m \<Longrightarrow> m \<le> 12 \<Longrightarrow> month_lens y ! (m - 1) \<le> 31"
proof -
  assume "1 \<le> m" "m \<le> 12"
  then have "month_lens y ! (m - 1) \<in> set (month_lens y)" by (intro nth_mem) (simp add: month_lens_def)
  then show ?thesis by (auto simp: month_lens_def split: if_splits)
qed

text \<open>The years from 0 to 9999 are exactly those whose times can be written as JSON.\<close>

lemma absYear_range:
  assumes "absYear z = (y, d)" "- 366 \<le> z" "z < 3652059"
  shows "0 \<le> y" "y \<le> 9999"
proof -
  obtain a b c n where y: "y = 1 + 400 * a + 100 * b + 4 * c + n" and z: "z = 146097 * a + 36524 * b + 1461 * c + 365 * n + d"
    and r: "0 \<le> b" "b \<le> 3" "0 \<le> c" "c \<le> 24" "0 \<le> n" "n \<le> 3" and d: "0 \<le> d" "d \<le> 365" "d = 365 \<longrightarrow> n = 3 \<and> (c = 24 \<longrightarrow> b = 3)"
    using assms(1) by (rule absYear_cycles)
  show "0 \<le> y"
  proof (rule ccontr)
    assume "\<not> 0 \<le> y"
    then have neg: "400 * a + 100 * b + 4 * c + n \<le> - 2" using y by simp
    then have a: "a \<le> - 1" using r by linarith
    have d': "n \<noteq> 3 \<Longrightarrow> d \<le> 364" using d by auto
    show False
    proof (cases "a = - 1 \<and> b = 3 \<and> c = 24")
      case True
      then have "n \<le> 2" using neg by linarith
      then show False using True z d' assms(2) by auto
    next
      case False
      then have "a \<le> - 2 \<or> b \<le> 2 \<or> c \<le> 23" using a r by linarith
      then show False using z d r a assms(2) by (elim disjE) linarith+
    qed
  qed
  show "y \<le> 9999"
  proof (rule ccontr)
    assume "\<not> y \<le> 9999"
    then have *: "9999 \<le> 400 * a + 100 * b + 4 * c + n" using y by simp
    then have "24 \<le> a" "a = 24 \<Longrightarrow> b = 3" "a = 24 \<Longrightarrow> c = 24" "a = 24 \<Longrightarrow> n = 3" using r by linarith+
    then show False using z d r assms(3) by (cases "a = 24") auto
  qed
qed

subsection \<open>Numbers of a fixed width\<close>

definition digit_char :: "int \<Rightarrow> char" where
  "digit_char d = char_of (48 + d)"

fun pad :: "nat \<Rightarrow> int \<Rightarrow> string" where
  "pad 0 n = []"
| "pad (Suc w) n = pad w (n div 10) @ [digit_char (n mod 10)]"

lemma of_digit_char:
  assumes "0 \<le> d" "d < 10"
  shows "of_char (digit_char d) = 48 + d" "is_digit (digit_char d)"
proof -
  show v: "of_char (digit_char d) = 48 + d" using assms by (simp add: digit_char_def)
  have "d = 0 \<or> d = 1 \<or> d = 2 \<or> d = 3 \<or> d = 4 \<or> d = 5 \<or> d = 6 \<or> d = 7 \<or> d = 8 \<or> d = 9" using assms by presburger
  then show "is_digit (digit_char d)" by (elim disjE; simp only:; code_simp)
qed

lemma length_pad [simp]: "length (pad w n) = w"
  by (induction w n rule: pad.induct) simp_all

lemma pad_digits: "list_all is_digit (pad w n)"
  by (induction w n rule: pad.induct) (simp_all add: of_digit_char)

lemma digits_value_snoc: "digits_value (ds @ [c]) = 10 * digits_value ds + (of_char c - 48)"
  by (simp add: digits_value_def)

lemma digits_value_pad: "digits_value (pad w n) = n mod 10 ^ w"
proof (induction w n rule: pad.induct)
  case (2 w n)
  have "digits_value (pad (Suc w) n) = 10 * (n div 10 mod 10 ^ w) + n mod 10"
    using 2 of_digit_char [of "n mod 10"] by (simp add: digits_value_snoc)
  then show ?case by (simp add: zmod_zmult2_eq)
qed (simp add: digits_value_def)

text \<open>\<open>appendInt\<close>: a minus sign for a negative number, then at least \<open>w\<close> digits.\<close>

function digit_count :: "int \<Rightarrow> nat" where
  "digit_count n = (if n < 10 then 1 else Suc (digit_count (n div 10)))"
  by pat_completeness auto

termination
  by (relation "measure nat") auto

declare digit_count.simps [simp del]

definition appendInt :: "nat \<Rightarrow> int \<Rightarrow> string" where
  "appendInt w x = (if x < 0 then ''-'' else []) @ pad (max w (digit_count \<bar>x\<bar>)) \<bar>x\<bar>"

lemma digit_count_le: "n < 10 ^ w \<Longrightarrow> 0 < w \<Longrightarrow> digit_count n \<le> w"
proof (induction n arbitrary: w rule: digit_count.induct)
  case (1 n)
  show ?case
  proof (cases "n < 10")
    case True
    then show ?thesis using 1(3) by (simp add: digit_count.simps)
  next
    case False
    with 1(2,3) obtain v where w: "w = Suc v" "0 < v"
      by (cases w; cases "w - 1") auto
    then have "n div 10 < 10 ^ v" using 1(2) by simp
    with 1(1) [OF False, of v] w False show ?thesis by (simp add: digit_count.simps)
  qed
qed

lemma appendInt_pad: "0 \<le> n \<Longrightarrow> n < 10 ^ w \<Longrightarrow> 0 < w \<Longrightarrow> appendInt w n = pad w n"
  using digit_count_le [of n w] by (simp add: appendInt_def max_def)


subsection \<open>The layout RFC3339Nano\<close>

definition Day :: duration where
  "Day = 24 * Hour"

definition fraction :: "int \<Rightarrow> string" where
  "fraction us = (if us = 0 then [] else CHR ''.'' # rev (dropWhile (\<lambda>c. c = CHR ''0'') (rev (pad 6 us))))"

definition FormatRFC3339Nano :: "time \<Rightarrow> string" where
  "FormatRFC3339Nano t =
     (let (y, m, d) = absDate (t div Day); sec = (t mod Day) div Second in
      appendInt 4 y @ ''-'' @ appendInt 2 (int m) @ ''-'' @ appendInt 2 d @ ''T'' @
      appendInt 2 (sec div 3600) @ '':'' @ appendInt 2 (sec mod 3600 div 60) @ '':'' @ appendInt 2 (sec mod 60) @
      fraction (t mod Second) @ ''Z'')"

definition parseUint :: "string \<Rightarrow> int \<Rightarrow> int \<Rightarrow> int option" where
  "parseUint s lo hi =
     (if list_all is_digit s \<and> lo \<le> digits_value s \<and> digits_value s \<le> hi then Some (digits_value s) else None)"

text \<open>A fraction of the second, as far as it counts in microseconds, and the rest of the text.\<close>

definition parseFraction :: "string \<Rightarrow> int \<times> string" where
  "parseFraction s =
     (if 2 \<le> length s \<and> s ! 0 = CHR ''.'' \<and> is_digit (s ! 1)
      then (digits_value (take 6 (takeWhile is_digit (tl s) @ ''000000'')), dropWhile is_digit (tl s))
      else (0, s))"

text \<open>The offset of the zone, in seconds.\<close>

definition parseZone :: "string \<Rightarrow> int option" where
  "parseZone s =
     (if s = ''Z'' then Some 0
      else if length s \<noteq> 6 then None
      else case parseUint (take 2 (drop 1 s)) 0 23 of None \<Rightarrow> None | Some hr \<Rightarrow>
           case parseUint (take 2 (drop 4 s)) 0 59 of None \<Rightarrow> None | Some mm \<Rightarrow>
           if (s ! 0 = CHR ''-'' \<or> s ! 0 = CHR ''+'') \<and> s ! 3 = CHR '':''
           then Some ((if s ! 0 = CHR ''-'' then - 1 else 1) * (hr * 60 + mm) * 60)
           else None)"

definition parseRFC3339 :: "string \<Rightarrow> time option" where
  "parseRFC3339 s =
     (if length s < 19 then None
      else case parseUint (take 4 s) 0 9999 of None \<Rightarrow> None | Some year \<Rightarrow>
           case parseUint (take 2 (drop 5 s)) 1 12 of None \<Rightarrow> None | Some month \<Rightarrow>
           case parseUint (take 2 (drop 8 s)) 1 (month_lens year ! (nat month - 1)) of None \<Rightarrow> None | Some day \<Rightarrow>
           case parseUint (take 2 (drop 11 s)) 0 23 of None \<Rightarrow> None | Some hour \<Rightarrow>
           case parseUint (take 2 (drop 14 s)) 0 59 of None \<Rightarrow> None | Some minute \<Rightarrow>
           case parseUint (take 2 (drop 17 s)) 0 59 of None \<Rightarrow> None | Some second \<Rightarrow>
           if \<not> (s ! 4 = CHR ''-'' \<and> s ! 7 = CHR ''-'' \<and> s ! 10 = CHR ''T'' \<and> s ! 13 = CHR '':'' \<and> s ! 16 = CHR '':'') then None
           else case parseFraction (drop 19 s) of (us, zone) \<Rightarrow>
           case parseZone zone of None \<Rightarrow> None | Some offset \<Rightarrow>
           Some (Date year (nat month) day * Day + (hour * 3600 + minute * 60 + second - offset) * Second + us))"

definition ParseRFC3339Nano :: "(string \<Rightarrow> time option) \<Rightarrow> string \<Rightarrow> time option" where
  "ParseRFC3339Nano general s = (case parseRFC3339 s of Some t \<Rightarrow> Some t | None \<Rightarrow> general s)"

lemma parseUint_pad:
  assumes "lo \<le> n" "n \<le> hi" "0 \<le> n" "n < 10 ^ w"
  shows "parseUint (pad w n) lo hi = Some n"
  using assms by (simp add: parseUint_def pad_digits digits_value_pad)

lemma parse_layout:
  assumes "length yy = 4" "length mm = 2" "length dd = 2" "length hh = 2" "length ii = 2" "length ss = 2"
    and "parseUint yy 0 9999 = Some y" "parseUint mm 1 12 = Some m" "parseUint dd 1 (month_lens y ! (nat m - 1)) = Some d"
      "parseUint hh 0 23 = Some h" "parseUint ii 0 59 = Some i" "parseUint ss 0 59 = Some s"
      "parseFraction rest = (us, ''Z'')"
  shows "parseRFC3339 (yy @ ''-'' @ mm @ ''-'' @ dd @ ''T'' @ hh @ '':'' @ ii @ '':'' @ ss @ rest) =
    Some (Date y (nat m) d * Day + (h * 3600 + i * 60 + s) * Second + us)"
  using assms by (simp add: parseRFC3339_def parseZone_def nth_append)

lemma trimmed_zeros:
  assumes "ds = rev (dropWhile (\<lambda>c. c = CHR ''0'') (rev xs))"
  shows "take (length xs) (ds @ replicate (length xs) CHR ''0'') = xs"
proof -
  let ?n = "length (takeWhile (\<lambda>c. c = CHR ''0'') (rev xs))"
  have "takeWhile (\<lambda>c. c = CHR ''0'') (rev xs) = replicate ?n CHR ''0''"
    by (rule replicate_eqI) (auto dest: set_takeWhileD)
  then have xs: "xs = ds @ replicate ?n CHR ''0''"
    unfolding assms by (metis rev_append rev_replicate rev_rev_ident takeWhile_dropWhile_id)
  then have "length xs = length ds + ?n" by (metis length_append length_replicate)
  then show ?thesis by (subst (3) xs) simp
qed

lemma parseFraction_fraction:
  assumes "0 \<le> us" "us < Second"
  shows "parseFraction (fraction us @ ''Z'') = (us, ''Z'')"
proof (cases "us = 0")
  case True
  then show ?thesis by (simp add: fraction_def parseFraction_def)
next
  case False
  define ds where "ds = rev (dropWhile (\<lambda>c. c = CHR ''0'') (rev (pad 6 us)))"
  have shape: "fraction us = CHR ''.'' # ds" using False by (simp add: fraction_def ds_def)
  have zeros: "replicate 6 CHR ''0'' = ''000000''" by (simp add: numeral_eq_Suc)
  have val: "digits_value (take 6 (ds @ replicate 6 CHR ''0'')) = us"
    using trimmed_zeros [OF ds_def] assms by (simp add: digits_value_pad Second_def)
  have digits: "list_all is_digit ds"
    using pad_digits [of 6 us] by (auto simp: list_all_iff ds_def dest: set_dropWhileD)
  have "ds \<noteq> []"
  proof
    assume "ds = []"
    with val have "us = digits_value (replicate 6 CHR ''0'')" by simp
    also have "\<dots> = 0" by code_simp
    finally show False using False by simp
  qed
  then obtain c cs where ds: "ds = c # cs" by (cases ds) auto
  have "\<not> is_digit CHR ''Z''" by code_simp
  with digits have "takeWhile is_digit (ds @ ''Z'') = ds" "dropWhile is_digit (ds @ ''Z'') = ''Z''"
    by (simp_all add: takeWhile_append dropWhile_append list_all_iff)
  moreover have "is_digit c" using digits ds by simp
  ultimately show ?thesis
    using val [unfolded zeros] ds by (simp add: shape parseFraction_def)
qed

lemma int_div_less: "0 < k \<Longrightarrow> t < n * k \<Longrightarrow> t div k < (n :: int)"
proof (rule ccontr)
  assume k: "0 < k" "t < n * k" "\<not> t div k < n"
  then have "n * k \<le> t div k * k" by (intro mult_right_mono) simp_all
  also have "\<dots> \<le> t" using k(1) by (metis div_mult_mod_eq le_add_same_cancel1 pos_mod_sign)
  finally show False using k(2) by simp
qed

text \<open>A time that is written can be read again, in the years 0 to 9999.\<close>

lemma parse_format:
  assumes "- (366 * Day) \<le> t" "t < 3652059 * Day"
  shows "parseRFC3339 (FormatRFC3339Nano t) = Some t"
proof -
  obtain y m d where date: "absDate (t div Day) = (y, m, d)" by (metis prod_cases3)
  note D = Date_absDate [OF date]
  have day: "0 < Day" "(0::int) < Second" "Day = 86400 * Second" by (simp_all add: Day_def Hour_def Second_def)
  have "- 366 = (- (366 * Day)) div Day" by (simp add: Day_def Hour_def Second_def)
  also have "\<dots> \<le> t div Day" by (rule zdiv_mono1 [OF assms(1) day(1)])
  finally have "- 366 \<le> t div Day" .
  moreover have "t div Day < 3652059" by (rule int_div_less [OF day(1) assms(2)])
  ultimately have y: "0 \<le> y" "y \<le> 9999" using date absYear_range by (auto simp: absDate_def split: prod.splits)
  define us where "us = t mod Day"
  define sec where "sec = us div Second"
  have us: "0 \<le> us" "us < 86400 * Second" using day by (simp_all add: us_def)
  then have sec: "0 \<le> sec" "sec < 86400" using day(2) int_div_less [OF day(2), of us 86400] by (simp_all add: sec_def pos_imp_zdiv_nonneg_iff)
  have frac: "t mod Second = us mod Second" unfolding us_def day(3) by (simp add: mod_mod_cancel)
  define hh where "hh = sec div 3600"
  define ii where "ii = sec mod 3600 div 60"
  define ss where "ss = sec mod 60"
  have h: "0 \<le> hh" "hh \<le> 23" "0 \<le> ii" "ii \<le> 59" "0 \<le> ss" "ss \<le> 59" using sec by (auto simp: hh_def ii_def ss_def)
  have sum_sec: "hh * 3600 + ii * 60 + ss = sec"
  proof -
    have "sec mod 3600 mod 60 = sec mod 60" by (rule mod_mod_cancel) simp
    with div_mult_mod_eq [of "sec mod 3600" 60] div_mult_mod_eq [of sec 3600] show ?thesis unfolding hh_def ii_def ss_def by linarith
  qed
  have d: "1 \<le> d" "d \<le> 31" "1 \<le> m" "m \<le> 12" using D month_len_le [of m y] by auto
  have pads: "appendInt 4 y = pad 4 y" "appendInt 2 (int m) = pad 2 (int m)" "appendInt 2 d = pad 2 d"
    "appendInt 2 hh = pad 2 hh" "appendInt 2 ii = pad 2 ii" "appendInt 2 ss = pad 2 ss"
    using y d h by (simp_all add: appendInt_pad)
  have uints: "parseUint (pad 4 y) 0 9999 = Some y" "parseUint (pad 2 (int m)) 1 12 = Some (int m)"
    "parseUint (pad 2 d) 1 (month_lens y ! (nat (int m) - 1)) = Some d" "parseUint (pad 2 hh) 0 23 = Some hh"
    "parseUint (pad 2 ii) 0 59 = Some ii" "parseUint (pad 2 ss) 0 59 = Some ss"
    by (rule parseUint_pad; use y d h D(5) in simp)+
  have "parseRFC3339 (FormatRFC3339Nano t) = Some (Date y (nat (int m)) d * Day + (hh * 3600 + ii * 60 + ss) * Second + us mod Second)"
    unfolding FormatRFC3339Nano_def date prod.case Let_def us_def [symmetric] sec_def [symmetric] hh_def [symmetric] ii_def [symmetric]
      ss_def [symmetric] pads frac
    by (rule parse_layout [OF length_pad length_pad length_pad length_pad length_pad length_pad uints parseFraction_fraction])
      (use day(2) in simp_all)
  moreover have "sec * Second + us mod Second = us" by (simp add: sec_def)
  moreover have "t div Day * Day + us = t" by (simp add: us_def)
  ultimately show ?thesis using D(1) sum_sec by simp
qed


subsection \<open>strconv.Atoi\<close>

definition Atoi :: "string \<Rightarrow> int option" where
  "Atoi s =
     (let neg = (s \<noteq> [] \<and> hd s = CHR ''-''); ds = (if s \<noteq> [] \<and> (hd s = CHR ''-'' \<or> hd s = CHR ''+'') then tl s else s);
          n = (if neg then - digits_value ds else digits_value ds) in
      if ds = [] \<or> \<not> list_all is_digit ds \<or> n < - (2 ^ 63) \<or> 2 ^ 63 \<le> n then None else Some n)"

end
