(* ===== verification/History.thy ===== *)
theory History
  imports Sync_Bootstrap Go_Time
begin

text \<open>
  \<open>internal/httpapi/history_handler.go\<close> and its two queries: the sessions of a user and the solves
  of a session, newest first, in pages that are continued by an opaque text cursor.

  The text form of UUIDs and the general layout parser behind \<open>time.Parse\<close> are the fields of
  \<open>cursor_lib\<close>. A reply carries the status and the body; the encoding of the body is not modelled.
\<close>

datatype 'a reply = Reply (reply_status: int) 'a | NoBody (reply_status: int) | ErrorReply (reply_status: int) (reply_code: string) (reply_message: string)

record cursor_lib =
  cu_general :: "string \<Rightarrow> time option"
  cu_uuid_string :: "uuid \<Rightarrow> string"
  cu_uuid_parse :: "string \<Rightarrow> uuid option"

definition uuids_ok :: "cursor_lib \<Rightarrow> bool" where
  "uuids_ok lib \<longleftrightarrow> (\<forall>u. cu_uuid_parse lib (cu_uuid_string lib u) = Some u)"


subsection \<open>Parameters and cursors\<close>

definition defaultHistoryLimit :: int where "defaultHistoryLimit = 50"
definition maxHistoryLimit :: int where "maxHistoryLimit = 200"

text \<open>\<open>raw\<close> is the query parameter, empty when it is missing.\<close>

definition parseLimit :: "string \<Rightarrow> int \<Rightarrow> int \<Rightarrow> int" where
  "parseLimit raw def maximum =
     (if raw = [] then def
      else case Atoi raw of
        None \<Rightarrow> def
      | Some n \<Rightarrow> if n \<le> 0 then def else if maximum < n then maximum else n)"

text \<open>\<open>strings.SplitN(raw, ",", 2)\<close>\<close>

definition SplitN2 :: "char \<Rightarrow> string \<Rightarrow> string list" where
  "SplitN2 sep s =
     (if sep \<in> set s then [takeWhile (\<lambda>c. c \<noteq> sep) s, tl (dropWhile (\<lambda>c. c \<noteq> sep) s)] else [s])"

definition uuid_Max :: uuid where
  "uuid_Max = - 1"

definition far_future :: time where
  "far_future = Date 9999 12 31 * Day + (23 * 3600 + 59 * 60 + 59) * Second"

definition parseCursor :: "cursor_lib \<Rightarrow> string \<Rightarrow> (time \<times> uuid) option" where
  "parseCursor lib raw =
     (if raw = [] then Some (far_future, uuid_Max)
      else let parts = SplitN2 CHR '','' raw in
      if length parts \<noteq> 2 then None
      else case ParseRFC3339Nano (cu_general lib) (parts ! 0) of
        None \<Rightarrow> None
      | Some ts \<Rightarrow> (case cu_uuid_parse lib (parts ! 1) of None \<Rightarrow> None | Some i \<Rightarrow> Some (ts, i)))"

definition encodeCursor :: "cursor_lib \<Rightarrow> time \<Rightarrow> uuid \<Rightarrow> string" where
  "encodeCursor lib ts i = FormatRFC3339Nano ts @ '','' @ cu_uuid_string lib i"


subsection \<open>The queries\<close>

definition before_pos :: "time \<Rightarrow> uuid \<Rightarrow> time \<Rightarrow> uuid \<Rightarrow> bool" where
  "before_pos ts i before_ts before_id \<longleftrightarrow> ts < before_ts \<or> ts = before_ts \<and> i < before_id"

record ListSessionsPaginatedRow =
  lr_session :: CubeSession
  lr_solve_count :: int

definition solve_count :: "db \<Rightarrow> CubeSession \<Rightarrow> int" where
  "solve_count d r = int (length (filter (\<lambda>x. sf_user_id x = cs_user_id r \<and> sf_session_id x = Some (cs_id r) \<and> sf_deleted_at x = None) (solves d)))"

definition ListSessionsPaginated :: "uuid \<Rightarrow> time \<Rightarrow> uuid \<Rightarrow> int \<Rightarrow> ListSessionsPaginatedRow list stmt" where
  "ListSessionsPaginated user_id before_ts before_id lim d =
     (if lim < 0 then (Inl NegativeLimit, d)
      else (Inr (map (\<lambda>r. \<lparr> lr_session = r, lr_solve_count = solve_count d r \<rparr>)
             (take (nat lim) (rev (sort_key (\<lambda>r. LexPair (cs_started_at r) (cs_id r))
               (filter (\<lambda>r. cs_user_id r = user_id \<and> cs_deleted_at r = None \<and>
                  before_pos (cs_started_at r) (cs_id r) before_ts before_id) (cube_sessions d)))))), d))"

definition ListSolvesForSessionPaginated :: "uuid \<Rightarrow> uuid \<Rightarrow> time \<Rightarrow> uuid \<Rightarrow> int \<Rightarrow> Solf list stmt" where
  "ListSolvesForSessionPaginated user_id session_id before_ts before_id lim d =
     (if lim < 0 then (Inl NegativeLimit, d)
      else (Inr (take (nat lim) (rev (sort_key (\<lambda>r. LexPair (sf_solved_at r) (sf_id r))
               (filter (\<lambda>r. sf_user_id r = user_id \<and> sf_session_id r = Some session_id \<and> sf_deleted_at r = None \<and>
                  before_pos (sf_solved_at r) (sf_id r) before_ts before_id) (solves d))))), d))"


subsection \<open>The handlers\<close>

record SessionSummary =
  ss_session :: Session
  ss_solve_count :: int

record PaginatedSessionsResponse =
  ps_sessions :: "SessionSummary list"
  ps_next_cursor :: string
  ps_has_more :: bool

record PaginatedSolvesResponse =
  pl_solves :: "Solve list"
  pl_next_cursor :: string
  pl_has_more :: bool

definition invalid_cursor :: "'a reply" where
  "invalid_cursor = ErrorReply 400 ''invalid_cursor'' ''cursor must be a timestamp,uuid pair''"

text \<open>The cursor after the loop over the rows: that of the last one, if there are more.\<close>

definition next_cursor :: "cursor_lib \<Rightarrow> ('r \<Rightarrow> time) \<Rightarrow> ('r \<Rightarrow> uuid) \<Rightarrow> 'r list \<Rightarrow> bool \<Rightarrow> string" where
  "next_cursor lib ts i rows hasMore =
     (if hasMore then foldl (\<lambda>_ r. encodeCursor lib (ts r) (i r)) [] rows else [])"

definition listSessions :: "cursor_lib \<Rightarrow> uuid \<Rightarrow> string \<Rightarrow> string \<Rightarrow> (world, PaginatedSessionsResponse reply) state" where
  "listSessions lib userID limit_param cursor_param = (
     let limit = parseLimit limit_param defaultHistoryLimit maxHistoryLimit in
     case parseCursor lib cursor_param of
       None \<Rightarrow> State_Monad.return invalid_cursor
     | Some (beforeTs, beforeID) \<Rightarrow> do {
         got \<leftarrow> exec_pool (ListSessionsPaginated userID beforeTs beforeID (int32 (limit + 1)));
         case got of
           Inl _ \<Rightarrow> State_Monad.return (ErrorReply 500 ''internal_error'' ''could not list sessions'')
         | Inr fetched \<Rightarrow>
             let hasMore = (limit < int (length fetched));
                 rows = (if hasMore then take (nat limit) fetched else fetched) in
             State_Monad.return (Reply 200
               \<lparr> ps_sessions = map (\<lambda>row. \<lparr> ss_session = sessionFromDB (lr_session row), ss_solve_count = lr_solve_count row \<rparr>) rows,
                 ps_next_cursor = next_cursor lib (cs_started_at \<circ> lr_session) (cs_id \<circ> lr_session) rows hasMore,
                 ps_has_more = hasMore \<rparr>)
       })"

definition listSessionSolves ::
  "cursor_lib \<Rightarrow> uuid \<Rightarrow> string \<Rightarrow> string \<Rightarrow> string \<Rightarrow> (world, PaginatedSolvesResponse reply) state" where
  "listSessionSolves lib userID id_param limit_param cursor_param =
     (case cu_uuid_parse lib id_param of
        None \<Rightarrow> State_Monad.return (ErrorReply 400 ''invalid_session_id'' ''session id must be a valid UUID'')
      | Some sessionID \<Rightarrow>
          let limit = parseLimit limit_param defaultHistoryLimit maxHistoryLimit in
          case parseCursor lib cursor_param of
            None \<Rightarrow> State_Monad.return invalid_cursor
          | Some (beforeTs, beforeID) \<Rightarrow> do {
              got \<leftarrow> exec_pool (ListSolvesForSessionPaginated userID sessionID beforeTs beforeID (int32 (limit + 1)));
              case got of
                Inl _ \<Rightarrow> State_Monad.return (ErrorReply 500 ''internal_error'' ''could not list solves'')
              | Inr fetched \<Rightarrow>
                  let hasMore = (limit < int (length fetched));
                      rows = (if hasMore then take (nat limit) fetched else fetched) in
                  State_Monad.return (Reply 200
                    \<lparr> pl_solves = map solveFromDB rows,
                      pl_next_cursor = next_cursor lib sf_solved_at sf_id rows hasMore,
                      pl_has_more = hasMore \<rparr>)
            })"

end
