(* ===== verification/Admin_Handlers.thy ===== *)
theory Admin_Handlers
  imports Admin_Service History
begin

text \<open>
  \<open>internal/httpapi/admin_handlers.go\<close>: the handlers of the operators. Query parameters are texts, empty when
  they are missing. \<open>strconv.ParseInt\<close> with base 10 and 64 bits accepts what \<open>Atoi\<close> does, and \<open>time.Parse\<close> treats the
  layout \<open>RFC3339\<close> as it does \<open>RFC3339Nano\<close>.
\<close>

definition writeAdminError :: "error \<Rightarrow> 'a reply" where
  "writeAdminError err =
     (case err of
        AdminError code message \<Rightarrow> ErrorReply 400 code message
      | _ \<Rightarrow> ErrorReply 500 ''internal_error'' ''request could not be completed'')"

definition parseOptionalTime :: "cursor_lib \<Rightarrow> string \<Rightarrow> string \<Rightarrow> 'a reply + time" where
  "parseOptionalTime lib v name =
     (if v = [] then Inr 0
      else case ParseRFC3339Nano (cu_general lib) v of
        None \<Rightarrow> Inl (ErrorReply 400 ''invalid_range'' (name @ '' must be an RFC3339 timestamp''))
      | Some t \<Rightarrow> Inr t)"

definition parseStatsRange :: "cursor_lib \<Rightarrow> string \<Rightarrow> string \<Rightarrow> string \<Rightarrow> 'a reply + QueryRange" where
  "parseStatsRange lib from_param to_param interval =
     (case parseOptionalTime lib from_param ''from'' of
        Inl r \<Rightarrow> Inl r
      | Inr from_time \<Rightarrow>
          (case parseOptionalTime lib to_param ''to'' of
             Inl r \<Rightarrow> Inl r
           | Inr to_time \<Rightarrow> Inr \<lparr> qr_from = from_time, qr_to = to_time, qr_interval = interval \<rparr>))"

definition adminOverview :: "pg_session \<Rightarrow> time \<Rightarrow> (world, OverviewStats reply) state" where
  "adminOverview pg pg_now = do {
     r \<leftarrow> Overview pg pg_now;
     State_Monad.return (case r of
         Inl _ \<Rightarrow> ErrorReply 500 ''internal_error'' ''request could not be completed''
       | Inr overview \<Rightarrow> Reply 200 overview)
   }"

definition adminRequestStats ::
  "pg_session \<Rightarrow> 'f go_float \<Rightarrow> cursor_lib \<Rightarrow> (string \<Rightarrow> string) \<Rightarrow> time \<Rightarrow> string \<Rightarrow> string \<Rightarrow> string \<Rightarrow>
   (world, 'f RequestSeries reply) state" where
  "adminRequestStats pg fl lib ul now from_param to_param interval =
     (case parseStatsRange lib from_param to_param interval of
        Inl r \<Rightarrow> State_Monad.return r
      | Inr query \<Rightarrow> do {
          r \<leftarrow> RequestStats pg fl ul now query;
          State_Monad.return (case r of Inl err \<Rightarrow> writeAdminError err | Inr series \<Rightarrow> Reply 200 series)
        })"

definition adminRequestTypeStats ::
  "pg_session \<Rightarrow> cursor_lib \<Rightarrow> (string \<Rightarrow> string) \<Rightarrow> time \<Rightarrow> string \<Rightarrow> string \<Rightarrow> string \<Rightarrow> (world, RequestTypeSeries reply) state" where
  "adminRequestTypeStats pg lib ul now from_param to_param interval =
     (case parseStatsRange lib from_param to_param interval of
        Inl r \<Rightarrow> State_Monad.return r
      | Inr query \<Rightarrow> do {
          r \<leftarrow> RequestTypeStats pg ul now query;
          State_Monad.return (case r of Inl err \<Rightarrow> writeAdminError err | Inr series \<Rightarrow> Reply 200 series)
        })"

definition parseBefore :: "cursor_lib \<Rightarrow> string \<Rightarrow> time option" where
  "parseBefore lib before_param = (if before_param = [] then Some 0 else ParseRFC3339Nano (cu_general lib) before_param)"

definition parseBeforeID :: "string \<Rightarrow> int option" where
  "parseBeforeID before_id_param = (if before_id_param = [] then Some 0 else Atoi before_id_param)"

definition parseErrorLimit :: "string \<Rightarrow> int option" where
  "parseErrorLimit limit_param =
     (if limit_param = [] then Some 50
      else case Atoi limit_param of None \<Rightarrow> None | Some n \<Rightarrow> if n < 1 \<or> 100 < n then None else Some n)"

definition adminErrorStats ::
  "cursor_lib \<Rightarrow> time \<Rightarrow> string \<Rightarrow> string \<Rightarrow> string \<Rightarrow> (world, ErrorLogResponse reply) state" where
  "adminErrorStats lib now before_param before_id_param limit_param =
     (case parseBefore lib before_param of
        None \<Rightarrow> State_Monad.return (ErrorReply 400 ''invalid_cursor'' ''before must be an RFC3339 timestamp'')
      | Some before \<Rightarrow>
          (case parseBeforeID before_id_param of
             None \<Rightarrow> State_Monad.return (ErrorReply 400 ''invalid_cursor'' ''before_id must be an integer'')
           | Some beforeID \<Rightarrow>
               (case parseErrorLimit limit_param of
                  None \<Rightarrow> State_Monad.return (ErrorReply 400 ''invalid_limit'' ''limit must be an integer between 1 and 100'')
                | Some limit \<Rightarrow> do {
                    r \<leftarrow> ListErrors (cu_uuid_string lib) now before beforeID limit;
                    State_Monad.return (case r of Inl err \<Rightarrow> writeAdminError err | Inr resp \<Rightarrow> Reply 200 resp)
                  })))"

subsection \<open>The operators only read\<close>

lemma admin_reads:
  "snd (GetOverviewStats pg now d) = d" "snd (ListRequestStats pg interval a b d) = d"
  "snd (ListRequestStatsByType pg a b d) = d" "snd (ListIndividualErrors t i l d) = d"
  by (simp_all add: GetOverviewStats_def ListRequestStats_def ListRequestStatsByType_def ListIndividualErrors_def Let_def)

lemma admin_handlers_read:
  "state_io_rel (\<lambda>w w'. committed w' = committed w) (adminOverview pg now)"
  "state_io_rel (\<lambda>w w'. committed w' = committed w) (adminRequestStats pg fl lib ul now a b i)"
  "state_io_rel (\<lambda>w w'. committed w' = committed w) (adminRequestTypeStats pg lib ul now a b i)"
  "state_io_rel (\<lambda>w w'. committed w' = committed w) (adminErrorStats lib now t b l)"
  by (auto simp: adminOverview_def Overview_def adminRequestStats_def RequestStats_def adminRequestTypeStats_def RequestTypeStats_def
      adminErrorStats_def ListErrors_def Let_def admin_reads
      intro!: reading.io_return reading.io_bind reading.io_sum reading.io_option reading_pool)

end
