(* ===== verification/History_Pages.thy ===== *)
theory History_Pages
  imports History
begin

text \<open>
  Paging backwards by a key. The locale \<open>keyset_pages\<close> is the contract between a handler and the
  client that follows its cursors: a request with a cursor that parses answers the rows with
  smaller keys, largest first, up to the limit, and the cursor of a row parses to the key of that row. Whether
  a page announces another one (\<open>more\<close>) depends on how many rows there were; it must when some are
  left, and may when the page is full. The contract gives
  the contract \<open>paged_source\<close>, so that the loop of the client ends with all rows. Both handlers of the
  history are instances.
\<close>

subsection \<open>Rows below a key\<close>

definition rows_before :: "('r \<Rightarrow> 'k::linorder) \<Rightarrow> 'k \<Rightarrow> 'r list \<Rightarrow> 'r list" where
  "rows_before key pos rows = rev (sort_key key (filter (\<lambda>r. key r < pos) rows))"

lemma set_rows_before: "set (rows_before key pos rows) = {r \<in> set rows. key r < pos}"
  by (auto simp: rows_before_def)

lemma rows_before_strict:
  assumes "distinct (map key rows)"
  shows "sorted_wrt (>) (map key (rows_before key pos rows))"
proof -
  have "distinct (map key (filter (\<lambda>r. key r < pos) rows))"
    using assms by (simp add: distinct_map distinct_filter inj_on_def)
  then have "sorted_wrt (<) (map key (sort_key key (filter (\<lambda>r. key r < pos) rows)))"
    by (simp add: strict_sorted_iff distinct_map)
  then show ?thesis by (simp add: rows_before_def rev_map [symmetric] sorted_wrt_rev)
qed

lemma filter_below_nth:
  fixes f :: "'a \<Rightarrow> 'b::linorder"
  assumes "sorted_wrt (>) (map f xs)" "0 < n" "n \<le> length xs"
  shows "filter (\<lambda>x. f x < f (xs ! (n - 1))) xs = drop n xs"
proof -
  have srt: "f (xs ! j) < f (xs ! i)" if "i < j" "j < length xs" for i j
    using sorted_wrt_nth_less [OF assms(1)] that by simp
  have "\<not> f x < f (xs ! (n - 1))" if x: "x \<in> set (take n xs)" for x
  proof -
    obtain i where i: "i < n" "i < length xs" "x = xs ! i" using x by (auto simp: in_set_conv_nth)
    show ?thesis
    proof (cases "i = n - 1")
      case False
      then have "i < n - 1" "n - 1 < length xs" using i(1) assms(2,3) by linarith+
      then show ?thesis using srt [of i "n - 1"] i(3) by simp
    qed (use i(3) in simp)
  qed
  then have "filter (\<lambda>x. f x < f (xs ! (n - 1))) (take n xs) = []" by (simp add: filter_empty_conv)
  moreover have "f x < f (xs ! (n - 1))" if x: "x \<in> set (drop n xs)" for x
  proof -
    obtain i where "i < length xs - n" "x = xs ! (n + i)" using x by (auto simp: in_set_conv_nth)
    then show ?thesis using srt [of "n - 1" "n + i"] assms(2) by simp
  qed
  then have "filter (\<lambda>x. f x < f (xs ! (n - 1))) (drop n xs) = drop n xs" by (simp add: filter_id_conv)
  ultimately show ?thesis by (metis append_Nil append_take_drop_id filter_append)
qed

lemma rows_before_less:
  assumes "k \<le> pos"
  shows "rows_before key k rows = filter (\<lambda>r. key r < k) (rows_before key pos rows)"
proof -
  have "filter (\<lambda>r. key r < pos \<and> key r < k) rows = filter (\<lambda>r. key r < k) rows" using assms by (intro filter_cong) auto
  then show ?thesis by (simp add: rows_before_def rev_filter [symmetric] filter_sort)
qed

lemma rows_before_next:
  assumes "distinct (map key rows)" "0 < n" "n \<le> length (rows_before key pos rows)"
  shows "rows_before key (key (rows_before key pos rows ! (n - 1))) rows = drop n (rows_before key pos rows)"
proof -
  let ?all = "rows_before key pos rows"
  have "?all ! (n - 1) \<in> set ?all" using assms by auto
  then have "key (?all ! (n - 1)) < pos" unfolding set_rows_before by blast
  then have "key (?all ! (n - 1)) \<le> pos" by (rule less_imp_le)
  from rows_before_less [OF this, of key rows] filter_below_nth [OF rows_before_strict [OF assms(1)] assms(2,3)] show ?thesis by simp
qed


subsection \<open>The contract of a handler\<close>

locale keyset_pages =
  fixes ready :: "'s \<Rightarrow> bool" and rows :: "'s \<Rightarrow> 'r list" and key :: "'r \<Rightarrow> 'k::linorder" and view :: "'s \<Rightarrow> 'r \<Rightarrow> 'x"
    and limit :: nat and more :: "nat \<Rightarrow> bool" and parse :: "'c \<Rightarrow> 'k option" and encode :: "'k \<Rightarrow> 'c" and no_cursor :: 'c
    and request :: "'c \<Rightarrow> 's \<Rightarrow> ('x list \<times> bool \<times> 'c) option \<times> 's"
  assumes limit: "0 < limit"
    and more_left: "limit < n \<Longrightarrow> more n"
    and more_full: "more n \<Longrightarrow> limit \<le> n"
    and keys: "ready s \<Longrightarrow> distinct (map key (rows s))"
    and encoded: "ready s \<Longrightarrow> r \<in> set (rows s) \<Longrightarrow> parse (encode (key r)) = Some (key r)"
    and answer: "ready s \<Longrightarrow> parse c = Some pos \<Longrightarrow> all = rows_before key pos (rows s) \<Longrightarrow>
      request c s = (Some (map (view s) (take limit all), more (length all),
        if more (length all) then encode (key (all ! (limit - 1))) else no_cursor), s)"
begin

abbreviation rest :: "'c \<Rightarrow> 's \<Rightarrow> 'r list" where
  "rest c s \<equiv> rows_before key (the (parse c)) (rows s)"

lemma request_next:
  assumes "ready s" "parse c = Some pos" "request c s = (Some (xs, True, c'), s')"
  shows "s' = s" "xs = map (view s) (take limit (rest c s))" "parse c' \<noteq> None" "rest c' s = drop limit (rest c s)" "limit \<le> length (rest c s)"
proof -
  let ?all = "rest c s"
  from answer [OF assms(1,2) refl] assms(2,3) have eq: "s' = s" "xs = map (view s) (take limit ?all)" and long: "more (length ?all)"
    and c': "c' = encode (key (?all ! (limit - 1)))"
    by auto
  have full: "limit \<le> length ?all" using long by (rule more_full)
  then have "?all ! (limit - 1) \<in> set ?all" using limit by simp
  then have "?all ! (limit - 1) \<in> set (rows s)" by (simp add: rows_before_def)
  then have parsed: "parse c' = Some (key (?all ! (limit - 1)))" unfolding c' by (rule encoded [OF assms(1)])
  with eq full rows_before_next [OF keys [OF assms(1)] limit, of "the (parse c)"]
  show "s' = s" "xs = map (view s) (take limit ?all)" "parse c' \<noteq> None" "rest c' s = drop limit ?all" "limit \<le> length ?all"
    by simp_all
qed

end

sublocale keyset_pages \<subseteq> paged_source "\<lambda>c s. ready s \<and> parse c \<noteq> None" "\<lambda>c s. map (view s) (rest c s)" "\<lambda>c s. length (rest c s)" request
proof
  fix c s assume "ready s \<and> parse c \<noteq> None"
  then obtain pos where ok: "ready s" "parse c = Some pos" by auto
  note ans = answer [OF ok refl]
  show "\<exists>xs has_more c' s'. request c s = (Some (xs, has_more, c'), s')" using ans by blast
  show "map (view s) (rest c s) = xs" if "request c s = (Some (xs, False, c'), s')" for xs c' s'
    using that ans ok by (cases "limit < length (rest c s)") (auto dest: more_left)
  show "(ready s' \<and> parse c' \<noteq> None) \<and> map (view s) (rest c s) = xs @ map (view s') (rest c' s')"
    if "request c s = (Some (xs, True, c'), s')" for xs c' s'
    using request_next [OF ok that] ok by (simp add: map_append [symmetric] del: map_append)
  show "length (rest c' s') < length (rest c s)" if "request c s = (Some (xs, True, c'), s')" for xs c' s'
    using request_next [OF ok that] limit by simp
qed


subsection \<open>Cursors\<close>

definition cursor_pos :: "cursor_lib \<Rightarrow> string \<Rightarrow> (time, uuid) lexpair option" where
  "cursor_pos lib c = map_option (\<lambda>(t, i). LexPair t i) (parseCursor lib c)"

definition pos_cursor :: "cursor_lib \<Rightarrow> (time, uuid) lexpair \<Rightarrow> string" where
  "pos_cursor lib k = encodeCursor lib (lex_major k) (lex_minor k)"

lemma comma_not_digit: "\<not> is_digit CHR '',''"
  by code_simp

lemma no_comma_pad: "CHR '','' \<notin> set (pad w n)"
  using pad_digits [of w n] comma_not_digit by (auto simp: list_all_iff)

lemma no_comma_format: "CHR '','' \<notin> set (FormatRFC3339Nano t)"
proof -
  have "CHR '','' \<notin> set (fraction us)" for us
    using no_comma_pad [of 6 us] by (auto simp: fraction_def dest: set_dropWhileD)
  then show ?thesis by (auto simp: FormatRFC3339Nano_def appendInt_def no_comma_pad Let_def split: prod.splits)
qed

lemma parse_cursor_encoded:
  assumes "uuids_ok lib" "json_time_ok t"
  shows "parseCursor lib (encodeCursor lib t i) = Some (t, i)"
proof -
  have "takeWhile (\<lambda>c. c \<noteq> CHR '','') (FormatRFC3339Nano t @ '','' @ cu_uuid_string lib i) = FormatRFC3339Nano t"
    "dropWhile (\<lambda>c. c \<noteq> CHR '','') (FormatRFC3339Nano t @ '','' @ cu_uuid_string lib i) = '','' @ cu_uuid_string lib i"
    using no_comma_format [of t] by (auto simp: takeWhile_append dropWhile_append)
  moreover have "parseRFC3339 (FormatRFC3339Nano t) = Some t"
    using assms(2) by (intro parse_format) (simp_all add: json_time_ok_def Day_def)
  ultimately show ?thesis
    using assms(1) by (simp add: parseCursor_def encodeCursor_def SplitN2_def ParseRFC3339Nano_def uuids_ok_def)
qed

lemma next_cursor_last:
  "rows \<noteq> [] \<Longrightarrow> next_cursor lib ts i rows True = encodeCursor lib (ts (last rows)) (i (last rows))"
  by (induction rows rule: rev_induct) (simp_all add: next_cursor_def)

lemma history_limit: "1 \<le> parseLimit raw 50 200" "parseLimit raw 50 200 \<le> 200"
  by (auto simp: parseLimit_def split: option.split)


subsection \<open>Both handlers\<close>

definition history_sessions :: "uuid \<Rightarrow> db \<Rightarrow> CubeSession list" where
  "history_sessions u d = filter (\<lambda>r. cs_user_id r = u \<and> cs_deleted_at r = None) (cube_sessions d)"

definition history_solves :: "uuid \<Rightarrow> uuid \<Rightarrow> db \<Rightarrow> Solf list" where
  "history_solves u i d = filter (\<lambda>r. sf_user_id r = u \<and> sf_session_id r = Some i \<and> sf_deleted_at r = None) (solves d)"

definition session_pos :: "CubeSession \<Rightarrow> (time, uuid) lexpair" where
  "session_pos r = LexPair (cs_started_at r) (cs_id r)"

definition solve_pos :: "Solf \<Rightarrow> (time, uuid) lexpair" where
  "solve_pos r = LexPair (sf_solved_at r) (sf_id r)"

definition session_summary :: "db \<Rightarrow> CubeSession \<Rightarrow> SessionSummary" where
  "session_summary d r = \<lparr> ss_session = sessionFromDB r, ss_solve_count = solve_count d r \<rparr>"

text \<open>A request of the client and what it reads of the reply.\<close>

definition sessions_request :: "cursor_lib \<Rightarrow> uuid \<Rightarrow> string \<Rightarrow> string \<Rightarrow> world \<Rightarrow> (SessionSummary list \<times> bool \<times> string) option \<times> world" where
  "sessions_request lib u limit c w =
     (case run_state (listSessions lib u limit c) w of
        (Reply _ p, w') \<Rightarrow> (Some (ps_sessions p, ps_has_more p, ps_next_cursor p), w')
      | (_, w') \<Rightarrow> (None, w'))"

definition solves_request :: "cursor_lib \<Rightarrow> uuid \<Rightarrow> uuid \<Rightarrow> string \<Rightarrow> string \<Rightarrow> world \<Rightarrow> (Solve list \<times> bool \<times> string) option \<times> world" where
  "solves_request lib u i limit c w =
     (case run_state (listSessionSolves lib u (cu_uuid_string lib i) limit c) w of
        (Reply _ p, w') \<Rightarrow> (Some (pl_solves p, pl_has_more p, pl_next_cursor p), w')
      | (_, w') \<Rightarrow> (None, w'))"

definition history_ready :: "cursor_lib \<Rightarrow> env \<Rightarrow> world \<Rightarrow> bool" where
  "history_ready lib e w \<longleftrightarrow> uuids_ok lib \<and> faults w = [] \<and> server_ok e (committed w)"

lemma distinct_pos:
  assumes "keys_distinct (\<lambda>r. (owner r, ident r)) rows" "\<And>r. P r \<Longrightarrow> owner r = u"
  shows "distinct (map (\<lambda>r. LexPair (ts r) (ident r)) (filter P rows))"
  using assms by (auto simp: keys_distinct_def distinct_map distinct_filter inj_on_def)

lemma page_of_limit:
  assumes "1 \<le> limit"
  shows "take (nat limit) (take (nat (limit + 1)) xs) = take (nat limit) xs"
    "limit < int (length (take (nat (limit + 1)) xs)) \<longleftrightarrow> nat limit < length xs"
    "\<not> nat limit < length xs \<Longrightarrow> take (nat (limit + 1)) xs = xs \<and> take (nat limit) xs = xs"
    "nat limit < length xs \<Longrightarrow> take (nat limit) xs \<noteq> [] \<and> last (take (nat limit) xs) = xs ! (nat limit - 1)"
proof -
  show "nat limit < length xs \<Longrightarrow> take (nat limit) xs \<noteq> [] \<and> last (take (nat limit) xs) = xs ! (nat limit - 1)"
    using assms last_conv_nth [of "take (nat limit) xs"] by (cases xs) auto
qed (use assms in \<open>auto simp: min_def\<close>)

text \<open>The rows a query fetches, one more than the limit, are the first of those before the cursor.\<close>

lemma sessions_fetched:
  assumes "1 \<le> limit" "limit \<le> 200"
  shows "ListSessionsPaginated u ts i (int32 (limit + 1)) d =
    (Inr (map (\<lambda>r. \<lparr> lr_session = r, lr_solve_count = solve_count d r \<rparr>)
       (take (nat (limit + 1)) (rows_before session_pos (LexPair ts i) (history_sessions u d)))), d)"
proof -
  have "filter (\<lambda>r. cs_user_id r = u \<and> cs_deleted_at r = None \<and> before_pos (cs_started_at r) (cs_id r) ts i) (cube_sessions d) =
      filter (\<lambda>r. session_pos r < LexPair ts i) (history_sessions u d)"
    by (auto simp: history_sessions_def session_pos_def before_pos_def intro: filter_cong)
  moreover have "int32 (limit + 1) = limit + 1" using assms by (simp add: int32_def)
  moreover have "(\<lambda>r. LexPair (cs_started_at r) (cs_id r)) = session_pos" by (simp add: fun_eq_iff session_pos_def)
  ultimately show ?thesis using assms by (simp add: ListSessionsPaginated_def rows_before_def)
qed

lemma solves_fetched:
  assumes "1 \<le> limit" "limit \<le> 200"
  shows "ListSolvesForSessionPaginated u j ts i (int32 (limit + 1)) d =
    (Inr (take (nat (limit + 1)) (rows_before solve_pos (LexPair ts i) (history_solves u j d))), d)"
proof -
  have "filter (\<lambda>r. sf_user_id r = u \<and> sf_session_id r = Some j \<and> sf_deleted_at r = None \<and> before_pos (sf_solved_at r) (sf_id r) ts i) (solves d) =
      filter (\<lambda>r. solve_pos r < LexPair ts i) (history_solves u j d)"
    by (auto simp: history_solves_def solve_pos_def before_pos_def intro: filter_cong)
  moreover have "int32 (limit + 1) = limit + 1" using assms by (simp add: int32_def)
  moreover have "(\<lambda>r. LexPair (sf_solved_at r) (sf_id r)) = solve_pos" by (simp add: fun_eq_iff solve_pos_def)
  ultimately show ?thesis using assms by (simp add: ListSolvesForSessionPaginated_def rows_before_def)
qed

lemma sessions_answer:
  assumes ready: "history_ready lib e w" and pos: "cursor_pos lib c = Some pos"
    and all: "all = rows_before session_pos pos (history_sessions u (committed w))" and n: "n = nat (parseLimit limit 50 200)"
  shows "sessions_request lib u limit c w = (Some (map (session_summary (committed w)) (take n all), n < length all,
    if n < length all then pos_cursor lib (session_pos (all ! (n - 1))) else []), w)"
proof -
  let ?l = "parseLimit limit 50 200"
  obtain t i where ti: "parseCursor lib c = Some (t, i)" "pos = LexPair t i" using pos by (auto simp: cursor_pos_def)
  note page = page_of_limit [OF history_limit(1) [of limit]]
  have w: "faults w = []" using ready by (simp add: history_ready_def)
  have views: "map ((\<lambda>row. \<lparr> ss_session = sessionFromDB (lr_session row), ss_solve_count = lr_solve_count row \<rparr>) \<circ>
      (\<lambda>r. \<lparr> lr_session = r, lr_solve_count = solve_count (committed w) r \<rparr>)) xs = map (session_summary (committed w)) xs" for xs
    by (simp add: session_summary_def comp_def)
  show ?thesis
  proof (cases "n < length all")
    case True
    have cur: "next_cursor lib (cs_started_at \<circ> lr_session) (cs_id \<circ> lr_session)
        (map (\<lambda>r. \<lparr> lr_session = r, lr_solve_count = solve_count (committed w) r \<rparr>) (take n all)) True = pos_cursor lib (session_pos (all ! (n - 1)))"
      using page(4) [of all] True n by (simp add: next_cursor_last last_map pos_cursor_def session_pos_def)
    show ?thesis
      using True cur ti w page(1,2) [of all] all n
      by (simp add: sessions_request_def listSessions_def Let_def defaultHistoryLimit_def maxHistoryLimit_def run_simps
          sessions_fetched history_limit take_map views)
  next
    case False
    then show ?thesis
      using ti w page(2,3) [of all] all n
      by (simp add: sessions_request_def listSessions_def Let_def defaultHistoryLimit_def maxHistoryLimit_def run_simps
          sessions_fetched history_limit views next_cursor_def)
  qed
qed

lemma solves_answer:
  assumes ready: "history_ready lib e w" and pos: "cursor_pos lib c = Some pos"
    and all: "all = rows_before solve_pos pos (history_solves u j (committed w))" and n: "n = nat (parseLimit limit 50 200)"
  shows "solves_request lib u j limit c w = (Some (map solveFromDB (take n all), n < length all,
    if n < length all then pos_cursor lib (solve_pos (all ! (n - 1))) else []), w)"
proof -
  obtain t i where ti: "parseCursor lib c = Some (t, i)" "pos = LexPair t i" using pos by (auto simp: cursor_pos_def)
  note page = page_of_limit [OF history_limit(1) [of limit]]
  have w: "faults w = []" "cu_uuid_parse lib (cu_uuid_string lib j) = Some j" using ready by (simp_all add: history_ready_def uuids_ok_def)
  show ?thesis
  proof (cases "n < length all")
    case True
    have cur: "next_cursor lib sf_solved_at sf_id (take n all) True = pos_cursor lib (solve_pos (all ! (n - 1)))"
      using page(4) [of all] True n by (simp add: next_cursor_last pos_cursor_def solve_pos_def)
    show ?thesis
      using True cur ti w page(1,2) [of all] all n
      by (simp add: solves_request_def listSessionSolves_def Let_def defaultHistoryLimit_def maxHistoryLimit_def run_simps
          solves_fetched history_limit)
  next
    case False
    then show ?thesis
      using ti w page(2,3) [of all] all n
      by (simp add: solves_request_def listSessionSolves_def Let_def defaultHistoryLimit_def maxHistoryLimit_def run_simps
          solves_fetched history_limit next_cursor_def)
  qed
qed

interpretation session_pages: keyset_pages "history_ready lib e" "\<lambda>w. history_sessions u (committed w)" session_pos
  "\<lambda>w. session_summary (committed w)" "nat (parseLimit limit 50 200)" "\<lambda>n. nat (parseLimit limit 50 200) < n" "cursor_pos lib" "pos_cursor lib" "[]" "sessions_request lib u limit"
  for lib e u limit
proof
  show "0 < nat (parseLimit limit 50 200)" using history_limit(1) [of limit] by simp
next
  fix w assume ready: "history_ready lib e w"
  then have keys: "keys_distinct (\<lambda>r. (cs_user_id r, cs_id r)) (cube_sessions (committed w))"
    by (simp add: history_ready_def server_ok_def tables_ok_def keys_distinct_def cs_key_def [abs_def])
  have "(\<lambda>r. LexPair (cs_started_at r) (cs_id r)) = session_pos" by (simp add: fun_eq_iff session_pos_def)
  with distinct_pos [OF keys, of "\<lambda>r. cs_user_id r = u \<and> cs_deleted_at r = None" u cs_started_at]
  show "distinct (map session_pos (history_sessions u (committed w)))" by (simp add: history_sessions_def)
  fix r assume "r \<in> set (history_sessions u (committed w))"
  then have "json_time_ok (cs_started_at r)"
    using ready by (auto simp: history_ready_def server_ok_def rows_ok_def session_ok_def history_sessions_def session_json_ok_def
        document_json_ok_def json_times_ok_def sessionFromDB_def)
  with parse_cursor_encoded [of lib] ready show "cursor_pos lib (pos_cursor lib (session_pos r)) = Some (session_pos r)"
    by (simp add: cursor_pos_def pos_cursor_def session_pos_def history_ready_def)
qed (simp_all add: sessions_answer)

interpretation solve_pages: keyset_pages "history_ready lib e" "\<lambda>w. history_solves u j (committed w)" solve_pos
  "\<lambda>w. solveFromDB" "nat (parseLimit limit 50 200)" "\<lambda>n. nat (parseLimit limit 50 200) < n" "cursor_pos lib" "pos_cursor lib" "[]" "solves_request lib u j limit"
  for lib e u j limit
proof
  show "0 < nat (parseLimit limit 50 200)" using history_limit(1) [of limit] by simp
next
  fix w assume ready: "history_ready lib e w"
  then have keys: "keys_distinct (\<lambda>r. (sf_user_id r, sf_id r)) (solves (committed w))"
    by (simp add: history_ready_def server_ok_def tables_ok_def keys_distinct_def sf_key_def [abs_def])
  have "(\<lambda>r. LexPair (sf_solved_at r) (sf_id r)) = solve_pos" by (simp add: fun_eq_iff solve_pos_def)
  with distinct_pos [OF keys, of "\<lambda>r. sf_user_id r = u \<and> sf_session_id r = Some j \<and> sf_deleted_at r = None" u sf_solved_at]
  show "distinct (map solve_pos (history_solves u j (committed w)))" by (simp add: history_solves_def)
  fix r assume "r \<in> set (history_solves u j (committed w))"
  then have "json_time_ok (sf_solved_at r)"
    using ready by (auto simp: history_ready_def server_ok_def rows_ok_def solve_ok_def history_solves_def solve_json_ok_def
        document_json_ok_def json_times_ok_def solveFromDB_def)
  with parse_cursor_encoded [of lib] ready show "cursor_pos lib (pos_cursor lib (solve_pos r)) = Some (solve_pos r)"
    by (simp add: cursor_pos_def pos_cursor_def solve_pos_def history_ready_def)
qed (simp_all add: solves_answer)

end
