(* ===== verification/Admin_Pages.thy ===== *)
theory Admin_Pages
  imports Admin_Loop Admin_Handlers History_Pages
begin

text \<open>
  The log of request errors, read page by page. The handler is an instance of \<open>keyset_pages\<close>: its cursor is the pair
  of the query parameters \<open>before\<close> and \<open>before_id\<close>, written by the client from the time and the id that the
  page names, and a full page always announces another one.
\<close>

subsection \<open>Numbers as text\<close>

lemma digit_count_bound: "0 \<le> n \<Longrightarrow> n < 10 ^ digit_count n"
proof (induction n rule: digit_count.induct)
  case (1 n)
  show ?case
  proof (cases "n < 10")
    case False
    with 1 have "n div 10 < 10 ^ digit_count (n div 10)" by simp
    then have "n < 10 * 10 ^ digit_count (n div 10)" by linarith
    with False show ?thesis by (subst digit_count.simps) simp
  qed (simp add: digit_count.simps)
qed

lemma digit_count_pos: "0 < digit_count n"
  by (subst digit_count.simps) simp

lemma Atoi_append:
  assumes "0 \<le> n" "n \<le> MaxInt64"
  shows "appendInt 1 n \<noteq> []" "Atoi (appendInt 1 n) = Some n"
proof -
  let ?t = "pad (digit_count n) n"
  have w: "0 < digit_count n" by (rule digit_count_pos)
  have t: "appendInt 1 n = ?t" using assms(1) w by (simp add: appendInt_def max_def)
  have ne: "?t \<noteq> []" using w by (metis length_pad length_0_conv less_irrefl)
  then obtain c cs where cs: "?t = c # cs" by (cases ?t) auto
  then have "is_digit c" using pad_digits [of "digit_count n" n] by simp
  then have "c \<noteq> CHR ''-''" "c \<noteq> CHR ''+''" by (auto simp: is_digit_def)
  moreover have "digits_value ?t = n" using digit_count_bound [OF assms(1)] assms(1) by (simp add: digits_value_pad)
  ultimately show "appendInt 1 n \<noteq> []" "Atoi (appendInt 1 n) = Some n"
    using t ne cs pad_digits [of "digit_count n" n] assms by (simp_all add: Atoi_def Let_def MaxInt64_def)
qed

lemma format_not_empty: "FormatRFC3339Nano t \<noteq> []"
  by (simp add: FormatRFC3339Nano_def Let_def split: prod.split)


subsection \<open>The handler\<close>

type_synonym error_cursor = "string \<times> string"

definition error_pos :: "RequestError \<Rightarrow> (time, int) lexpair" where
  "error_pos r = LexPair (qe_created_at r) (qe_id r)"

definition error_cursor_pos :: "cursor_lib \<Rightarrow> time \<Rightarrow> error_cursor \<Rightarrow> (time, int) lexpair option" where
  "error_cursor_pos lib now c =
     (case parseBefore lib (fst c) of
        None \<Rightarrow> None
      | Some t \<Rightarrow> (case parseBeforeID (snd c) of
          None \<Rightarrow> None
        | Some i \<Rightarrow> Some (LexPair (if IsZero t then now else t) (if i = 0 then MaxInt64 else i))))"

definition error_pos_cursor :: "(time, int) lexpair \<Rightarrow> error_cursor" where
  "error_pos_cursor k = (FormatRFC3339Nano (lex_major k), appendInt 1 (lex_minor k))"

definition errors_request ::
  "cursor_lib \<Rightarrow> time \<Rightarrow> string \<Rightarrow> error_cursor \<Rightarrow> world \<Rightarrow> (ErrorLog list \<times> bool \<times> error_cursor) option \<times> world" where
  "errors_request lib now limit c w =
     (case run_state (adminErrorStats lib now (fst c) (snd c) limit) w of
        (Reply _ p, w') \<Rightarrow> (Some (lo_errors p,
           case lo_next_cursor p of None \<Rightarrow> (False, [], [])
           | Some t \<Rightarrow> (True, error_pos_cursor (LexPair t (the (lo_next_cursor_id p))))), w')
      | (_, w') \<Rightarrow> (None, w'))"

definition errors_ready :: "world \<Rightarrow> bool" where
  "errors_ready w \<longleftrightarrow> faults w = [] \<and> error_ids_ok (committed w) \<and>
     (\<forall>r\<in>set (request_errors (committed w)). 0 < qe_created_at r \<and> json_time_ok (qe_created_at r) \<and> qe_id r \<le> MaxInt64)"

definition error_limit :: "string \<Rightarrow> nat" where
  "error_limit limit = nat (the (parseErrorLimit limit))"

lemma error_limit_bounds:
  assumes "parseErrorLimit limit = Some n"
  shows "1 \<le> n" "n \<le> 100" "error_limit limit = nat n" "int32 n = n"
  using assms by (auto simp: parseErrorLimit_def error_limit_def int32_def split: if_splits option.splits)

lemma errors_fetched:
  assumes "0 \<le> n"
  shows "ListIndividualErrors t i n d = (Inr (take (nat n) (rows_before error_pos (LexPair t i) (request_errors d))), d)"
proof -
  have "(\<lambda>r. LexPair (qe_created_at r) (qe_id r)) = error_pos" by (simp add: fun_eq_iff error_pos_def)
  moreover have "(\<lambda>r. qe_created_at r < t \<or> qe_created_at r = t \<and> qe_id r < i) = (\<lambda>r. error_pos r < LexPair t i)"
    by (auto simp: fun_eq_iff error_pos_def)
  ultimately show ?thesis using assms by (simp add: ListIndividualErrors_def rows_before_def)
qed

lemma errors_answer:
  assumes ready: "errors_ready w" and limit: "parseErrorLimit limit \<noteq> None" and pos: "error_cursor_pos lib now c = Some pos"
    and all: "all = rows_before error_pos pos (request_errors (committed w))" and n: "n = error_limit limit"
  shows "errors_request lib now limit c w = (Some (map (error_log (cu_uuid_string lib)) (take n all), n \<le> length all,
    if n \<le> length all then error_pos_cursor (error_pos (all ! (n - 1))) else ([], [])), w)"
proof -
  obtain l where l: "parseErrorLimit limit = Some l" using limit by blast
  note bounds = error_limit_bounds [OF l]
  obtain t i where ti: "parseBefore lib (fst c) = Some t" "parseBeforeID (snd c) = Some i"
    and p: "pos = LexPair (if IsZero t then now else t) (if i = 0 then MaxInt64 else i)"
    using pos by (auto simp: error_cursor_pos_def split: option.splits)
  have w: "faults w = []" using ready by (simp add: errors_ready_def)
  let ?rows = "take (nat l) all"
  have full: "int (length ?rows) = l \<longleftrightarrow> n \<le> length all" using bounds n by auto
  have resp: "run_state (adminErrorStats lib now (fst c) (snd c) limit) w = (Reply 200
      \<lparr> lo_errors = map (error_log (cu_uuid_string lib)) ?rows,
        lo_next_cursor = (if int (length ?rows) = l then Some (el_created_at (last (map (error_log (cu_uuid_string lib)) ?rows))) else None),
        lo_next_cursor_id = (if int (length ?rows) = l then Some (el_id (last (map (error_log (cu_uuid_string lib)) ?rows))) else None) \<rparr>, w)"
    using ti l w bounds p all by (simp add: adminErrorStats_def ListErrors_def Let_def run_simps errors_fetched)
  show ?thesis
  proof (cases "n \<le> length all")
    case True
    then have ne: "?rows \<noteq> []" and last: "last ?rows = all ! (n - 1)"
      using bounds n last_conv_nth [of ?rows] by (cases all; auto)+
    show ?thesis
      using resp full True ne last bounds n
      by (simp add: errors_request_def last_map error_log_def error_pos_cursor_def error_pos_def)
  next
    case False
    then show ?thesis using resp full bounds n by (simp add: errors_request_def)
  qed
qed

lemma error_cursor_parsed:
  assumes "0 < t" "json_time_ok t" "0 < i" "i \<le> MaxInt64"
  shows "error_cursor_pos lib now (error_pos_cursor (LexPair t i)) = Some (LexPair t i)"
proof -
  have "parseRFC3339 (FormatRFC3339Nano t) = Some t" using assms(2) by (intro parse_format) (simp_all add: json_time_ok_def Day_def)
  then show ?thesis
    using assms Atoi_append [of i] format_not_empty [of t]
    by (simp add: error_cursor_pos_def error_pos_cursor_def parseBefore_def parseBeforeID_def ParseRFC3339Nano_def IsZero_def)
qed

interpretation error_pages: keyset_pages "\<lambda>w. errors_ready w \<and> parseErrorLimit limit \<noteq> None" "\<lambda>w. request_errors (committed w)" error_pos
  "\<lambda>w. error_log (cu_uuid_string lib)" "max 1 (error_limit limit)" "\<lambda>n. max 1 (error_limit limit) \<le> n" "error_cursor_pos lib now" error_pos_cursor
  "([], [])" "errors_request lib now limit" for lib now limit
proof
  fix w assume ready: "errors_ready w \<and> parseErrorLimit limit \<noteq> None"
  then have "sorted_wrt (<) (map qe_id (request_errors (committed w)))" by (simp add: errors_ready_def error_ids_ok_def)
  then have "distinct (map qe_id (request_errors (committed w)))" by (simp add: strict_sorted_iff)
  then show "distinct (map error_pos (request_errors (committed w)))"
    by (auto simp: distinct_map inj_on_def error_pos_def)
  fix r assume "r \<in> set (request_errors (committed w))"
  then have "0 < qe_created_at r" "json_time_ok (qe_created_at r)" "0 < qe_id r" "qe_id r \<le> MaxInt64"
    using ready by (auto simp: errors_ready_def error_ids_ok_def)
  from error_cursor_parsed [OF this] show "error_cursor_pos lib now (error_pos_cursor (error_pos r)) = Some (error_pos r)"
    by (simp add: error_pos_def)
next
  fix w c pos all
  assume ready: "errors_ready w \<and> parseErrorLimit limit \<noteq> None" and pos: "error_cursor_pos lib now c = Some pos"
    and all: "all = rows_before error_pos pos (request_errors (committed w))"
  obtain l where "parseErrorLimit limit = Some l" using ready by blast
  then have "max 1 (error_limit limit) = error_limit limit" using error_limit_bounds(1,3) by fastforce
  with errors_answer [OF conjunct1 [OF ready] conjunct2 [OF ready] pos all refl]
  show "errors_request lib now limit c w =
    (Some (map (error_log (cu_uuid_string lib)) (take (max 1 (error_limit limit)) all), max 1 (error_limit limit) \<le> length all,
      if max 1 (error_limit limit) \<le> length all then error_pos_cursor (error_pos (all ! (max 1 (error_limit limit) - 1))) else ([], [])), w)"
    by simp
qed simp_all

end
