(* ===== verification/Admin_Stats.thy ===== *)
theory Admin_Stats
  imports Admin_Tally
begin

text \<open>
  The statistics of the operators: the two series are two groupings of the same rows, so that their counts add up to
  the same number, and which ranges are answered.
\<close>

subsection \<open>Grouping\<close>

lemma sum_list_indicator:
  fixes v :: int
  assumes "distinct ks" "k \<in> set ks"
  shows "sum_list (map (\<lambda>b. if k = b then v else 0) ks) = v"
  using assms by (simp add: sum_list_distinct_conv_sum_set)

lemma sum_list_groups:
  fixes f :: "'r \<Rightarrow> int"
  assumes "distinct ks" "g ` set rows \<subseteq> set ks"
  shows "sum_list (map (\<lambda>b. sum_list (map f (filter (\<lambda>r. g r = b) rows))) ks) = sum_list (map f rows)"
  using assms(2)
proof (induction rows)
  case (Cons r rows)
  have "sum_list (map (\<lambda>b. sum_list (map f (filter (\<lambda>r. g r = b) (r # rows)))) ks) =
      sum_list (map (\<lambda>b. (if g r = b then f r else 0) + sum_list (map f (filter (\<lambda>r. g r = b) rows))) ks)"
    by (intro arg_cong [of _ _ sum_list] map_cong) auto
  also have "\<dots> = f r + sum_list (map f rows)"
    using Cons sum_list_indicator [OF assms(1), of "g r" "f r"] by (simp add: sum_list_addf)
  finally show ?case by simp
qed simp

lemma sum_list_0_of_type:
  fixes f :: "'r \<Rightarrow> int"
  shows "(\<And>r. r \<in> set rows \<Longrightarrow> \<not> P r) \<Longrightarrow> sum_list (map (\<lambda>r. if P r then f r else 0) rows) = 0"
  by (induction rows) auto

lemma sum_list_sort_key:
  fixes f :: "'r \<Rightarrow> int"
  shows "sum_list (map f (sort_key k rows)) = sum_list (map f rows)"
  by (simp flip: sum_mset_sum_list)

lemma sum_list_filter_le:
  fixes f :: "'r \<Rightarrow> int"
  assumes "\<forall>r\<in>set rows. 0 \<le> f r"
  shows "0 \<le> sum_list (map f (filter P rows))" "sum_list (map f (filter P rows)) \<le> sum_list (map f rows)"
proof -
  show "0 \<le> sum_list (map f (filter P rows))" using assms by (intro sum_list_nonneg) auto
  show "sum_list (map f (filter P rows)) \<le> sum_list (map f rows)" using assms by (induction rows) auto
qed


subsection \<open>The range\<close>

lemma resolveRange_sound:
  assumes "resolveRange ul now q = Inr r"
  shows "qr_from r < qr_to r" "qr_to r - qr_from r \<le> maxRange" "qr_interval r = ''hour'' \<or> qr_interval r = ''day''"
    "\<not> IsZero (qr_from q) \<Longrightarrow> qr_from r = qr_from q \<and> qr_to r = qr_to q"
    "IsZero (qr_from q) \<Longrightarrow> qr_from r = now - defaultLookback \<and> qr_to r = now"
  using assms
  by (auto simp: resolveRange_def Let_def IntervalHour_def IntervalDay_def Sub_def maxRange_def MaxDuration_def Hour_def Second_def
      max_def min_def split: if_splits)


subsection \<open>Series\<close>

lemma bucket_counts:
  assumes "\<forall>r\<in>set rows. stat_check r"
  shows "lq_request_count (stats_row b rows) =
    lq_status_2xx (stats_row b rows) + lq_status_3xx (stats_row b rows) + lq_status_4xx (stats_row b rows) +
    lq_status_5xx (stats_row b rows) + sum_count (\<lambda>c. c < 200) rows"
  by (induction rows) (auto simp: stats_row_def sum_count_def)

lemma sum_count_bounds:
  assumes "\<forall>r\<in>set rows. stat_check r"
  shows "0 \<le> sum_count P rows" "sum_count P rows \<le> sum_list (map qh_request_count rows)"
proof -
  show "0 \<le> sum_count P rows" unfolding sum_count_def using assms by (intro sum_list_nonneg) (auto simp: stat_check_def)
  show "sum_count P rows \<le> sum_list (map qh_request_count rows)"
    using assms by (induction rows) (auto simp: sum_count_def stat_check_def)
qed

lemma stats_row_fits:
  assumes "\<forall>r\<in>set rows. stat_check r" "sum_list (map qh_request_count rows) \<le> MaxInt64" "sum_list (map qh_total_duration_ms rows) \<le> MaxInt64"
  shows "stats_row_fits (stats_row b (filter P rows))"
proof -
  have part: "\<forall>r\<in>set (filter P rows). stat_check r" using assms(1) by simp
  have counts: "0 \<le> sum_list (map qh_request_count (filter P rows))" "sum_list (map qh_request_count (filter P rows)) \<le> MaxInt64"
    "0 \<le> sum_list (map qh_total_duration_ms (filter P rows))" "sum_list (map qh_total_duration_ms (filter P rows)) \<le> MaxInt64"
    using assms sum_list_filter_le [of rows qh_request_count P] sum_list_filter_le [of rows qh_total_duration_ms P]
    by (auto simp: stat_check_def)
  have "0 \<le> sum_count Q (filter P rows)" "sum_count Q (filter P rows) \<le> MaxInt64" for Q
    using sum_count_bounds [OF part, of Q] counts(2) by auto
  then show ?thesis using counts unfolding stats_row_fits_def stats_row_def fits_bigint_def
    by (simp add: order_trans [of "- 9223372036854775808" 0])
qed

lemma ListRequestStats_ok:
  assumes rows: "rows = stats_between from_time to_time d" and "text_ok interval"
    and "\<forall>r\<in>set rows. stat_check r" "sum_list (map qh_request_count rows) \<le> MaxInt64" "sum_list (map qh_total_duration_ms rows) \<le> MaxInt64"
  shows "ListRequestStats pg interval from_time to_time d =
    (Inr (map (\<lambda>b. stats_row b (filter (\<lambda>r. stats_bucket pg interval r = b) rows)) (sort (remdups (map (stats_bucket pg interval) rows)))), d)"
  using assms(2) stats_row_fits [OF assms(3-5)] unfolding ListRequestStats_def rows [symmetric] by (simp add: list_all_iff Let_def)

lemma series_total:
  "sum_list (map lq_request_count (map (\<lambda>b. stats_row b (filter (\<lambda>r. g r = b) rows)) (sort (remdups (map g rows))))) =
    sum_list (map qh_request_count rows)"
  using sum_list_groups [of "sort (remdups (map g rows))" g rows qh_request_count] by (simp add: stats_row_def comp_def)


subsection \<open>Types\<close>

definition type_count :: "string \<Rightarrow> RequestTypeCount list \<Rightarrow> int" where
  "type_count t counts = (case row_at tc_type t counts of None \<Rightarrow> 0 | Some c \<Rightarrow> tc_request_count c)"

definition rows_of_type :: "string \<Rightarrow> ListRequestStatsByTypeRow list \<Rightarrow> int" where
  "rows_of_type t rows = sum_list (map lt_request_count (filter (\<lambda>r. requestTypeForRoute (lt_route r) = t) rows))"

lemma count_type_keys: "keys_distinct tc_type counts \<Longrightarrow> keys_distinct tc_type (count_type counts row)"
  by (auto simp: count_type_def Let_def keys_distinct_update_where intro!: keys_distinct_append split: option.split)

lemma type_count_step:
  assumes "0 \<le> type_count (requestTypeForRoute (lt_route row)) counts" "0 \<le> lt_request_count row"
    and "type_count (requestTypeForRoute (lt_route row)) counts + lt_request_count row \<le> MaxInt64"
  shows "type_count t (count_type counts row) = type_count t counts + (if requestTypeForRoute (lt_route row) = t then lt_request_count row else 0)"
proof -
  have wrap: "int64 (x + lt_request_count row) = x + lt_request_count row" if "0 \<le> x" "x + lt_request_count row \<le> MaxInt64" for x
    using that assms(2) by (intro int64_nonneg) auto
  show ?thesis
    using assms wrap
    by (auto simp: count_type_def type_count_def Let_def row_at_append row_at_update_where dest: row_at_Some split: option.splits)
qed

lemma count_types:
  assumes "\<forall>r\<in>set rows. 0 \<le> lt_request_count r" "\<forall>t. 0 \<le> type_count t counts"
    and "\<forall>t. type_count t counts + rows_of_type t rows \<le> MaxInt64"
  shows "type_count t (foldl count_type counts rows) = type_count t counts + rows_of_type t rows"
  using assms
proof (induction rows arbitrary: counts)
  case (Cons r rows)
  let ?t = "requestTypeForRoute (lt_route r)"
  have rest: "0 \<le> rows_of_type t rows" for t
    unfolding rows_of_type_def using Cons.prems(1) by (intro sum_list_filter_le) simp
  have cons: "rows_of_type t (r # rows) = (if ?t = t then lt_request_count r else 0) + rows_of_type t rows" for t
    by (simp add: rows_of_type_def)
  have "type_count ?t counts + (lt_request_count r + rows_of_type ?t rows) \<le> MaxInt64" using Cons.prems(3) cons [of ?t] by metis
  then have step: "type_count t (count_type counts r) = type_count t counts + (if ?t = t then lt_request_count r else 0)" for t
    using Cons.prems(1,2) rest [of ?t] by (intro type_count_step) auto
  have "type_count t (foldl count_type (count_type counts r) rows) = type_count t (count_type counts r) + rows_of_type t rows"
    using Cons.prems step cons by (intro Cons.IH) (auto simp: add.assoc)
  then show ?case using step cons by simp
qed (simp add: rows_of_type_def)

lemma fold_types:
  assumes "keys_distinct tc_type counts"
  shows "keys_distinct tc_type (foldl count_type counts rows)"
    "tc_type ` set (foldl count_type counts rows) = tc_type ` set counts \<union> (requestTypeForRoute \<circ> lt_route) ` set rows"
proof -
  have types: "set (map tc_type (count_type counts row)) = insert (requestTypeForRoute (lt_route row)) (set (map tc_type counts))" for counts row
  proof (cases "row_at tc_type (requestTypeForRoute (lt_route row)) counts")
    case (Some c)
    then have "requestTypeForRoute (lt_route row) \<in> set (map tc_type counts)" using row_at_Some [OF Some] by (metis imageI set_map)
    then show ?thesis using Some by (simp add: count_type_def Let_def map_key_update_where insert_absorb del: set_map)
  qed (simp add: count_type_def Let_def)
  show "keys_distinct tc_type (foldl count_type counts rows)"
    using assms by (induction rows arbitrary: counts) (auto intro: count_type_keys)
  show "tc_type ` set (foldl count_type counts rows) = tc_type ` set counts \<union> (requestTypeForRoute \<circ> lt_route) ` set rows"
    using types by (induction rows arbitrary: counts) auto
qed

lemma types_total:
  assumes "keys_distinct tc_type counts" "(requestTypeForRoute \<circ> lt_route) ` set rows \<subseteq> set (map tc_type counts)"
    and "\<And>c. c \<in> set counts \<Longrightarrow> tc_request_count c = rows_of_type (tc_type c) rows"
  shows "sum_list (map tc_request_count counts) = sum_list (map lt_request_count rows)"
proof -
  have "sum_list (map tc_request_count counts) = sum_list (map (\<lambda>t. rows_of_type t rows) (map tc_type counts))"
    using assms(3) by (simp cong: map_cong)
  also have "\<dots> = sum_list (map lt_request_count rows)"
    using sum_list_groups [of "map tc_type counts" "requestTypeForRoute \<circ> lt_route" rows lt_request_count] assms(1,2)
    by (simp add: keys_distinct_def rows_of_type_def)
  finally show ?thesis .
qed

lemma counted_types:
  assumes "\<forall>r\<in>set rows. 0 \<le> lt_request_count r" "sum_list (map lt_request_count rows) \<le> MaxInt64" "c \<in> set (foldl count_type [] rows)"
  shows "tc_request_count c = rows_of_type (tc_type c) rows"
proof -
  have "rows_of_type t rows \<le> MaxInt64" for t
    unfolding rows_of_type_def using assms(1,2) sum_list_filter_le(2) [of rows lt_request_count] by (meson order_trans)
  then have "type_count (tc_type c) (foldl count_type [] rows) = rows_of_type (tc_type c) rows"
    using count_types [of rows "[]" "tc_type c"] assms(1) by (simp add: type_count_def)
  moreover have "keys_distinct tc_type (foldl count_type [] rows)" by (rule fold_types) (simp add: keys_distinct_def)
  ultimately show ?thesis using row_at_in assms(3) by (fastforce simp: type_count_def)
qed


subsection \<open>Both answers\<close>

lemma stats_by_type:
  assumes "rows = stats_between from_time to_time d" "\<forall>r\<in>set rows. stat_check r" "sum_list (map qh_request_count rows) \<le> MaxInt64"
  obtains groups where "ListRequestStatsByType pg from_time to_time d = (Inr groups, d)"
    "\<forall>g\<in>set groups. 0 \<le> lt_request_count g" "sum_list (map lt_request_count groups) = sum_list (map qh_request_count rows)"
    "\<And>t. rows_of_type t groups = sum_list (map qh_request_count (filter (\<lambda>r. requestTypeForRoute (qh_route r) = t) rows))"
proof -
  let ?count = "\<lambda>route. sum_list (map qh_request_count (filter (\<lambda>r. qh_route r = route) rows))"
  let ?groups = "map (\<lambda>route. \<lparr> lt_route = route, lt_request_count = ?count route \<rparr>) (remdups (map qh_route rows))"
  let ?sorted = "sort_key (\<lambda>g. LexPair (- lt_request_count g) (LexPair (pg_sort_key pg (lt_route g)) (lt_route g))) ?groups"
  have nonneg: "\<forall>r\<in>set rows. 0 \<le> qh_request_count r" using assms(2) by (simp add: stat_check_def)
  have bounds: "0 \<le> ?count x" "?count x \<le> MaxInt64" for x
    using sum_list_filter_le [OF nonneg, of "\<lambda>r. qh_route r = x"] assms(3) by auto
  then have run: "ListRequestStatsByType pg from_time to_time d = (Inr ?sorted, d)"
    unfolding ListRequestStatsByType_def assms(1) [symmetric]
    by (simp add: Let_def list_all_iff fits_bigint_def order_trans [of "- 9223372036854775808" 0])
  have perm: "sum_list (map f ?sorted) = sum_list (map f ?groups)" for f :: "ListRequestStatsByTypeRow \<Rightarrow> int"
    by (rule sum_list_sort_key)
  have total: "sum_list (map lt_request_count ?sorted) = sum_list (map qh_request_count rows)"
    unfolding perm using sum_list_groups [of "remdups (map qh_route rows)" qh_route rows qh_request_count] by (simp add: comp_def)
  have by_type: "rows_of_type t ?sorted = sum_list (map qh_request_count (filter (\<lambda>r. requestTypeForRoute (qh_route r) = t) rows))" for t
  proof -
    let ?of = "\<lambda>r. requestTypeForRoute (qh_route r) = t"
    have "rows_of_type t xs = sum_list (map (\<lambda>g. if requestTypeForRoute (lt_route g) = t then lt_request_count g else 0) xs)" for xs
      unfolding rows_of_type_def by (induction xs) auto
    then have "rows_of_type t ?sorted =
        sum_list (map (\<lambda>x. if requestTypeForRoute x = t then ?count x else 0) (remdups (map qh_route rows)))"
      by (simp add: perm comp_def cong: if_cong)
    also have "\<dots> = sum_list (map (\<lambda>x. sum_list (map (\<lambda>r. if ?of r then qh_request_count r else 0) (filter (\<lambda>r. qh_route r = x) rows)))
        (remdups (map qh_route rows)))"
      by (intro arg_cong [of _ _ sum_list] map_cong refl) (auto intro!: arg_cong [of _ _ sum_list] map_cong sum_list_0_of_type)
    also have "\<dots> = sum_list (map (\<lambda>r. if ?of r then qh_request_count r else 0) rows)"
      using sum_list_groups [of "remdups (map qh_route rows)" qh_route rows] by simp
    also have "\<dots> = sum_list (map qh_request_count (filter ?of rows))" by (induction rows) auto
    finally show ?thesis .
  qed
  show thesis using that [OF run _ total by_type] bounds by simp
qed

lemma RequestTypeStats_ok:
  assumes range: "resolveRange ul now q = Inr r" and rows: "rows = stats_between (qr_from r) (qr_to r) (committed w)"
    and clean: "faults w = []" and check: "\<forall>x\<in>set rows. stat_check x" and fits: "sum_list (map qh_request_count rows) \<le> MaxInt64"
  shows "\<exists>types. run_state (RequestTypeStats pg ul now q) w = (Inr types, w) \<and>
    sum_list (map tc_request_count (ty_types types)) = sum_list (map qh_request_count rows) \<and>
    distinct (map tc_type (ty_types types)) \<and> sorted_wrt (\<lambda>x y. tc_request_count y \<le> tc_request_count x) (ty_types types) \<and>
    (\<forall>c\<in>set (ty_types types). tc_request_count c =
      sum_list (map qh_request_count (filter (\<lambda>x. requestTypeForRoute (qh_route x) = tc_type c) rows)))"
proof -
  obtain groups where groups: "ListRequestStatsByType pg (qr_from r) (qr_to r) (committed w) = (Inr groups, committed w)"
    "\<forall>g\<in>set groups. 0 \<le> lt_request_count g" "sum_list (map lt_request_count groups) = sum_list (map qh_request_count rows)"
    "\<And>t. rows_of_type t groups = sum_list (map qh_request_count (filter (\<lambda>r. requestTypeForRoute (qh_route r) = t) rows))"
    using stats_by_type [OF rows check fits] by blast
  let ?counts = "foldl count_type [] groups"
  let ?key = "\<lambda>c. LexPair (- tc_request_count c) (tc_type c)"
  let ?types = "\<lparr> ty_from = qr_from r, ty_to = qr_to r, ty_interval = qr_interval r, ty_types = sort_key ?key ?counts \<rparr>"
  have run: "run_state (RequestTypeStats pg ul now q) w = (Inr ?types, w)"
    using range clean groups(1) by (simp add: RequestTypeStats_def run_simps)
  have keys: "keys_distinct tc_type ?counts" by (rule fold_types) (simp add: keys_distinct_def)
  have types: "(requestTypeForRoute \<circ> lt_route) ` set groups \<subseteq> set (map tc_type ?counts)"
    using fold_types(2) [of "[]" groups] by (simp add: keys_distinct_def)
  have counted: "tc_request_count c = rows_of_type (tc_type c) groups" if "c \<in> set ?counts" for c
    using counted_types [OF groups(2) _ that] groups(3) fits by simp
  have "sum_list (map tc_request_count ?counts) = sum_list (map qh_request_count rows)"
    using types_total [OF keys types counted] groups(3) by simp
  then have total: "sum_list (map tc_request_count (sort_key ?key ?counts)) = sum_list (map qh_request_count rows)"
    by (simp add: sum_list_sort_key)
  have distinct: "distinct (map tc_type (sort_key ?key ?counts))"
    using row_at_reorder(1) [OF keys, of "sort_key ?key ?counts"] by (simp add: keys_distinct_def)
  have "sorted (map ?key (sort_key ?key ?counts))" by simp
  then have "sorted_wrt (\<lambda>x y. tc_request_count y \<le> tc_request_count x) (sort_key ?key ?counts)"
    by (auto simp: sorted_map less_eq_lexpair_def elim: sorted_wrt_mono_rel [rotated])
  with run total distinct counted groups(4) show ?thesis by (intro exI [of _ ?types]) simp
qed

lemma RequestStats_ok:
  assumes range: "resolveRange ul now q = Inr r" and rows: "rows = stats_between (qr_from r) (qr_to r) (committed w)"
    and clean: "faults w = []" and check: "\<forall>x\<in>set rows. stat_check x"
    and fits: "sum_list (map qh_request_count rows) \<le> MaxInt64" "sum_list (map qh_total_duration_ms rows) \<le> MaxInt64"
  shows "\<exists>series. run_state (RequestStats pg fl ul now q) w = (Inr series, w) \<and>
    sum_list (map sq_request_count (sy_points series)) = sum_list (map qh_request_count rows) \<and>
    sorted_wrt (<) (map sq_bucket (sy_points series))"
proof -
  let ?bucket = "stats_bucket pg (qr_interval r)"
  let ?buckets = "sort (remdups (map ?bucket rows))"
  let ?groups = "map (\<lambda>b. stats_row b (filter (\<lambda>x. ?bucket x = b) rows)) ?buckets"
  let ?series = "\<lparr> sy_from = qr_from r, sy_to = qr_to r, sy_interval = qr_interval r, sy_points = map (series_point fl) ?groups \<rparr>"
  have "text_ok ''hour''" "text_ok ''day''" by code_simp+
  then have "text_ok (qr_interval r)" using resolveRange_sound(3) [OF range] by auto
  from ListRequestStats_ok [OF rows this check fits, of pg]
  have run: "run_state (RequestStats pg fl ul now q) w = (Inr ?series, w)"
    using range clean by (simp add: RequestStats_def run_simps)
  have total: "sum_list (map sq_request_count (map (series_point fl) ?groups)) = sum_list (map qh_request_count rows)"
    using series_total [of ?bucket rows] by (simp add: comp_def series_point_def)
  have "map sq_bucket (map (series_point fl) ?groups) = ?buckets"
    by (simp add: comp_def series_point_def stats_row_def)
  then have "sorted_wrt (<) (map sq_bucket (map (series_point fl) ?groups))" by (simp add: strict_sorted_iff)
  with run total show ?thesis by (intro exI [of _ ?series]) simp
qed

end
