(* ===== verification/Auth_Queries.thy ===== *)
theory Auth_Queries
  imports Sync_Queries
begin

text \<open>
  The statements of \<open>internal/store/db/auth.sql.go\<close>, with the constraints of the account
  tables in \<open>db/migrations\<close>: an email is stored in the form \<open>lower(email)\<close> and is unique in
  that form, the provider of an identity is \<open>google\<close>, an account has one password, one identity
  per provider, and every row of an account goes with the account (\<open>ON DELETE CASCADE\<close>).

  \<open>lower\<close> depends on the locale of the server: it is the argument \<open>pl\<close>. \<open>now\<close> is the server's
  \<open>now()\<close>. PostgreSQL tests \<open>CHECK\<close> clauses before unique indexes and those before foreign
  keys. \<open>FOR UPDATE\<close> locks rows until the end of the transaction; transactions here run one
  after the other.
\<close>

type_synonym lower = "string \<Rightarrow> string"

definition CountUserIdentities :: "uuid \<Rightarrow> int stmt" where
  "CountUserIdentities user_id d = (Inr (int (length (filter (\<lambda>r. id_user_id r = user_id) (identities d)))), d)"

definition insert_user :: "lower \<Rightarrow> UserRow \<Rightarrow> UserRow stmt" where
  "insert_user pl r d =
     (if \<not> text_ok (us_email r) then (Inl InvalidText, d)
      else if us_email r \<noteq> pl (us_email r) \<or> us_user_role r \<notin> {''user'', ''admin''} then (Inl CheckViolation, d)
      else if exists_row (\<lambda>x. us_id x = us_id r \<or> pl (us_email x) = pl (us_email r)) (users d)
      then (Inl UniqueViolation, d)
      else (Inr r, d\<lparr>users := users d @ [r]\<rparr>))"

definition CreateAdminUser :: "lower \<Rightarrow> time \<Rightarrow> uuid \<Rightarrow> string \<Rightarrow> UserRow stmt" where
  "CreateAdminUser pl now i email =
     insert_user pl \<lparr> us_id = i, us_email = email, us_email_verified_at = Some now, us_created_at = now,
       us_updated_at = now, us_user_role = ''admin'' \<rparr>"

definition CreateIdentity :: "time \<Rightarrow> uuid \<Rightarrow> uuid \<Rightarrow> string \<Rightarrow> string \<Rightarrow> string option \<Rightarrow> unit stmt" where
  "CreateIdentity now i user_id provider subject email d =
     (if \<not> text_ok provider \<or> \<not> text_ok subject \<or> (case email of None \<Rightarrow> False | Some m \<Rightarrow> \<not> text_ok m)
      then (Inl InvalidText, d)
      else if provider \<noteq> ''google'' then (Inl CheckViolation, d)
      else if exists_row (\<lambda>x. id_id x = i \<or> (id_provider x = provider \<and> id_subject x = subject) \<or>
                (id_user_id x = user_id \<and> id_provider x = provider)) (identities d)
      then (Inl UniqueViolation, d)
      else if \<not> user_exists user_id d then (Inl ForeignKeyViolation, d)
      else (Inr (), d\<lparr>identities := identities d @
        [\<lparr> id_id = i, id_user_id = user_id, id_provider = provider, id_subject = subject,
           id_email = email, id_created_at = now \<rparr>]\<rparr>))"

definition CreateOneTimeToken :: "time \<Rightarrow> uuid \<Rightarrow> uuid \<Rightarrow> string \<Rightarrow> string \<Rightarrow> time \<Rightarrow> unit stmt" where
  "CreateOneTimeToken now i user_id kind token_hash expires_at d =
     (if kind \<notin> {''verify_email'', ''reset_password''} then (Inl CheckViolation, d)
      else if exists_row (\<lambda>x. ot_id x = i \<or> ot_token_hash x = token_hash) (one_time_tokens d)
      then (Inl UniqueViolation, d)
      else if \<not> user_exists user_id d then (Inl ForeignKeyViolation, d)
      else (Inr (), d\<lparr>one_time_tokens := one_time_tokens d @
        [\<lparr> ot_id = i, ot_user_id = user_id, ot_kind = kind, ot_token_hash = token_hash,
           ot_expires_at = expires_at, ot_used_at = None, ot_created_at = now \<rparr>]\<rparr>))"

definition CreatePasswordCredential :: "time \<Rightarrow> uuid \<Rightarrow> string \<Rightarrow> unit stmt" where
  "CreatePasswordCredential now user_id password_hash d =
     (if \<not> text_ok password_hash then (Inl InvalidText, d)
      else if exists_row (\<lambda>x. pc_user_id x = user_id) (password_credentials d) then (Inl UniqueViolation, d)
      else if \<not> user_exists user_id d then (Inl ForeignKeyViolation, d)
      else (Inr (), d\<lparr>password_credentials := password_credentials d @
        [\<lparr> pc_user_id = user_id, pc_password_hash = password_hash, pc_updated_at = now \<rparr>]\<rparr>))"

definition CreateRefreshToken :: "time \<Rightarrow> uuid \<Rightarrow> uuid \<Rightarrow> uuid \<Rightarrow> string \<Rightarrow> time \<Rightarrow> unit stmt" where
  "CreateRefreshToken now i family_id user_id token_hash expires_at d =
     (if exists_row (\<lambda>x. rt_id x = i \<or> rt_token_hash x = token_hash) (refresh_tokens d)
      then (Inl UniqueViolation, d)
      else if \<not> user_exists user_id d then (Inl ForeignKeyViolation, d)
      else (Inr (), d\<lparr>refresh_tokens := refresh_tokens d @
        [\<lparr> rt_id = i, rt_family_id = family_id, rt_user_id = user_id, rt_token_hash = token_hash,
           rt_expires_at = expires_at, rt_used_at = None, rt_revoked_at = None, rt_created_at = now \<rparr>]\<rparr>))"

definition CreateUser :: "lower \<Rightarrow> time \<Rightarrow> uuid \<Rightarrow> string \<Rightarrow> UserRow stmt" where
  "CreateUser pl now i email =
     insert_user pl \<lparr> us_id = i, us_email = email, us_email_verified_at = None, us_created_at = now,
       us_updated_at = now, us_user_role = ''user'' \<rparr>"

definition DeletePasswordCredential :: "uuid \<Rightarrow> unit stmt" where
  "DeletePasswordCredential user_id d =
     (Inr (), d\<lparr>password_credentials := delete_where (\<lambda>r. pc_user_id r = user_id) (password_credentials d)\<rparr>)"

text \<open>
  The row and, by cascade, every row of every table that refers to it. When there is no such
  account, nothing refers to it and nothing is deleted.
\<close>

definition cascade :: "uuid \<Rightarrow> db \<Rightarrow> db" where
  "cascade i d = d\<lparr>
     users := delete_where (\<lambda>r. us_id r = i) (users d),
     password_credentials := delete_where (\<lambda>r. pc_user_id r = i) (password_credentials d),
     identities := delete_where (\<lambda>r. id_user_id r = i) (identities d),
     refresh_tokens := delete_where (\<lambda>r. rt_user_id r = i) (refresh_tokens d),
     one_time_tokens := delete_where (\<lambda>r. ot_user_id r = i) (one_time_tokens d),
     devices := delete_where (\<lambda>r. dv_user_id r = i) (devices d),
     cube_sessions := delete_where (\<lambda>r. cs_user_id r = i) (cube_sessions d),
     solves := delete_where (\<lambda>r. sf_user_id r = i) (solves d),
     processed_mutations := delete_where (\<lambda>r. pm_user_id r = i) (processed_mutations d),
     change_log := delete_where (\<lambda>r. cl_user_id r = i) (change_log d)\<rparr>"

definition DeleteUser :: "uuid \<Rightarrow> unit stmt" where
  "DeleteUser i d = (Inr (), if user_exists i d then cascade i d else d)"

text \<open>The answer of a \<open>:one\<close> query: its first row.\<close>

definition first_row :: "'a option \<Rightarrow> db \<Rightarrow> (pgerror + 'a) \<times> db" where
  "first_row r d = (case r of None \<Rightarrow> (Inl ErrNoRows, d) | Some x \<Rightarrow> (Inr x, d))"

definition GetOneTimeTokenForUpdate :: "string \<Rightarrow> string \<Rightarrow> OneTimeToken stmt" where
  "GetOneTimeTokenForUpdate token_hash kind d =
     first_row (List.find (\<lambda>r. ot_token_hash r = token_hash \<and> ot_kind r = kind) (one_time_tokens d)) d"

record GetPasswordCredentialByEmailRow =
  gp_id :: uuid
  gp_email :: string
  gp_email_verified_at :: "time option"
  gp_user_role :: string
  gp_password_hash :: string

definition GetPasswordCredentialByEmail :: "lower \<Rightarrow> string \<Rightarrow> GetPasswordCredentialByEmailRow stmt" where
  "GetPasswordCredentialByEmail pl email d =
     (if \<not> text_ok email then (Inl InvalidText, d)
      else first_row (map_option
        (\<lambda>(u, p). \<lparr> gp_id = us_id u, gp_email = us_email u, gp_email_verified_at = us_email_verified_at u,
           gp_user_role = us_user_role u, gp_password_hash = pc_password_hash p \<rparr>)
        (List.find (\<lambda>(u, p). pc_user_id p = us_id u \<and> us_email u = pl email)
          (List.product (users d) (password_credentials d)))) d)"

definition GetPasswordCredentialByUserID :: "uuid \<Rightarrow> PasswordCredential stmt" where
  "GetPasswordCredentialByUserID user_id d =
     first_row (List.find (\<lambda>r. pc_user_id r = user_id) (password_credentials d)) d"

definition GetRefreshTokenForUpdate :: "string \<Rightarrow> RefreshToken stmt" where
  "GetRefreshTokenForUpdate token_hash d =
     first_row (List.find (\<lambda>r. rt_token_hash r = token_hash) (refresh_tokens d)) d"

definition GetUserByEmail :: "lower \<Rightarrow> string \<Rightarrow> UserRow stmt" where
  "GetUserByEmail pl email d =
     (if \<not> text_ok email then (Inl InvalidText, d)
      else first_row (List.find (\<lambda>r. us_email r = pl email) (users d)) d)"

definition GetUserByEmailForUpdate :: "lower \<Rightarrow> string \<Rightarrow> UserRow stmt" where
  "GetUserByEmailForUpdate pl email d =
     (if \<not> text_ok email then (Inl InvalidText, d)
      else first_row (List.find (\<lambda>r. us_email r = pl email) (users d)) d)"

definition GetUserByID :: "uuid \<Rightarrow> UserRow stmt" where
  "GetUserByID i d = first_row (List.find (\<lambda>r. us_id r = i) (users d)) d"

definition GetUserByIdentity :: "string \<Rightarrow> string \<Rightarrow> UserRow stmt" where
  "GetUserByIdentity provider subject d =
     (if \<not> text_ok provider \<or> \<not> text_ok subject then (Inl InvalidText, d)
      else first_row (map_option snd
        (List.find (\<lambda>(i, u). us_id u = id_user_id i \<and> id_provider i = provider \<and> id_subject i = subject)
          (List.product (identities d) (users d)))) d)"

definition InvalidateUserOneTimeTokens :: "time \<Rightarrow> uuid \<Rightarrow> string \<Rightarrow> unit stmt" where
  "InvalidateUserOneTimeTokens now user_id kind d =
     (Inr (), d\<lparr>one_time_tokens := update_where (\<lambda>r. ot_user_id r = user_id \<and> ot_kind r = kind \<and> ot_used_at r = None)
        (\<lambda>r. r\<lparr>ot_used_at := Some now\<rparr>) (one_time_tokens d)\<rparr>)"

definition MarkOneTimeTokenUsed :: "time \<Rightarrow> uuid \<Rightarrow> unit stmt" where
  "MarkOneTimeTokenUsed now i d =
     (Inr (), d\<lparr>one_time_tokens := update_where (\<lambda>r. ot_id r = i \<and> ot_used_at r = None)
        (\<lambda>r. r\<lparr>ot_used_at := Some now\<rparr>) (one_time_tokens d)\<rparr>)"

definition MarkRefreshTokenUsed :: "time \<Rightarrow> uuid \<Rightarrow> unit stmt" where
  "MarkRefreshTokenUsed now i d =
     (Inr (), d\<lparr>refresh_tokens := update_where (\<lambda>r. rt_id r = i \<and> rt_used_at r = None)
        (\<lambda>r. r\<lparr>rt_used_at := Some now\<rparr>) (refresh_tokens d)\<rparr>)"

definition revoke_where :: "time \<Rightarrow> (RefreshToken \<Rightarrow> bool) \<Rightarrow> db \<Rightarrow> db" where
  "revoke_where now P d =
     d\<lparr>refresh_tokens := update_where (\<lambda>r. P r \<and> rt_revoked_at r = None)
        (\<lambda>r. r\<lparr>rt_revoked_at := Some now\<rparr>) (refresh_tokens d)\<rparr>"

definition RevokeAllUserRefreshTokens :: "time \<Rightarrow> uuid \<Rightarrow> unit stmt" where
  "RevokeAllUserRefreshTokens now user_id d = (Inr (), revoke_where now (\<lambda>r. rt_user_id r = user_id) d)"

definition RevokeRefreshFamily :: "time \<Rightarrow> uuid \<Rightarrow> unit stmt" where
  "RevokeRefreshFamily now family_id d = (Inr (), revoke_where now (\<lambda>r. rt_family_id r = family_id) d)"

definition RevokeRefreshToken :: "time \<Rightarrow> string \<Rightarrow> unit stmt" where
  "RevokeRefreshToken now token_hash d = (Inr (), revoke_where now (\<lambda>r. rt_token_hash r = token_hash) d)"

definition SetUserEmailVerified :: "time \<Rightarrow> uuid \<Rightarrow> unit stmt" where
  "SetUserEmailVerified now i d =
     (Inr (), d\<lparr>users := update_where (\<lambda>r. us_id r = i)
        (\<lambda>r. r\<lparr>us_email_verified_at := Some (case us_email_verified_at r of None \<Rightarrow> now | Some t \<Rightarrow> t),
               us_updated_at := now\<rparr>) (users d)\<rparr>)"

definition UpsertPasswordCredential :: "time \<Rightarrow> uuid \<Rightarrow> string \<Rightarrow> unit stmt" where
  "UpsertPasswordCredential now user_id password_hash d =
     (if \<not> text_ok password_hash then (Inl InvalidText, d)
      else if exists_row (\<lambda>x. pc_user_id x = user_id) (password_credentials d)
      then (Inr (), d\<lparr>password_credentials := update_where (\<lambda>r. pc_user_id r = user_id)
              (\<lambda>r. r\<lparr>pc_password_hash := password_hash, pc_updated_at := now\<rparr>) (password_credentials d)\<rparr>)
      else if \<not> user_exists user_id d then (Inl ForeignKeyViolation, d)
      else (Inr (), d\<lparr>password_credentials := password_credentials d @
        [\<lparr> pc_user_id = user_id, pc_password_hash = password_hash, pc_updated_at = now \<rparr>]\<rparr>))"

lemmas auth_query_defs =
  CountUserIdentities_def CreateAdminUser_def CreateUser_def insert_user_def CreateIdentity_def
  CreateOneTimeToken_def CreatePasswordCredential_def CreateRefreshToken_def
  DeletePasswordCredential_def DeleteUser_def GetOneTimeTokenForUpdate_def
  GetPasswordCredentialByEmail_def GetPasswordCredentialByUserID_def GetRefreshTokenForUpdate_def
  GetUserByEmail_def GetUserByEmailForUpdate_def GetUserByID_def GetUserByIdentity_def
  InvalidateUserOneTimeTokens_def MarkOneTimeTokenUsed_def MarkRefreshTokenUsed_def
  RevokeAllUserRefreshTokens_def RevokeRefreshFamily_def RevokeRefreshToken_def
  SetUserEmailVerified_def UpsertPasswordCredential_def first_row_def

end
