(* ===== verification/Auth_Crypto.thy ===== *)
theory Auth_Crypto
  imports Models Go_Text
begin

text \<open>
  \<open>internal/auth/password.go\<close> and \<open>internal/auth/tokens.go\<close>.

  SHA-256, Argon2id, the JWT library and the text form of UUIDs are not part of the program:
  they are the fields of \<open>crypto\<close>, arguments of the definitions that use them. What the
  properties rely on of them are the predicates \<open>argon2_ok\<close> and \<open>jwt_ok\<close>. \<open>IDKey\<close> answers
  \<open>None\<close> where the library panics, \<open>ParseWithClaims\<close> where it returns an error; the key
  function it is given maps the signing method of a token to the key or refuses it.
\<close>

record AccessClaims =
  ac_email_verified :: bool
  ac_user_role :: string
  ac_issuer :: string
  ac_subject :: string
  ac_audience :: "string list"
  ac_expires_at :: "time option"
  ac_issued_at :: "time option"
  ac_not_before :: "time option"
  ac_id :: string

record crypto =
  Sum256 :: "string \<Rightarrow> string"
  IDKey :: "string \<Rightarrow> string \<Rightarrow> int \<Rightarrow> int \<Rightarrow> int \<Rightarrow> int \<Rightarrow> string option"
  NewNumericDate :: "time \<Rightarrow> time"
  SignedString :: "string \<Rightarrow> AccessClaims \<Rightarrow> string option"
  ParseWithClaims :: "time \<Rightarrow> string \<Rightarrow> (string \<Rightarrow> string option) \<Rightarrow> string \<Rightarrow> string \<Rightarrow> (AccessClaims \<times> bool) option"
  UUIDString :: "uuid \<Rightarrow> string"
  UUIDParse :: "string \<Rightarrow> uuid option"


subsection \<open>Passwords\<close>

definition argonMemory :: int where "argonMemory = 64 * 1024"
definition argonIterations :: int where "argonIterations = 3"
definition argonParallelism :: int where "argonParallelism = 2"
definition argonKeyLength :: int where "argonKeyLength = 32"

text \<open>
  \<open>salt\<close> is what \<open>rand.Read\<close> delivered into the buffer of sixteen bytes, or the
  error it returned.
\<close>

definition hashPasswordInternal :: "crypto \<Rightarrow> error + string \<Rightarrow> string \<Rightarrow> error + string" where
  "hashPasswordInternal c salt password =
     (case salt of
        Inl err \<Rightarrow> Inl err
      | Inr salt \<Rightarrow>
          (case IDKey c password salt argonIterations argonMemory argonParallelism argonKeyLength of
             None \<Rightarrow> Inl GoPanic
           | Some hash \<Rightarrow>
               Inr (''$argon2id$v=19$m='' @ Sprint_d argonMemory @ '',t='' @ Sprint_d argonIterations @
                 '',p='' @ Sprint_d argonParallelism @ ''$'' @ EncodeToString StdAlphabet salt @ ''$'' @
                 EncodeToString StdAlphabet hash)))"

text \<open>
  The semaphore of \<open>hashPassword\<close> and \<open>verifyPassword\<close> either admits the caller or the
  context ends first with an error: \<open>slot\<close>.
\<close>

definition hashPassword :: "crypto \<Rightarrow> error option \<Rightarrow> error + string \<Rightarrow> string \<Rightarrow> error + string" where
  "hashPassword c slot salt password =
     (case slot of Some err \<Rightarrow> Inl err | None \<Rightarrow> hashPasswordInternal c salt password)"

text \<open>The format \<open>m=%d,t=%d,p=%d\<close>; input after the last number is not read.\<close>

definition scan_argon_params :: "string \<Rightarrow> (int \<times> int \<times> int) option" where
  "scan_argon_params s =
     (case scan_literal ''m='' s of None \<Rightarrow> None | Some s1 \<Rightarrow>
      case scan_uint 32 s1 of None \<Rightarrow> None | Some (memory, s2) \<Rightarrow>
      case scan_literal '',t='' s2 of None \<Rightarrow> None | Some s3 \<Rightarrow>
      case scan_uint 32 s3 of None \<Rightarrow> None | Some (iterations, s4) \<Rightarrow>
      case scan_literal '',p='' s4 of None \<Rightarrow> None | Some s5 \<Rightarrow>
      case scan_uint 8 s5 of None \<Rightarrow> None | Some (parallelism, _) \<Rightarrow> Some (memory, iterations, parallelism))"

definition verifyPasswordInternal :: "crypto \<Rightarrow> string \<Rightarrow> string \<Rightarrow> error + bool" where
  "verifyPasswordInternal c password encoded =
     (let parts = Split CHR ''$'' encoded in
      if length parts \<noteq> 6 \<or> parts ! 1 \<noteq> ''argon2id'' \<or> parts ! 2 \<noteq> ''v=19''
      then Inl (OtherError ''invalid password hash format'')
      else case scan_argon_params (parts ! 3) of
        None \<Rightarrow> Inl (OtherError ''scan'')
      | Some (memory, iterations, parallelism) \<Rightarrow>
          (case DecodeString StdAlphabet (parts ! 4) of
             None \<Rightarrow> Inl (OtherError ''base64'')
           | Some salt \<Rightarrow>
               (case DecodeString StdAlphabet (parts ! 5) of
                  None \<Rightarrow> Inl (OtherError ''base64'')
                | Some expected \<Rightarrow>
                    (case IDKey c password salt iterations memory parallelism (int (length expected) mod 2 ^ 32) of
                       None \<Rightarrow> Inl GoPanic
                     | Some actual \<Rightarrow> Inr (actual = expected)))))"

definition verifyPassword :: "crypto \<Rightarrow> error option \<Rightarrow> string \<Rightarrow> string \<Rightarrow> error + bool" where
  "verifyPassword c slot password encoded =
     (case slot of Some err \<Rightarrow> Inl err | None \<Rightarrow> verifyPasswordInternal c password encoded)"

text \<open>The message of the error, if the password is refused.\<close>

definition validatePassword :: "string \<Rightarrow> string option" where
  "validatePassword password =
     (if length password < 10 then Some ''password must contain at least 10 characters''
      else if 128 < length password then Some ''password cannot exceed 128 characters''
      else None)"


subsection \<open>Tokens\<close>

definition RoleUser :: string where "RoleUser = ''user''"
definition RoleAdmin :: string where "RoleAdmin = ''admin''"

record TokenManager =
  tm_secret :: string
  tm_issuer :: string
  tm_lifetime :: duration

definition clientsAudience :: string where
  "clientsAudience = ''cubetimer-clients''"

text \<open>\<open>jti\<close> is the result of \<open>uuid.NewString()\<close>.\<close>

definition access_claims :: "crypto \<Rightarrow> TokenManager \<Rightarrow> time \<Rightarrow> string \<Rightarrow> uuid \<Rightarrow> bool \<Rightarrow> string \<Rightarrow> AccessClaims" where
  "access_claims c m now jti userID emailVerified role =
     \<lparr> ac_email_verified = emailVerified, ac_user_role = (if role = [] then RoleUser else role),
       ac_issuer = tm_issuer m, ac_subject = UUIDString c userID, ac_audience = [clientsAudience],
       ac_expires_at = Some (NewNumericDate c (now + tm_lifetime m)),
       ac_issued_at = Some (NewNumericDate c now),
       ac_not_before = Some (NewNumericDate c (now - 5 * Second)), ac_id = jti \<rparr>"

definition IssueAccessToken ::
  "crypto \<Rightarrow> TokenManager \<Rightarrow> time \<Rightarrow> string \<Rightarrow> uuid \<Rightarrow> bool \<Rightarrow> string \<Rightarrow> error + string \<times> time" where
  "IssueAccessToken c m now jti userID emailVerified role =
     (case SignedString c (tm_secret m) (access_claims c m now jti userID emailVerified role) of
        None \<Rightarrow> Inl (OtherError ''sign token'')
      | Some raw \<Rightarrow> Inr (raw, now + tm_lifetime m))"

definition ParseAccessToken :: "crypto \<Rightarrow> TokenManager \<Rightarrow> time \<Rightarrow> string \<Rightarrow> error + uuid \<times> AccessClaims" where
  "ParseAccessToken c m now raw =
     (case ParseWithClaims c now raw (\<lambda>alg. if alg \<noteq> ''HS256'' then None else Some (tm_secret m))
             (tm_issuer m) clientsAudience of
        None \<Rightarrow> Inl (OtherError ''parse access token'')
      | Some (claims, valid) \<Rightarrow>
          if \<not> valid then Inl (OtherError ''invalid access token'')
          else case UUIDParse c (ac_subject claims) of
            None \<Rightarrow> Inl (OtherError ''invalid access token subject'')
          | Some userID \<Rightarrow>
              Inr (userID, if ac_user_role claims = [] then claims\<lparr>ac_user_role := RoleUser\<rparr> else claims))"

text \<open>\<open>bytes\<close> is what \<open>rand.Read\<close> delivered into the buffer of 32 bytes, or its error.\<close>

definition tokenHash :: "crypto \<Rightarrow> string \<Rightarrow> string" where
  "tokenHash c raw = Sum256 c raw"

definition randomToken :: "crypto \<Rightarrow> error + string \<Rightarrow> error + string \<times> string" where
  "randomToken c bytes =
     (case bytes of
        Inl err \<Rightarrow> Inl err
      | Inr v \<Rightarrow> let raw = EncodeToString UrlAlphabet v in Inr (raw, Sum256 c raw))"


subsection \<open>What is relied on of the libraries\<close>

text \<open>Argon2id with one or more passes and lanes answers a key of the length asked for.\<close>

definition argon2_ok :: "crypto \<Rightarrow> bool" where
  "argon2_ok c \<longleftrightarrow> (\<forall>password salt iterations memory lanes len.
     1 \<le> iterations \<longrightarrow> 1 \<le> lanes \<longrightarrow> 0 \<le> len \<longrightarrow>
     (\<exists>key. IDKey c password salt iterations memory lanes len = Some key \<and> int (length key) = len))"

text \<open>
  The claims a parser accepts at a time: issuer and audience as asked for, an expiry in the
  future, and not before a time that has come.
\<close>

definition claims_hold :: "time \<Rightarrow> string \<Rightarrow> string \<Rightarrow> AccessClaims \<Rightarrow> bool" where
  "claims_hold now issuer audience claims \<longleftrightarrow>
     ac_issuer claims = issuer \<and> audience \<in> set (ac_audience claims) \<and>
     (case ac_expires_at claims of None \<Rightarrow> False | Some t \<Rightarrow> now < t) \<and>
     (case ac_not_before claims of None \<Rightarrow> True | Some t \<Rightarrow> t \<le> now)"

text \<open>
  A numeric date drops the fraction of the second, so that the dates of claims are whole
  seconds; the texts of claims are plain when they are ASCII, and dates are exact within
  \<open>2 ^ 53\<close> seconds. Whatever is parsed has claims that hold. A signed token is not empty. Of a token signed with a key, who
  has that key gets back the signed claims while they hold, and no claims at any other time. A
  UUID is read back from its text.
\<close>

definition plain_text :: "string \<Rightarrow> bool" where
  "plain_text s \<longleftrightarrow> list_all (\<lambda>ch. of_char ch < (128 :: nat)) s"

definition plain_date :: "time \<Rightarrow> bool" where
  "plain_date t \<longleftrightarrow> Second dvd t \<and> 0 \<le> t \<and> t < 2 ^ 53 * Second"

definition plain_claims :: "AccessClaims \<Rightarrow> bool" where
  "plain_claims claims \<longleftrightarrow>
     plain_text (ac_user_role claims) \<and> plain_text (ac_issuer claims) \<and> plain_text (ac_subject claims) \<and>
     list_all plain_text (ac_audience claims) \<and> plain_text (ac_id claims) \<and>
     pred_option plain_date (ac_expires_at claims) \<and> pred_option plain_date (ac_issued_at claims) \<and>
     pred_option plain_date (ac_not_before claims)"

definition jwt_ok :: "crypto \<Rightarrow> bool" where
  "jwt_ok c \<longleftrightarrow>
     (\<forall>t. NewNumericDate c t = t - t mod Second) \<and>
     (\<forall>now raw keyfunc issuer audience claims valid.
        ParseWithClaims c now raw keyfunc issuer audience = Some (claims, valid) \<longrightarrow>
        claims_hold now issuer audience claims) \<and>
     (\<forall>key claims. SignedString c key claims \<noteq> Some []) \<and>
     (\<forall>now raw key keyfunc issuer audience claims.
        SignedString c key claims = Some raw \<longrightarrow> plain_claims claims \<longrightarrow> keyfunc ''HS256'' = Some key \<longrightarrow>
        ParseWithClaims c now raw keyfunc issuer audience =
          (if claims_hold now issuer audience claims then Some (claims, True) else None)) \<and>
     (\<forall>u. UUIDParse c (UUIDString c u) = Some u \<and> plain_text (UUIDString c u))"


subsection \<open>Round trips\<close>

lemma digit_chars: "char_of (50 :: nat) = CHR ''2''" "char_of (51 :: nat) = CHR ''3''" "char_of (53 :: nat) = CHR ''5''" "char_of (54 :: nat) = CHR ''6''"
  by code_simp+

lemma argon_params_text: "Sprint_d argonMemory = ''65536''" "Sprint_d argonIterations = ''3''" "Sprint_d argonParallelism = ''2''"
  using digit_chars
  by (simp_all add: Sprint_d_def argonMemory_def argonIterations_def argonParallelism_def decimal.simps)

lemma scan_argon_text: "scan_argon_params ''m=65536,t=3,p=2'' = Some (argonMemory, argonIterations, argonParallelism)"
  by code_simp

lemma hashPasswordInternal_text [code]:
  "hashPasswordInternal c salt password =
     (case salt of
        Inl err \<Rightarrow> Inl err
      | Inr salt \<Rightarrow>
          (case IDKey c password salt argonIterations argonMemory argonParallelism argonKeyLength of
             None \<Rightarrow> Inl GoPanic
           | Some hash \<Rightarrow>
               Inr (''$argon2id$v=19$m=65536,t=3,p=2$'' @ EncodeToString StdAlphabet salt @ ''$'' @
                 EncodeToString StdAlphabet hash)))"
  by (simp add: hashPasswordInternal_def argon_params_text split: sum.split option.split)

lemma encoded_no_dollar: "CHR ''$'' \<notin> set (EncodeToString StdAlphabet bs)"
  using std.Encode_chars alphabet_no_dollar by blast

lemma encoded_parts:
  "Split CHR ''$'' (''$argon2id$v=19$m=65536,t=3,p=2$'' @ EncodeToString StdAlphabet salt @ ''$'' @ EncodeToString StdAlphabet hash) =
     [[], ''argon2id'', ''v=19'', ''m=65536,t=3,p=2'', EncodeToString StdAlphabet salt, EncodeToString StdAlphabet hash]"
proof -
  let ?ps = "[[], ''argon2id'', ''v=19'', ''m=65536,t=3,p=2'', EncodeToString StdAlphabet salt]"
  have "\<forall>p\<in>set ?ps. CHR ''$'' \<notin> set p" using encoded_no_dollar by simp
  from Split_parts [OF this encoded_no_dollar [of hash]] show ?thesis by (simp del: Split.simps)
qed

text \<open>A stored hash verifies a password exactly when it gives the key that was stored, under the stored salt.\<close>

lemma verify_hash:
  assumes "argon2_ok c" "hashPasswordInternal c (Inr salt) password = Inr encoded"
  shows "verifyPasswordInternal c attempt encoded =
    Inr (IDKey c attempt salt argonIterations argonMemory argonParallelism argonKeyLength =
         IDKey c password salt argonIterations argonMemory argonParallelism argonKeyLength)"
proof -
  have key: "\<exists>key. IDKey c p salt argonIterations argonMemory argonParallelism argonKeyLength = Some key \<and> length key = 32" for p
    using assms(1) [unfolded argon2_ok_def, rule_format, of argonIterations argonParallelism argonKeyLength p salt argonMemory]
    by (auto simp: argonIterations_def argonParallelism_def argonKeyLength_def)
  obtain hash where hash: "IDKey c password salt argonIterations argonMemory argonParallelism argonKeyLength = Some hash" "length hash = 32"
    using key by blast
  obtain key' where key': "IDKey c attempt salt argonIterations argonMemory argonParallelism argonKeyLength = Some key'"
    using key by blast
  have enc: "encoded = ''$argon2id$v=19$m=65536,t=3,p=2$'' @ EncodeToString StdAlphabet salt @ ''$'' @ EncodeToString StdAlphabet hash"
    using assms(2) hash by (simp add: hashPasswordInternal_text)
  show ?thesis
    unfolding verifyPasswordInternal_def Let_def enc encoded_parts
    using key' hash by (simp add: scan_argon_text std.Decode_Encode argonKeyLength_def)
qed

lemma numeric_date:
  assumes "jwt_ok c"
  shows "NewNumericDate c t \<le> t" "t < NewNumericDate c t + Second" "Second dvd NewNumericDate c t"
proof -
  have date: "NewNumericDate c t = t - t mod Second" using assms by (simp add: jwt_ok_def)
  have "0 \<le> t mod Second" "t mod Second < Second" by (simp_all add: Second_def)
  then show "NewNumericDate c t \<le> t" "t < NewNumericDate c t + Second" by (simp_all add: date)
  show "Second dvd NewNumericDate c t" by (simp add: date minus_mod_eq_mult_div)
qed

lemma plain_numeric_date:
  assumes "jwt_ok c" "0 \<le> t" "t < 2 ^ 53 * Second"
  shows "plain_date (NewNumericDate c t)"
proof -
  have "NewNumericDate c t = t - t mod Second" using assms(1) by (simp add: jwt_ok_def)
  then have "NewNumericDate c t = Second * (t div Second)" by (simp add: minus_mod_eq_mult_div)
  moreover have "0 \<le> t div Second" using assms(2) by (simp add: Second_def pos_imp_zdiv_nonneg_iff)
  ultimately show ?thesis
    using assms(3) numeric_date(1) [OF assms(1), of t] by (auto simp: plain_date_def Second_def)
qed

text \<open>The times of a token to be issued are in the range of exact dates.\<close>

definition date_range :: "TokenManager \<Rightarrow> time \<Rightarrow> bool" where
  "date_range m t \<longleftrightarrow> 5 * Second \<le> t \<and> t < 2 ^ 53 * Second \<and> 0 \<le> tm_lifetime m \<and> t + tm_lifetime m < 2 ^ 53 * Second"

lemma plain_access_claims:
  assumes "jwt_ok c" "date_range m t" "plain_text (tm_issuer m)" "plain_text jti" "plain_text role"
  shows "plain_claims (access_claims c m t jti u verified role)"
proof -
  have "plain_text clientsAudience" "plain_text RoleUser" by code_simp+
  moreover have "plain_date (NewNumericDate c (t + tm_lifetime m))" "plain_date (NewNumericDate c t)"
    "plain_date (NewNumericDate c (t - 5 * Second))"
    using assms(2) by (auto simp: date_range_def Second_def intro!: plain_numeric_date [OF assms(1)])
  moreover have "plain_text (UUIDString c u)" using assms(1) by (simp add: jwt_ok_def)
  ultimately show ?thesis using assms(3-5) by (simp add: plain_claims_def access_claims_def)
qed

lemma parse_issued:
  assumes "jwt_ok c" "IssueAccessToken c m t jti u verified role = Inr (raw, expires)"
    and "date_range m t" "plain_text (tm_issuer m)" "plain_text jti" "plain_text role"
  shows "ParseAccessToken c m now raw =
    (if NewNumericDate c (t - 5 * Second) \<le> now \<and> now < NewNumericDate c (t + tm_lifetime m)
     then Inr (u, access_claims c m t jti u verified role) else Inl (OtherError ''parse access token''))"
proof -
  let ?claims = "access_claims c m t jti u verified role"
  have signed: "SignedString c (tm_secret m) ?claims = Some raw"
    using assms(2) by (auto simp: IssueAccessToken_def split: option.splits)
  have "plain_claims ?claims" by (rule plain_access_claims [OF assms(1,3-6)])
  with assms(1) signed have "ParseWithClaims c now raw (\<lambda>alg. if alg \<noteq> ''HS256'' then None else Some (tm_secret m)) (tm_issuer m) clientsAudience =
      (if claims_hold now (tm_issuer m) clientsAudience ?claims then Some (?claims, True) else None)"
    unfolding jwt_ok_def by fastforce
  moreover have "claims_hold now (tm_issuer m) clientsAudience ?claims \<longleftrightarrow>
      NewNumericDate c (t - 5 * Second) \<le> now \<and> now < NewNumericDate c (t + tm_lifetime m)"
    by (auto simp: claims_hold_def access_claims_def)
  moreover have "UUIDParse c (ac_subject ?claims) = Some u" "ac_user_role ?claims \<noteq> []"
    using assms(1) by (auto simp: jwt_ok_def access_claims_def RoleUser_def)
  ultimately show ?thesis by (simp add: ParseAccessToken_def)
qed

lemma parse_holds:
  assumes "jwt_ok c" "ParseAccessToken c m now raw = Inr (u, claims)"
  shows "claims_hold now (tm_issuer m) clientsAudience claims \<and> ac_user_role claims \<noteq> []"
proof -
  obtain claims' valid where p: "ParseWithClaims c now raw (\<lambda>alg. if alg \<noteq> ''HS256'' then None else Some (tm_secret m))
      (tm_issuer m) clientsAudience = Some (claims', valid)"
    and c: "claims = (if ac_user_role claims' = [] then claims'\<lparr>ac_user_role := RoleUser\<rparr> else claims')"
    using assms(2) by (auto simp: ParseAccessToken_def split: option.splits if_splits)
  have "claims_hold now (tm_issuer m) clientsAudience claims'" using assms(1) p unfolding jwt_ok_def by blast
  with c show ?thesis by (auto simp: claims_hold_def RoleUser_def)
qed

end
