(* ===== verification/Federated.thy ===== *)
theory Federated
  imports Models Go_Text
begin

text \<open>
  \<open>internal/auth/federated.go\<close>: the verification of a Google identity.

  The OIDC and OAuth libraries and \<open>json.Unmarshal\<close> are the fields of \<open>oidc\<close>. \<open>VerifyIDToken\<close>
  checks signature, issuer and expiry of a raw token against the key set behind a URL and answers
  its payload; \<open>Claims\<close> decodes the payload; \<open>Exchange\<close> answers the \<open>id_token\<close> of the token
  response, \<open>Inl\<close> when the exchange fails and the empty string when there is none.
\<close>

record FederatedInput =
  fi_id_token :: string
  fi_code :: string
  fi_client_id :: string
  fi_redirect_uri :: string
  fi_code_verifier :: string
  fi_nonce :: string

record FederatedIdentity =
  fd_provider :: string
  fd_subject :: string
  fd_email :: string
  fd_email_verified :: bool

record IDClaims =
  ic_subject :: string
  ic_email :: string
  ic_email_verified :: string
  ic_nonce :: string
  ic_audience :: "string list"

record oauth_config =
  oc_client_id :: string
  oc_client_secret :: string
  oc_redirect_url :: string
  oc_auth_url :: string
  oc_token_url :: string
  oc_scopes :: "string list"

record oidc =
  VerifyIDToken :: "string \<Rightarrow> string \<Rightarrow> string \<Rightarrow> string option"
  Claims :: "string \<Rightarrow> IDClaims option"
  Exchange :: "oauth_config \<Rightarrow> string \<Rightarrow> string \<Rightarrow> string option"
  UnmarshalBool :: "string \<Rightarrow> bool option"
  UnmarshalString :: "string \<Rightarrow> string option"

record oidcProviderMetadata =
  pm_issuer :: string
  pm_jwks_url :: string

text \<open>A remote key set is represented by its URL.\<close>

record OIDCVerifier =
  ov_client_ids :: "string list"
  ov_client_secret :: string
  ov_providers :: "string \<Rightarrow> oidcProviderMetadata option"
  ov_key_sets :: "string \<Rightarrow> string option"

definition NewOIDCVerifier :: "string list \<Rightarrow> string \<Rightarrow> OIDCVerifier" where
  "NewOIDCVerifier google_client_ids google_client_secret =
     (let providers = [''google'' \<mapsto> \<lparr> pm_issuer = ''https://accounts.google.com'',
                        pm_jwks_url = ''https://www.googleapis.com/oauth2/v3/certs'' \<rparr>] in
      \<lparr> ov_client_ids = google_client_ids, ov_client_secret = google_client_secret,
        ov_providers = providers, ov_key_sets = (\<lambda>name. map_option pm_jwks_url (providers name)) \<rparr>)"

definition parseBooleanClaim :: "oidc \<Rightarrow> string \<Rightarrow> bool" where
  "parseBooleanClaim lib raw =
     (case UnmarshalBool lib raw of
        Some v \<Rightarrow> v
      | None \<Rightarrow> (case UnmarshalString lib raw of Some t \<Rightarrow> t = ''true'' | None \<Rightarrow> False))"

definition allowedClientIDs :: "OIDCVerifier \<Rightarrow> string \<Rightarrow> string list" where
  "allowedClientIDs v provider = (if provider = ''google'' then ov_client_ids v else [])"

definition exchangeCode :: "oidc \<Rightarrow> OIDCVerifier \<Rightarrow> string \<Rightarrow> FederatedInput \<Rightarrow> error + string" where
  "exchangeCode lib v provider input =
     (if fi_code input = [] \<or> fi_redirect_uri input = [] \<or> fi_code_verifier input = []
      then Inl (AuthError ''invalid_social_code'' ''code, redirect_uri, and code_verifier are required'')
      else if provider \<noteq> ''google'' then Inl (AuthError ''unsupported_provider'' ''provider must be google'')
      else case Exchange lib
             \<lparr> oc_client_id = fi_client_id input, oc_client_secret = ov_client_secret v,
               oc_redirect_url = fi_redirect_uri input,
               oc_auth_url = ''https://accounts.google.com/o/oauth2/v2/auth'',
               oc_token_url = ''https://oauth2.googleapis.com/token'',
               oc_scopes = [''openid'', ''email'', ''profile''] \<rparr> (fi_code input) (fi_code_verifier input) of
        None \<Rightarrow> Inl (AuthError ''invalid_social_code'' ''authorization code exchange failed'')
      | Some raw \<Rightarrow> Inr raw)"

text \<open>The raw token: the one sent, or the one the authorization code is exchanged for.\<close>

definition raw_id_token :: "oidc \<Rightarrow> OIDCVerifier \<Rightarrow> string \<Rightarrow> FederatedInput \<Rightarrow> error + string" where
  "raw_id_token lib v provider input =
     (if fi_id_token input = [] then exchangeCode lib v provider input else Inr (fi_id_token input))"

text \<open>The checks on the claims of a verified token.\<close>

definition identity_of_claims ::
  "(string \<Rightarrow> string) \<Rightarrow> oidc \<Rightarrow> string \<Rightarrow> FederatedInput \<Rightarrow> IDClaims \<Rightarrow> error + FederatedIdentity" where
  "identity_of_claims ul lib provider input claims =
     (if fi_client_id input \<notin> set (ic_audience claims) \<or> ic_nonce claims \<noteq> fi_nonce input
      then Inl (AuthError ''invalid_social_token'' ''identity token audience or nonce is invalid'')
      else if ic_subject claims = [] \<or> ic_email claims = [] \<or> \<not> parseBooleanClaim lib (ic_email_verified claims)
      then Inl (AuthError ''invalid_social_token'' ''provider must supply a verified email'')
      else Inr \<lparr> fd_provider = provider, fd_subject = ic_subject claims,
             fd_email = ToLower ul (TrimSpace (ic_email claims)), fd_email_verified = True \<rparr>)"

definition Verify ::
  "(string \<Rightarrow> string) \<Rightarrow> oidc \<Rightarrow> OIDCVerifier \<Rightarrow> string \<Rightarrow> FederatedInput \<Rightarrow> error + FederatedIdentity" where
  "Verify ul lib v provider input =
     (if fi_nonce input = [] then Inl (AuthError ''invalid_social_token'' ''nonce is required'')
      else if fi_client_id input = [] \<or> fi_client_id input \<notin> set (allowedClientIDs v provider)
      then Inl (AuthError ''invalid_social_token'' ''client_id is not allowed'')
      else case raw_id_token lib v provider input of
        Inl err \<Rightarrow> Inl err
      | Inr rawToken \<Rightarrow>
          if rawToken = [] then Inl (AuthError ''invalid_social_token'' ''id_token or code is required'')
          else case ov_providers v provider of
            None \<Rightarrow> Inl (AuthError ''unsupported_provider'' ''provider must be google'')
          | Some metadata \<Rightarrow>
              (let keySet = (case ov_key_sets v provider of Some k \<Rightarrow> k | None \<Rightarrow> pm_jwks_url metadata) in
               case VerifyIDToken lib (pm_issuer metadata) keySet rawToken of
                 None \<Rightarrow> Inl (OtherError ''verify id token'')
               | Some token \<Rightarrow>
                   (case Claims lib token of
                      None \<Rightarrow> Inl (AuthError ''invalid_social_token'' ''identity claims are invalid'')
                    | Some claims \<Rightarrow> identity_of_claims ul lib provider input claims)))"

text \<open>An identity is only ever what a verified token with the right audience and nonce says.\<close>

lemma Verify_sound:
  assumes "Verify ul lib (NewOIDCVerifier ids secret) provider input = Inr fid"
  shows "provider = ''google'' \<and> fi_nonce input \<noteq> [] \<and> fi_client_id input \<in> set ids \<and>
    (\<exists>raw token claims. raw_id_token lib (NewOIDCVerifier ids secret) provider input = Inr raw \<and>
       VerifyIDToken lib ''https://accounts.google.com'' ''https://www.googleapis.com/oauth2/v3/certs'' raw = Some token \<and>
       Claims lib token = Some claims \<and> fi_client_id input \<in> set (ic_audience claims) \<and> ic_nonce claims = fi_nonce input \<and>
       parseBooleanClaim lib (ic_email_verified claims) \<and> ic_subject claims \<noteq> [] \<and>
       fid = \<lparr> fd_provider = ''google'', fd_subject = ic_subject claims,
               fd_email = ToLower ul (TrimSpace (ic_email claims)), fd_email_verified = True \<rparr>)"
  using assms
  by (auto simp: Verify_def NewOIDCVerifier_def allowedClientIDs_def identity_of_claims_def Let_def
      split: if_splits sum.splits option.splits)

end
