(* ===== verification/Auth_Service.thy ===== *)
theory Auth_Service
  imports Auth_Queries Auth_Crypto Federated
begin

text \<open>
  \<open>internal/auth/service.go\<close>, operation by operation.

  \<open>auth_env\<close> is what one call gets from its surroundings: the two clocks, the random bytes and
  UUIDs it draws (one field for each call site), whether the password semaphore admits it before its
  context ends, the address parser, and what the mailer answers. The operations that send mail
  answer the mail they handed to the mailer beside their result.

  \<open>tx_try\<close> and \<open>pool_try\<close> are the pattern \<open>if err != nil { return err }\<close> after a statement, inside
  a transaction (whose deferred rollback then runs) and on the pool.
\<close>

datatype Mail = VerificationMail (mail_to: string) (mail_token: string) | PasswordResetMail (mail_to: string) (mail_token: string)

record auth_env =
  ae_now :: time
  ae_db_now :: time
  ae_pg_lower :: lower
  ae_unicode_lower :: "string \<Rightarrow> string"
  ae_parse_address :: "string \<Rightarrow> string option"
  ae_crypto :: crypto
  ae_salt :: "error + string"
  ae_dummy_salt :: "error + string"
  ae_token_bytes :: "error + string"
  ae_user_uuid :: uuid
  ae_token_uuid :: uuid
  ae_family_uuid :: uuid
  ae_identity_uuid :: uuid
  ae_jti :: string
  ae_hash_slot :: "error option"
  ae_verify_slot :: "error option"
  ae_deliver :: "Mail \<Rightarrow> error option"

record AuthService =
  as_tokens :: TokenManager
  as_access_ttl :: duration
  as_refresh_ttl :: duration
  as_federated :: "string \<Rightarrow> FederatedInput \<Rightarrow> error + FederatedIdentity"

record AuthUser =
  au_id :: uuid
  au_email :: string
  au_email_verified :: bool
  au_user_role :: string

record AuthSession =
  an_access_token :: string
  an_refresh_token :: string
  an_token_type :: string
  an_expires_in :: int
  an_user :: AuthUser

definition verificationTokenTTL :: duration where "verificationTokenTTL = 24 * Hour"
definition passwordResetTTL :: duration where "passwordResetTTL = Hour"
definition refreshReuseGrace :: duration where "refreshReuseGrace = 30 * Second"

definition invalidCredentials :: error where
  "invalidCredentials = AuthError ''invalid_credentials'' ''email or password is incorrect''"

definition invalidRefreshToken :: error where
  "invalidRefreshToken = AuthError ''invalid_refresh_token'' ''refresh token is invalid or expired''"

definition invalidToken :: error where
  "invalidToken = AuthError ''invalid_token'' ''token is invalid or expired''"

definition linkRequired :: error where
  "linkRequired = AuthError ''account_link_required'' ''sign in to the existing account, then link this provider''"

definition tx_try :: "(tx, pgerror + 'a) state \<Rightarrow> ('a \<Rightarrow> (tx, 'b tx_end) state) \<Rightarrow> (tx, 'b tx_end) state" where
  "tx_try m k = do { r \<leftarrow> m; case r of Inl err \<Rightarrow> State_Monad.return (RolledBack (PgError err)) | Inr x \<Rightarrow> k x }"

definition pool_try ::
  "(world, pgerror + 'a) state \<Rightarrow> ('a \<Rightarrow> (world, error + 'b) state) \<Rightarrow> (world, error + 'b) state" where
  "pool_try m k = do { r \<leftarrow> m; case r of Inl err \<Rightarrow> State_Monad.return (Inl (PgError err)) | Inr x \<Rightarrow> k x }"

definition userFromDB :: "UserRow \<Rightarrow> AuthUser" where
  "userFromDB row =
     \<lparr> au_id = us_id row, au_email = us_email row, au_email_verified = (us_email_verified_at row \<noteq> None),
       au_user_role = (if us_user_role row = [] then RoleUser else us_user_role row) \<rparr>"

definition normalizeEmail :: "auth_env \<Rightarrow> string \<Rightarrow> string" where
  "normalizeEmail e v = ToLower (ae_unicode_lower e) (TrimSpace v)"

definition validEmail :: "auth_env \<Rightarrow> string \<Rightarrow> bool" where
  "validEmail e v \<longleftrightarrow> ae_parse_address e v = Some v \<and> length v \<le> 254"


subsection \<open>Sessions\<close>

text \<open>The seconds of a duration, truncated towards zero.\<close>

definition whole_secs :: "duration \<Rightarrow> int" where
  "whole_secs x = (if x < 0 then - ((- x) div Second) else x div Second)"

definition issueSessionWithQueries ::
  "AuthService \<Rightarrow> auth_env \<Rightarrow> AuthUser \<Rightarrow> uuid \<Rightarrow> (tx, error + AuthSession) state" where
  "issueSessionWithQueries s e user familyID =
     (case IssueAccessToken (ae_crypto e) (as_tokens s) (ae_now e) (ae_jti e)
             (au_id user) (au_email_verified user) (au_user_role user) of
        Inl err \<Rightarrow> State_Monad.return (Inl err)
      | Inr (access, _) \<Rightarrow>
          (case randomToken (ae_crypto e) (ae_token_bytes e) of
             Inl err \<Rightarrow> State_Monad.return (Inl err)
           | Inr (refresh, hash) \<Rightarrow> do {
               r \<leftarrow> exec (CreateRefreshToken (ae_db_now e) (ae_token_uuid e) familyID (au_id user) hash
                      (ae_now e + as_refresh_ttl s));
               case r of
                 Inl err \<Rightarrow> State_Monad.return (Inl (PgError err))
               | Inr _ \<Rightarrow> State_Monad.return (Inr
                   \<lparr> an_access_token = access, an_refresh_token = refresh, an_token_type = ''Bearer'',
                     an_expires_in = whole_secs (as_access_ttl s), an_user = user \<rparr>)
             }))"

text \<open>\<open>session, err := s.issueSessionWithQueries(...)\<close>, return on error, commit, return the session.\<close>

definition commit_session ::
  "AuthService \<Rightarrow> auth_env \<Rightarrow> AuthUser \<Rightarrow> uuid \<Rightarrow> (tx, AuthSession tx_end) state" where
  "commit_session s e user familyID = do {
     r \<leftarrow> issueSessionWithQueries s e user familyID;
     case r of
       Inl err \<Rightarrow> State_Monad.return (RolledBack err)
     | Inr session \<Rightarrow> State_Monad.return (Commits (Inr session))
   }"

definition issueSession :: "AuthService \<Rightarrow> auth_env \<Rightarrow> AuthUser \<Rightarrow> (world, error + AuthSession) state" where
  "issueSession s e user = in_tx (commit_session s e user (ae_family_uuid e))"


subsection \<open>Registration and one-time tokens\<close>

text \<open>What \<open>Register\<close> and \<open>CreateAdmin\<close> do before they touch the database.\<close>

definition new_credentials :: "auth_env \<Rightarrow> string \<Rightarrow> string \<Rightarrow> error + string" where
  "new_credentials e email password =
     (if \<not> validEmail e email then Inl (AuthError ''invalid_email'' ''email address is invalid'')
      else case validatePassword password of
        Some msg \<Rightarrow> Inl (AuthError ''invalid_password'' msg)
      | None \<Rightarrow> hashPassword (ae_crypto e) (ae_hash_slot e) (ae_salt e) password)"

text \<open>\<open>CreateUser\<close> or \<open>CreateAdminUser\<close>, with a unique violation reported as an email in use.\<close>

definition create_account ::
  "(tx, pgerror + UserRow) state \<Rightarrow> (UserRow \<Rightarrow> (tx, 'b tx_end) state) \<Rightarrow> (tx, 'b tx_end) state" where
  "create_account m k = do {
     r \<leftarrow> m;
     case r of
       Inl err \<Rightarrow> State_Monad.return (RolledBack
         (if isUniqueViolation err then AuthError ''email_in_use'' ''an account already exists for this email''
          else PgError err))
     | Inr row \<Rightarrow> k row
   }"

definition Register ::
  "auth_env \<Rightarrow> string \<Rightarrow> string \<Rightarrow> (world, Mail option \<times> (error + unit)) state" where
  "Register e email0 password = (
     let email = normalizeEmail e email0; now = ae_db_now e in
     case new_credentials e email password of
       Inl err \<Rightarrow> State_Monad.return (None, Inl err)
     | Inr passwordHash \<Rightarrow>
         (case randomToken (ae_crypto e) (ae_token_bytes e) of
            Inl err \<Rightarrow> State_Monad.return (None, Inl err)
          | Inr (rawToken, hash) \<Rightarrow> do {
              r \<leftarrow> in_tx (create_account (exec (CreateUser (ae_pg_lower e) now (ae_user_uuid e) email)) (\<lambda>_.
                     tx_try (exec (CreatePasswordCredential now (ae_user_uuid e) passwordHash)) (\<lambda>_.
                     tx_try (exec (CreateOneTimeToken now (ae_token_uuid e) (ae_user_uuid e) ''verify_email'' hash
                              (ae_now e + verificationTokenTTL))) (\<lambda>_.
                     State_Monad.return (Commits (Inr ()))))));
              case r of
                Inl err \<Rightarrow> State_Monad.return (None, Inl err)
              | Inr _ \<Rightarrow>
                  let mail = VerificationMail email rawToken in
                  State_Monad.return (Some mail,
                    case ae_deliver e mail of
                      None \<Rightarrow> Inr ()
                    | Some _ \<Rightarrow> Inl (AuthError ''email_delivery_failed''
                        ''account created, but verification email could not be sent''))
            }))"

text \<open>
  The part \<open>ResendVerification\<close> and \<open>ForgotPassword\<close> share: invalidate the outstanding tokens of the
  kind, store a new one, and send it.
\<close>

definition send_new_token ::
  "auth_env \<Rightarrow> UserRow \<Rightarrow> string \<Rightarrow> duration \<Rightarrow> (string \<Rightarrow> string \<Rightarrow> Mail) \<Rightarrow> (world, Mail option \<times> (error + unit)) state" where
  "send_new_token e user kind ttl mk =
     (case randomToken (ae_crypto e) (ae_token_bytes e) of
        Inl err \<Rightarrow> State_Monad.return (None, Inl err)
      | Inr (rawToken, hash) \<Rightarrow> do {
          r \<leftarrow> in_tx (tx_try (exec (InvalidateUserOneTimeTokens (ae_db_now e) (us_id user) kind)) (\<lambda>_.
                 tx_try (exec (CreateOneTimeToken (ae_db_now e) (ae_token_uuid e) (us_id user) kind hash
                          (ae_now e + ttl))) (\<lambda>_.
                 State_Monad.return (Commits (Inr ())))));
          case r of
            Inl err \<Rightarrow> State_Monad.return (None, Inl err)
          | Inr _ \<Rightarrow>
              let mail = mk (us_email user) rawToken in
              State_Monad.return (Some mail, case ae_deliver e mail of None \<Rightarrow> Inr () | Some err \<Rightarrow> Inl err)
        })"

definition ResendVerification :: "auth_env \<Rightarrow> string \<Rightarrow> (world, Mail option \<times> (error + unit)) state" where
  "ResendVerification e email0 = do {
     r \<leftarrow> exec_pool (GetUserByEmail (ae_pg_lower e) (normalizeEmail e email0));
     case r of
       Inl err \<Rightarrow> State_Monad.return (None, if err = ErrNoRows then Inr () else Inl (PgError err))
     | Inr user \<Rightarrow>
         if us_email_verified_at user \<noteq> None then State_Monad.return (None, Inr ())
         else send_new_token e user ''verify_email'' verificationTokenTTL VerificationMail
   }"

definition ForgotPassword :: "auth_env \<Rightarrow> string \<Rightarrow> (world, Mail option \<times> (error + unit)) state" where
  "ForgotPassword e email0 = do {
     r \<leftarrow> exec_pool (GetUserByEmail (ae_pg_lower e) (normalizeEmail e email0));
     case r of
       Inl err \<Rightarrow> State_Monad.return (None, if err = ErrNoRows then Inr () else Inl (PgError err))
     | Inr user \<Rightarrow> send_new_token e user ''reset_password'' passwordResetTTL PasswordResetMail
   }"

text \<open>
  \<open>apply\<close> is the action of the token, which runs before the token is marked used.
\<close>

definition consumeBody ::
  "AuthService \<Rightarrow> auth_env \<Rightarrow> string \<Rightarrow> string \<Rightarrow> (OneTimeToken \<Rightarrow> (tx, pgerror + unit) state) \<Rightarrow> (tx, AuthSession tx_end) state" where
  "consumeBody s e rawToken kind apply_token = do {
     r \<leftarrow> exec (GetOneTimeTokenForUpdate (tokenHash (ae_crypto e) rawToken) kind);
     case r of
       Inl err \<Rightarrow> State_Monad.return (RolledBack (if err = ErrNoRows then invalidToken else PgError err))
     | Inr record \<Rightarrow>
         if ot_used_at record \<noteq> None \<or> \<not> ae_now e < ot_expires_at record
         then State_Monad.return (RolledBack invalidToken)
         else tx_try (apply_token record) (\<lambda>_.
              tx_try (exec (MarkOneTimeTokenUsed (ae_db_now e) (ot_id record))) (\<lambda>_.
              tx_try (exec (GetUserByID (ot_user_id record))) (\<lambda>userRow.
                let user = userFromDB userRow in
                commit_session s e
                  (if kind = ''verify_email'' \<or> kind = ''reset_password'' then user\<lparr>au_email_verified := True\<rparr> else user)
                  (ae_family_uuid e))))
   }"

definition consumeOneTimeToken ::
  "AuthService \<Rightarrow> auth_env \<Rightarrow> string \<Rightarrow> string \<Rightarrow> (OneTimeToken \<Rightarrow> (tx, pgerror + unit) state) \<Rightarrow> (world, error + AuthSession) state" where
  "consumeOneTimeToken s e rawToken kind apply_token =
     (if rawToken = [] then State_Monad.return (Inl invalidToken)
      else in_tx (consumeBody s e rawToken kind apply_token))"

definition VerifyEmail :: "AuthService \<Rightarrow> auth_env \<Rightarrow> string \<Rightarrow> (world, error + AuthSession) state" where
  "VerifyEmail s e rawToken =
     consumeOneTimeToken s e rawToken ''verify_email'' (\<lambda>token. exec (SetUserEmailVerified (ae_db_now e) (ot_user_id token)))"

text \<open>The action of a reset token: three statements, the first error ends it.\<close>

definition applyReset :: "auth_env \<Rightarrow> string \<Rightarrow> OneTimeToken \<Rightarrow> (tx, pgerror + unit) state" where
  "applyReset e hash token = do {
     r1 \<leftarrow> exec (SetUserEmailVerified (ae_db_now e) (ot_user_id token));
     case r1 of
       Inl err \<Rightarrow> State_Monad.return (Inl err)
     | Inr _ \<Rightarrow> do {
         r2 \<leftarrow> exec (UpsertPasswordCredential (ae_db_now e) (ot_user_id token) hash);
         case r2 of
           Inl err \<Rightarrow> State_Monad.return (Inl err)
         | Inr _ \<Rightarrow> exec (RevokeAllUserRefreshTokens (ae_db_now e) (ot_user_id token))
       }
   }"

definition ResetPassword :: "AuthService \<Rightarrow> auth_env \<Rightarrow> string \<Rightarrow> string \<Rightarrow> (world, error + AuthSession) state" where
  "ResetPassword s e rawToken newPassword =
     (case validatePassword newPassword of
        Some msg \<Rightarrow> State_Monad.return (Inl (AuthError ''invalid_password'' msg))
      | None \<Rightarrow>
          (case hashPassword (ae_crypto e) (ae_hash_slot e) (ae_salt e) newPassword of
             Inl err \<Rightarrow> State_Monad.return (Inl err)
           | Inr hash \<Rightarrow> consumeOneTimeToken s e rawToken ''reset_password'' (applyReset e hash)))"


subsection \<open>Signing in\<close>

text \<open>
  \<open>if err != nil || !valid\<close> treats an error of the verification as a wrong password; a panic
  goes on.
\<close>

definition password_matches :: "error + bool \<Rightarrow> error + bool" where
  "password_matches r = (case r of Inr b \<Rightarrow> Inr b | Inl err \<Rightarrow> if err = GoPanic then Inl GoPanic else Inr False)"

definition getDummyHash :: "auth_env \<Rightarrow> error + string" where
  "getDummyHash e =
     (case hashPasswordInternal (ae_crypto e) (ae_dummy_salt e) ''dummy-password-for-timing-mitigation'' of
        Inr h \<Rightarrow> Inr h | Inl err \<Rightarrow> if err = GoPanic then Inl GoPanic else Inr [])"

definition Login :: "AuthService \<Rightarrow> auth_env \<Rightarrow> string \<Rightarrow> string \<Rightarrow> (world, error + AuthSession) state" where
  "Login s e email password = do {
     r \<leftarrow> exec_pool (GetPasswordCredentialByEmail (ae_pg_lower e) (normalizeEmail e email));
     case r of
       Inl err \<Rightarrow>
         if err = ErrNoRows then
           (case getDummyHash e of
              Inl err' \<Rightarrow> State_Monad.return (Inl err')
            | Inr dummy \<Rightarrow>
                (case password_matches (verifyPassword (ae_crypto e) (ae_verify_slot e) password dummy) of
                   Inl err' \<Rightarrow> State_Monad.return (Inl err')
                 | Inr _ \<Rightarrow> State_Monad.return (Inl invalidCredentials)))
         else State_Monad.return (Inl (PgError err))
     | Inr credential \<Rightarrow>
         (case password_matches (verifyPassword (ae_crypto e) (ae_verify_slot e) password (gp_password_hash credential)) of
            Inl err \<Rightarrow> State_Monad.return (Inl err)
          | Inr valid \<Rightarrow>
              if \<not> valid then State_Monad.return (Inl invalidCredentials)
              else if gp_email_verified_at credential = None
              then State_Monad.return (Inl (AuthError ''email_not_verified'' ''verify your email before signing in''))
              else issueSession s e
                \<lparr> au_id = gp_id credential, au_email = gp_email credential, au_email_verified = True,
                  au_user_role = gp_user_role credential \<rparr>)
   }"

definition refreshTokenReused :: error where
  "refreshTokenReused = AuthError ''refresh_token_reused'' ''refresh token reuse detected; sign in again''"

text \<open>
  A used token is accepted once more within the grace period of its use; any other used or
  revoked token revokes its family, and that transaction is committed before the error is
  returned.
\<close>

definition refreshBody :: "AuthService \<Rightarrow> auth_env \<Rightarrow> string \<Rightarrow> (tx, AuthSession tx_end) state" where
  "refreshBody s e rawToken = do {
     r \<leftarrow> exec (GetRefreshTokenForUpdate (tokenHash (ae_crypto e) rawToken));
     case r of
       Inl err \<Rightarrow> State_Monad.return (RolledBack (if err = ErrNoRows then invalidRefreshToken else PgError err))
     | Inr record \<Rightarrow>
         if rt_revoked_at record = None \<and>
            (case rt_used_at record of None \<Rightarrow> False | Some used \<Rightarrow> ae_now e - used \<le> refreshReuseGrace) \<and>
            ae_now e < rt_expires_at record
         then tx_try (exec (GetUserByID (rt_user_id record))) (\<lambda>userRow.
                commit_session s e (userFromDB userRow) (rt_family_id record))
         else if rt_used_at record \<noteq> None \<or> rt_revoked_at record \<noteq> None
         then tx_try (exec (RevokeRefreshFamily (ae_db_now e) (rt_family_id record))) (\<lambda>_.
                State_Monad.return (Commits (Inl refreshTokenReused)))
         else if \<not> ae_now e < rt_expires_at record then State_Monad.return (RolledBack invalidRefreshToken)
         else tx_try (exec (MarkRefreshTokenUsed (ae_db_now e) (rt_id record))) (\<lambda>_.
                tx_try (exec (GetUserByID (rt_user_id record))) (\<lambda>userRow.
                  commit_session s e (userFromDB userRow) (rt_family_id record)))
   }"

definition Refresh :: "AuthService \<Rightarrow> auth_env \<Rightarrow> string \<Rightarrow> (world, error + AuthSession) state" where
  "Refresh s e rawToken = in_tx (refreshBody s e rawToken)"

definition pg_result :: "pgerror + 'a \<Rightarrow> error + 'a" where
  "pg_result r = (case r of Inl err \<Rightarrow> Inl (PgError err) | Inr x \<Rightarrow> Inr x)"

definition Logout :: "auth_env \<Rightarrow> string \<Rightarrow> (world, error + unit) state" where
  "Logout e rawToken = do {
     r \<leftarrow> exec_pool (RevokeRefreshToken (ae_db_now e) (tokenHash (ae_crypto e) rawToken));
     State_Monad.return (pg_result r)
   }"


subsection \<open>Federated identities\<close>

definition claimBody :: "AuthService \<Rightarrow> auth_env \<Rightarrow> string \<Rightarrow> FederatedIdentity \<Rightarrow> (tx, AuthSession tx_end) state" where
  "claimBody s e provider ident = do {
     r \<leftarrow> exec (GetUserByEmailForUpdate (ae_pg_lower e) (fd_email ident));
     case r of
       Inl err \<Rightarrow> State_Monad.return (RolledBack (if err = ErrNoRows then linkRequired else PgError err))
     | Inr user \<Rightarrow>
         if us_email_verified_at user \<noteq> None then State_Monad.return (RolledBack linkRequired)
         else tx_try (exec (CountUserIdentities (us_id user))) (\<lambda>n.
           if 0 < n then State_Monad.return (RolledBack linkRequired)
           else tx_try (exec (DeletePasswordCredential (us_id user))) (\<lambda>_.
                tx_try (exec (RevokeAllUserRefreshTokens (ae_db_now e) (us_id user))) (\<lambda>_.
                tx_try (exec (InvalidateUserOneTimeTokens (ae_db_now e) (us_id user) ''verify_email'')) (\<lambda>_.
                tx_try (exec (InvalidateUserOneTimeTokens (ae_db_now e) (us_id user) ''reset_password'')) (\<lambda>_.
                tx_try (exec (SetUserEmailVerified (ae_db_now e) (us_id user))) (\<lambda>_. do {
                  r' \<leftarrow> exec (CreateIdentity (ae_db_now e) (ae_identity_uuid e) (us_id user) provider
                         (fd_subject ident) (Some (fd_email ident)));
                  case r' of
                    Inl err \<Rightarrow> State_Monad.return (RolledBack
                      (if isUniqueViolation err
                       then AuthError ''identity_in_use'' ''this identity belongs to another account''
                       else PgError err))
                  | Inr _ \<Rightarrow> commit_session s e
                      \<lparr> au_id = us_id user, au_email = us_email user, au_email_verified = True,
                        au_user_role = au_user_role (userFromDB user) \<rparr> (ae_family_uuid e)
                }))))))
   }"

definition claimUnverifiedAccount ::
  "AuthService \<Rightarrow> auth_env \<Rightarrow> string \<Rightarrow> FederatedIdentity \<Rightarrow> (world, error + AuthSession) state" where
  "claimUnverifiedAccount s e provider ident = in_tx (claimBody s e provider ident)"

definition federatedSignup :: "AuthService \<Rightarrow> auth_env \<Rightarrow> string \<Rightarrow> FederatedIdentity \<Rightarrow> (tx, AuthSession tx_end) state" where
  "federatedSignup s e provider ident = do {
     r \<leftarrow> exec (CreateUser (ae_pg_lower e) (ae_db_now e) (ae_user_uuid e) (fd_email ident));
     case r of
       Inl err \<Rightarrow> State_Monad.return (RolledBack (if isUniqueViolation err then linkRequired else PgError err))
     | Inr _ \<Rightarrow>
         tx_try (exec (SetUserEmailVerified (ae_db_now e) (ae_user_uuid e))) (\<lambda>_.
         tx_try (exec (CreateIdentity (ae_db_now e) (ae_identity_uuid e) (ae_user_uuid e) provider
                  (fd_subject ident) (Some (fd_email ident)))) (\<lambda>_.
         commit_session s e
           \<lparr> au_id = ae_user_uuid e, au_email = fd_email ident, au_email_verified = True, au_user_role = RoleUser \<rparr>
           (ae_family_uuid e)))
   }"

definition FederatedLogin ::
  "AuthService \<Rightarrow> auth_env \<Rightarrow> string \<Rightarrow> FederatedInput \<Rightarrow> (world, error + AuthSession) state" where
  "FederatedLogin s e provider input =
     (case as_federated s provider input of
        Inl err \<Rightarrow> State_Monad.return (Inl err)
      | Inr ident \<Rightarrow> do {
          r \<leftarrow> exec_pool (GetUserByIdentity provider (fd_subject ident));
          case r of
            Inr userRow \<Rightarrow> issueSession s e (userFromDB userRow)
          | Inl err \<Rightarrow>
              if err \<noteq> ErrNoRows then State_Monad.return (Inl (PgError err))
              else do {
                r' \<leftarrow> exec_pool (GetUserByEmail (ae_pg_lower e) (fd_email ident));
                case r' of
                  Inr existing \<Rightarrow>
                    if us_email_verified_at existing = None then claimUnverifiedAccount s e provider ident
                    else State_Monad.return (Inl linkRequired)
                | Inl err' \<Rightarrow>
                    if err' \<noteq> ErrNoRows then State_Monad.return (Inl (PgError err'))
                    else in_tx (federatedSignup s e provider ident)
              }
        })"

definition LinkFederated ::
  "AuthService \<Rightarrow> auth_env \<Rightarrow> uuid \<Rightarrow> string \<Rightarrow> FederatedInput \<Rightarrow> (world, error + unit) state" where
  "LinkFederated s e userID provider input =
     (case as_federated s provider input of
        Inl err \<Rightarrow> State_Monad.return (Inl err)
      | Inr ident \<Rightarrow> do {
          r \<leftarrow> exec_pool (GetUserByIdentity provider (fd_subject ident));
          case r of
            Inr existing \<Rightarrow> State_Monad.return
              (if us_id existing = userID then Inr ()
               else Inl (AuthError ''identity_in_use'' ''this identity belongs to another account''))
          | Inl err \<Rightarrow>
              if err \<noteq> ErrNoRows then State_Monad.return (Inl (PgError err))
              else do {
                r' \<leftarrow> exec_pool (CreateIdentity (ae_db_now e) (ae_identity_uuid e) userID provider
                       (fd_subject ident) (Some (fd_email ident)));
                State_Monad.return
                  (case r' of
                     Inr _ \<Rightarrow> Inr ()
                   | Inl err' \<Rightarrow> Inl (if isUniqueViolation err'
                       then AuthError ''provider_already_linked'' ''an identity from this provider is already linked''
                       else PgError err'))
              }
        })"


subsection \<open>Accounts\<close>

definition CreateAdmin :: "auth_env \<Rightarrow> string \<Rightarrow> string \<Rightarrow> (world, error + AuthUser) state" where
  "CreateAdmin e email0 password = (
     let email = normalizeEmail e email0; now = ae_db_now e in
     case new_credentials e email password of
       Inl err \<Rightarrow> State_Monad.return (Inl err)
     | Inr passwordHash \<Rightarrow>
         in_tx (create_account (exec (CreateAdminUser (ae_pg_lower e) now (ae_user_uuid e) email)) (\<lambda>row.
           tx_try (exec (CreatePasswordCredential now (ae_user_uuid e) passwordHash)) (\<lambda>_.
           State_Monad.return (Commits (Inr (userFromDB row)))))))"

text \<open>Two statements on the pool, each in a transaction of its own.\<close>

definition SetPassword :: "auth_env \<Rightarrow> uuid \<Rightarrow> string \<Rightarrow> (world, error + unit) state" where
  "SetPassword e userID password =
     (case validatePassword password of
        Some msg \<Rightarrow> State_Monad.return (Inl (AuthError ''invalid_password'' msg))
      | None \<Rightarrow>
          (case hashPassword (ae_crypto e) (ae_hash_slot e) (ae_salt e) password of
             Inl err \<Rightarrow> State_Monad.return (Inl err)
           | Inr hash \<Rightarrow>
               pool_try (exec_pool (UpsertPasswordCredential (ae_db_now e) userID hash)) (\<lambda>_. do {
                 r \<leftarrow> exec_pool (RevokeAllUserRefreshTokens (ae_db_now e) userID);
                 State_Monad.return (pg_result r)
               })))"

definition wrongCurrentPassword :: error where
  "wrongCurrentPassword = AuthError ''invalid_credentials'' ''incorrect current password''"

definition ChangePassword :: "auth_env \<Rightarrow> uuid \<Rightarrow> string \<Rightarrow> string \<Rightarrow> (world, error + unit) state" where
  "ChangePassword e userID currentPassword newPassword = do {
     r \<leftarrow> exec_pool (GetPasswordCredentialByUserID userID);
     case r of
       Inl err \<Rightarrow> State_Monad.return (Inl
         (if err \<noteq> ErrNoRows then PgError err
          else AuthError ''password_not_set'' ''this account has no password; use password reset to create one''))
     | Inr cred \<Rightarrow>
         if currentPassword = [] then State_Monad.return (Inl wrongCurrentPassword)
         else case password_matches (verifyPassword (ae_crypto e) (ae_verify_slot e) currentPassword (pc_password_hash cred)) of
           Inl err \<Rightarrow> State_Monad.return (Inl err)
         | Inr valid \<Rightarrow>
             if \<not> valid then State_Monad.return (Inl wrongCurrentPassword)
             else SetPassword e userID newPassword
   }"

definition DeleteAccount :: "uuid \<Rightarrow> (world, error + unit) state" where
  "DeleteAccount userID = do {
     r \<leftarrow> exec_pool (DeleteUser userID);
     State_Monad.return (pg_result r)
   }"

definition User :: "uuid \<Rightarrow> (world, error + AuthUser) state" where
  "User userID = pool_try (exec_pool (GetUserByID userID)) (\<lambda>row. State_Monad.return (Inr (userFromDB row)))"

end
