(* ===== verification/Auth_Invariants.thy ===== *)
theory Auth_Invariants
  imports Auth_Service Sync_Server
begin

text \<open>
  What every operation of the authentication service keeps. Each of its programs only ever
  makes steps of \<open>account_write\<close>, one for each writing statement of \<open>auth.sql\<close>, whatever fails
  on the way (two instances of \<open>transition_preorder\<close>, inside a transaction and on the pool); so
  an invariant of the single statements is an invariant of the service.
\<close>

subsection \<open>The writes of the service\<close>

inductive account_write :: "lower \<Rightarrow> (uuid \<Rightarrow> bool) \<Rightarrow> (string \<Rightarrow> bool) \<Rightarrow> db \<Rightarrow> db \<Rightarrow> bool" for pl F H d where
  user: "account_write pl F H d (snd (insert_user pl r d))"
| identity: "account_write pl F H d (snd (CreateIdentity now i u p s m d))"
| one_time: "H h \<Longrightarrow> account_write pl F H d (snd (CreateOneTimeToken now i u k h t d))"
| password: "account_write pl F H d (snd (CreatePasswordCredential now u ph d))"
| upsert_password: "account_write pl F H d (snd (UpsertPasswordCredential now u ph d))"
| delete_password: "account_write pl F H d (snd (DeletePasswordCredential u d))"
| refresh: "F f \<Longrightarrow> account_write pl F H d (snd (CreateRefreshToken now i f u h t d))"
| invalidate: "account_write pl F H d (snd (InvalidateUserOneTimeTokens now u k d))"
| mark_one_time: "account_write pl F H d (snd (MarkOneTimeTokenUsed now i d))"
| mark_refresh: "account_write pl F H d (snd (MarkRefreshTokenUsed now i d))"
| revoke: "account_write pl F H d (revoke_where now P d)"
| verify: "account_write pl F H d (snd (SetUserEmailVerified now u d))"

abbreviation account_writes :: "lower \<Rightarrow> (uuid \<Rightarrow> bool) \<Rightarrow> (string \<Rightarrow> bool) \<Rightarrow> db \<Rightarrow> db \<Rightarrow> bool" where
  "account_writes pl F H \<equiv> (account_write pl F H)\<^sup>*\<^sup>*"

interpretation tx_writes: transition_preorder "\<lambda>t t'. account_writes pl F H (tables t) (tables t')" for pl F H
  by unfold_locales auto

interpretation pool_writes: transition_preorder "\<lambda>w w'. account_writes pl F H (committed w) (committed w')" for pl F H
  by unfold_locales auto

lemma first_row_same [simp]: "snd (first_row r d) = d"
  by (simp add: first_row_def split: option.split)

lemma reads_same [simp]:
  "snd (CountUserIdentities u d) = d" "snd (GetOneTimeTokenForUpdate h k d) = d"
  "snd (GetPasswordCredentialByEmail pl m d) = d" "snd (GetPasswordCredentialByUserID u d) = d"
  "snd (GetRefreshTokenForUpdate h d) = d" "snd (GetUserByEmail pl m d) = d"
  "snd (GetUserByEmailForUpdate pl m d) = d" "snd (GetUserByID u d) = d" "snd (GetUserByIdentity p s d) = d"
  by (simp_all add: auth_query_defs del: first_row_def split: option.split)

lemma stmt_writes [intro]:
  "account_writes pl F H d (snd (CreateUser pl now i m d))" "account_writes pl F H d (snd (CreateAdminUser pl now i m d))"
  "account_writes pl F H d (snd (CreateIdentity now i u p s m' d))" "H h \<Longrightarrow> account_writes pl F H d (snd (CreateOneTimeToken now i u k h t d))"
  "account_writes pl F H d (snd (CreatePasswordCredential now u ph d))" "account_writes pl F H d (snd (UpsertPasswordCredential now u ph d))"
  "account_writes pl F H d (snd (DeletePasswordCredential u d))" "F f \<Longrightarrow> account_writes pl F H d (snd (CreateRefreshToken now i f u h t d))"
  "account_writes pl F H d (snd (InvalidateUserOneTimeTokens now u k d))" "account_writes pl F H d (snd (MarkOneTimeTokenUsed now i d))"
  "account_writes pl F H d (snd (MarkRefreshTokenUsed now i d))" "account_writes pl F H d (snd (RevokeAllUserRefreshTokens now u d))"
  "account_writes pl F H d (snd (RevokeRefreshFamily now f d))" "account_writes pl F H d (snd (RevokeRefreshToken now h d))"
  "account_writes pl F H d (snd (SetUserEmailVerified now u d))"
  by (auto simp: CreateUser_def CreateAdminUser_def RevokeAllUserRefreshTokens_def RevokeRefreshFamily_def
      RevokeRefreshToken_def intro!: r_into_rtranclp intro: account_write.intros)

lemma stmt_reads [intro]:
  "account_writes pl F H d (snd (CountUserIdentities u d))" "account_writes pl F H d (snd (GetOneTimeTokenForUpdate h k d))"
  "account_writes pl F H d (snd (GetPasswordCredentialByEmail pl m d))" "account_writes pl F H d (snd (GetPasswordCredentialByUserID u d))"
  "account_writes pl F H d (snd (GetRefreshTokenForUpdate h d))" "account_writes pl F H d (snd (GetUserByEmail pl m d))"
  "account_writes pl F H d (snd (GetUserByEmailForUpdate pl m d))" "account_writes pl F H d (snd (GetUserByID u d))"
  "account_writes pl F H d (snd (GetUserByIdentity p s d))"
  by simp_all

lemma tx_exec_writes:
  assumes "\<And>d. account_writes pl F H d (snd (st d))"
  shows "state_io_rel (\<lambda>t t'. account_writes pl F H (tables t) (tables t')) (exec st)"
  using assms by (auto simp: state_io_rel_def exec_def Let_def split: sum.splits prod.splits) (metis snd_conv)+

lemma pool_exec_writes:
  assumes "\<And>d. account_writes pl F H d (snd (st d))"
  shows "state_io_rel (\<lambda>w w'. account_writes pl F H (committed w) (committed w')) (exec_pool st)"
  using assms by (auto simp: state_io_rel_def exec_pool_def Let_def split: fault.splits)

lemma account_write_seq: "account_write pl F H d d' \<Longrightarrow> change_seq d' = change_seq d"
  by (induction rule: account_write.induct) (auto simp: auth_query_defs revoke_where_def)

lemma account_writes_seq: "account_writes pl F H d d' \<Longrightarrow> change_seq d' = change_seq d"
  by (induction rule: rtranclp_induct) (auto dest: account_write_seq)

lemma in_tx_auth [consumes 2, case_names kept committed]:
  assumes run: "run_state (in_tx body) w = (r, w')"
    and writes: "state_io_rel (\<lambda>t t'. account_writes pl F H (tables t) (tables t')) body"
  obtains (kept) "committed w' = committed w" "\<exists>err. r = Inl err"
  | (committed) t t' r' where "tables t = committed w" "\<not> aborted t" "run_state body t = (Commits r', t')"
      "\<not> aborted t'" "committed w' = tables t'" "r = r' \<or> r = Inl (PgError ConnectionFailure)"
proof -
  have draws: "state_io_rel (\<lambda>t t'. change_seq (tables t) \<le> change_seq (tables t')) body"
    using writes account_writes_seq unfolding state_io_rel_def by (metis order_refl)
  have seq: "change_seq (committed w') = change_seq (committed w)"
    using run account_writes_seq state_io_relD [OF writes]
    by (fastforce simp: in_tx_def rollback_def Let_def split: if_splits prod.splits tx_end.splits)
  from run draws show thesis
  proof (cases rule: in_tx_cases)
    case (rolled_back n)
    with seq have "committed w' = committed w" by simp
    with rolled_back(3) show thesis using kept by simp
  next
    case (committed t t' r')
    then show thesis by (rule that(2))
  qed
qed

lemma in_tx_writes:
  assumes "state_io_rel (\<lambda>t t'. account_writes pl F H (tables t) (tables t')) body"
  shows "state_io_rel (\<lambda>w w'. account_writes pl F H (committed w) (committed w')) (in_tx body)"
proof (rule state_io_relI)
  fix w r w' assume "run_state (in_tx body) w = (r, w')"
  then show "account_writes pl F H (committed w) (committed w')"
    using assms by (cases rule: in_tx_auth) (auto dest: state_io_relD [OF assms])
qed

lemmas tx_writes_intros = tx_writes.io_return tx_writes.io_bind tx_writes.io_if tx_writes.io_sum tx_writes.io_option tx_exec_writes
lemmas pool_writes_intros = pool_writes.io_return pool_writes.io_bind pool_writes.io_if pool_writes.io_sum pool_writes.io_option
  pool_exec_writes in_tx_writes

lemma commit_session_writes:
  "F f \<Longrightarrow> state_io_rel (\<lambda>t t'. account_writes pl F H (tables t) (tables t')) (commit_session s e user f)"
  unfolding commit_session_def issueSessionWithQueries_def
  by (auto intro!: tx_writes_intros stmt_writes split: prod.splits)

lemma consumeBody_writes:
  assumes "F (ae_family_uuid e)" "\<And>r. state_io_rel (\<lambda>t t'. account_writes pl F H (tables t) (tables t')) (act r)"
  shows "state_io_rel (\<lambda>t t'. account_writes pl F H (tables t) (tables t')) (consumeBody s e raw kind act)"
  unfolding consumeBody_def tx_try_def Let_def
  by (auto intro!: tx_writes_intros stmt_writes stmt_reads commit_session_writes assms)

lemma refreshBody_writes: "state_io_rel (\<lambda>t t'. account_writes pl (\<lambda>_. True) H (tables t) (tables t')) (refreshBody s e raw)"
  unfolding refreshBody_def tx_try_def
  by (auto intro!: tx_writes_intros stmt_writes stmt_reads commit_session_writes)

lemma claimBody_writes: 
  "F (ae_family_uuid e) \<Longrightarrow> state_io_rel (\<lambda>t t'. account_writes (ae_pg_lower e) F H (tables t) (tables t')) (claimBody s e p ident)"
  unfolding claimBody_def tx_try_def
  by (auto intro!: tx_writes_intros stmt_writes stmt_reads commit_session_writes)

lemma federatedSignup_writes:
  "F (ae_family_uuid e) \<Longrightarrow> state_io_rel (\<lambda>t t'. account_writes (ae_pg_lower e) F H (tables t) (tables t')) (federatedSignup s e p ident)"
  unfolding federatedSignup_def tx_try_def
  by (auto intro!: tx_writes_intros stmt_writes stmt_reads commit_session_writes)

lemma issueSession_writes: 
  "F (ae_family_uuid e) \<Longrightarrow> state_io_rel (\<lambda>w w'. account_writes pl F H (committed w) (committed w')) (issueSession s e user)"
  unfolding issueSession_def by (intro in_tx_writes commit_session_writes)

definition drawn :: "auth_env \<Rightarrow> string option" where
  "drawn e = (case randomToken (ae_crypto e) (ae_token_bytes e) of Inl _ \<Rightarrow> None | Inr (_, hash) \<Rightarrow> Some hash)"

lemma send_new_token_writes:
  "pred_option H (drawn e) \<Longrightarrow> state_io_rel (\<lambda>w w'. account_writes pl F H (committed w) (committed w')) (send_new_token e user kind ttl mk)"
  unfolding send_new_token_def tx_try_def Let_def drawn_def
  by (cases "randomToken (ae_crypto e) (ae_token_bytes e)")
    (auto intro!: pool_writes_intros tx_writes_intros stmt_writes split: prod.splits)

lemma SetPassword_writes: "state_io_rel (\<lambda>w w'. account_writes pl F H (committed w) (committed w')) (SetPassword e u p)"
  unfolding SetPassword_def pool_try_def
  by (auto intro!: pool_writes_intros stmt_writes)

lemma Register_writes:
  assumes "pred_option H (drawn e)"
  shows "state_io_rel (\<lambda>w w'. account_writes (ae_pg_lower e) F H (committed w) (committed w')) (Register e m p)"
proof (cases "randomToken (ae_crypto e) (ae_token_bytes e)")
  case (Inl err)
  show ?thesis
    unfolding Register_def Let_def Inl sum.case by (auto intro!: pool_writes_intros)
next
  case (Inr p)
  with assms show ?thesis
    unfolding Register_def create_account_def tx_try_def Let_def drawn_def
    by (auto intro!: pool_writes_intros tx_writes_intros stmt_writes split: prod.splits sum.splits)
qed

lemma operation_writes:
  assumes "F (ae_family_uuid e)" "pred_option H (drawn e)"
  shows
  "state_io_rel (\<lambda>w w'. account_writes (ae_pg_lower e) F H (committed w) (committed w')) (ResendVerification e m)"
  "state_io_rel (\<lambda>w w'. account_writes (ae_pg_lower e) F H (committed w) (committed w')) (VerifyEmail s e raw)"
  "state_io_rel (\<lambda>w w'. account_writes (ae_pg_lower e) F H (committed w) (committed w')) (Login s e m p)"
  "state_io_rel (\<lambda>w w'. account_writes (ae_pg_lower e) F H (committed w) (committed w')) (Logout e raw)"
  "state_io_rel (\<lambda>w w'. account_writes (ae_pg_lower e) F H (committed w) (committed w')) (ForgotPassword e m)"
  "state_io_rel (\<lambda>w w'. account_writes (ae_pg_lower e) F H (committed w) (committed w')) (ResetPassword s e raw p)"
  "state_io_rel (\<lambda>w w'. account_writes (ae_pg_lower e) F H (committed w) (committed w')) (FederatedLogin s e prov input)"
  "state_io_rel (\<lambda>w w'. account_writes (ae_pg_lower e) F H (committed w) (committed w')) (LinkFederated s e u prov input)"
  "state_io_rel (\<lambda>w w'. account_writes (ae_pg_lower e) F H (committed w) (committed w')) (CreateAdmin e m p)"
  "state_io_rel (\<lambda>w w'. account_writes (ae_pg_lower e) F H (committed w) (committed w')) (SetPassword e u p)"
  "state_io_rel (\<lambda>w w'. account_writes (ae_pg_lower e) F H (committed w) (committed w')) (ChangePassword e u p q)"
  unfolding create_account_def tx_try_def ResendVerification_def VerifyEmail_def consumeOneTimeToken_def
    Login_def Logout_def ForgotPassword_def ResetPassword_def applyReset_def FederatedLogin_def
    claimUnverifiedAccount_def LinkFederated_def CreateAdmin_def ChangePassword_def Let_def
  by (auto intro!: pool_writes_intros tx_writes_intros stmt_writes stmt_reads consumeBody_writes
      claimBody_writes federatedSignup_writes issueSession_writes send_new_token_writes SetPassword_writes
      assms split: prod.splits)


lemma Refresh_writes: "state_io_rel (\<lambda>w w'. account_writes pl (\<lambda>_. True) H (committed w) (committed w')) (Refresh s e raw)"
  unfolding Refresh_def by (intro in_tx_writes refreshBody_writes)

lemma account_writes_mono: "account_writes pl F H d d' \<Longrightarrow> account_writes pl (\<lambda>_. True) (\<lambda>_. True) d d'"
  by (erule rtranclp_mono [THEN predicate2D, rotated]) (auto elim: account_write.cases intro: account_write.intros)

subsection \<open>The account tables\<close>

definition owned :: "('r \<Rightarrow> uuid) \<Rightarrow> 'r list \<Rightarrow> db \<Rightarrow> bool" where
  "owned owner rows d \<longleftrightarrow> (\<forall>r\<in>set rows. user_exists (owner r) d)"

definition users_ok :: "lower \<Rightarrow> db \<Rightarrow> bool" where
  "users_ok pl d \<longleftrightarrow> keys_distinct us_id (users d) \<and> keys_distinct us_email (users d) \<and>
     (\<forall>r\<in>set (users d). us_email r = pl (us_email r) \<and> us_user_role r \<in> {''user'', ''admin''})"

definition identities_ok :: "db \<Rightarrow> bool" where
  "identities_ok d \<longleftrightarrow> keys_distinct id_id (identities d) \<and>
     keys_distinct (\<lambda>r. (id_provider r, id_subject r)) (identities d) \<and>
     keys_distinct (\<lambda>r. (id_user_id r, id_provider r)) (identities d) \<and>
     (\<forall>r\<in>set (identities d). id_provider r = ''google'') \<and> owned id_user_id (identities d) d"

definition tokens_ok :: "db \<Rightarrow> bool" where
  "tokens_ok d \<longleftrightarrow> keys_distinct rt_id (refresh_tokens d) \<and> keys_distinct rt_token_hash (refresh_tokens d) \<and>
     keys_distinct ot_id (one_time_tokens d) \<and> keys_distinct ot_token_hash (one_time_tokens d) \<and>
     (\<forall>r\<in>set (one_time_tokens d). ot_kind r \<in> {''verify_email'', ''reset_password''}) \<and>
     owned rt_user_id (refresh_tokens d) d \<and> owned ot_user_id (one_time_tokens d) d"

definition accounts_ok :: "lower \<Rightarrow> db \<Rightarrow> bool" where
  "accounts_ok pl d \<longleftrightarrow> users_ok pl d \<and> keys_distinct pc_user_id (password_credentials d) \<and>
     owned pc_user_id (password_credentials d) d \<and> identities_ok d \<and> tokens_ok d"

lemma user_exists_iff: "user_exists u d \<longleftrightarrow> u \<in> us_id ` set (users d)"
  by (auto simp: user_exists_def exists_row_iff)

lemma user_exists_frame [simp]:
  "user_exists u (d\<lparr>password_credentials := x1\<rparr>) = user_exists u d" "user_exists u (d\<lparr>identities := x2\<rparr>) = user_exists u d"
  "user_exists u (d\<lparr>refresh_tokens := x3\<rparr>) = user_exists u d" "user_exists u (d\<lparr>one_time_tokens := x4\<rparr>) = user_exists u d"
  by (simp_all add: user_exists_def)

lemma owned_frame [simp]:
  "owned f rows (d\<lparr>password_credentials := x1\<rparr>) = owned f rows d" "owned f rows (d\<lparr>identities := x2\<rparr>) = owned f rows d"
  "owned f rows (d\<lparr>refresh_tokens := x3\<rparr>) = owned f rows d" "owned f rows (d\<lparr>one_time_tokens := x4\<rparr>) = owned f rows d"
  by (simp_all add: owned_def)

lemma owned_mono: "(\<And>u. user_exists u d \<Longrightarrow> user_exists u d') \<Longrightarrow> owned f rows d \<Longrightarrow> owned f rows d'"
  by (auto simp: owned_def)

lemma owned_append: "owned f (rows @ [r]) d \<longleftrightarrow> owned f rows d \<and> user_exists (f r) d"
  by (auto simp: owned_def)

lemma owned_update: "(\<And>r. f (g r) = f r) \<Longrightarrow> owned f (update_where P g rows) d = owned f rows d"
  by (induction rows) (auto simp: owned_def)

lemma owned_delete: "owned f rows d \<Longrightarrow> owned f (delete_where P rows) d"
  by (simp add: owned_def)

lemma not_exists_row_key: "\<not> exists_row (\<lambda>x. key x = k) rows \<longleftrightarrow> row_at key k rows = None"
  by (auto simp: exists_row_iff row_at_None)

lemmas table_simps = owned_append owned_update keys_distinct_update_where keys_distinct_append row_at_None exists_row_iff

text \<open>Only the users, the credentials, the identities or the tokens change in a single write.\<close>

lemma write_users:
  assumes "accounts_ok pl d" "users_ok pl d'" "password_credentials d' = password_credentials d"
    "identities d' = identities d" "refresh_tokens d' = refresh_tokens d" "one_time_tokens d' = one_time_tokens d"
    and "\<And>u. user_exists u d \<Longrightarrow> user_exists u d'"
  shows "accounts_ok pl d'"
  using assms(1-6) unfolding accounts_ok_def identities_ok_def tokens_ok_def
  by (auto intro: owned_mono [OF assms(7)])

lemma users_ok_append:
  assumes "users_ok pl d" "insert_user pl r d = (Inr x, d')"
  shows "users_ok pl d'"
  using assms by (auto simp: users_ok_def insert_user_def exists_row_iff row_at_None split: if_splits intro!: keys_distinct_append)

lemma account_write_ok:
  assumes "account_write pl F H d d'" "accounts_ok pl d"
  shows "accounts_ok pl d'"
  using assms(1)
proof cases
  case (user r)
  show ?thesis
  proof (cases "fst (insert_user pl r d)")
    case (Inl err)
    then have "d' = d" using user by (auto simp: insert_user_def split: if_splits)
    with assms show ?thesis by simp
  next
    case (Inr x)
    then have ins: "insert_user pl r d = (Inr x, d')" using user by (metis prod.collapse)
    have d': "d' = d\<lparr>users := users d @ [r]\<rparr>" using ins by (auto simp: insert_user_def split: if_splits)
    from assms(2) users_ok_append [OF _ ins] show ?thesis
      by (intro write_users [OF assms(2)]) (auto simp: d' accounts_ok_def user_exists_def exists_row_iff)
  qed
next
  case (verify now u)
  let ?g = "\<lambda>r. r\<lparr>us_email_verified_at := Some (case us_email_verified_at r of None \<Rightarrow> now | Some t \<Rightarrow> t), us_updated_at := now\<rparr>"
  have d': "d' = d\<lparr>users := update_where (\<lambda>r. us_id r = u) ?g (users d)\<rparr>"
    using verify by (simp add: SetUserEmailVerified_def)
  show ?thesis
  proof (rule write_users [OF assms(2)])
    show "users_ok pl d'" using assms(2)
      by (auto simp: d' accounts_ok_def users_ok_def keys_distinct_update_where set_update_where)
  next
    have "map us_id (users d') = map us_id (users d)" unfolding d' by (simp add: map_key_update_where)
    then have "us_id ` set (users d') = us_id ` set (users d)" by (metis list.set_map)
    then show "user_exists i d \<Longrightarrow> user_exists i d'" for i by (simp add: user_exists_iff)
  qed (simp_all add: d')
qed (use assms(2) in \<open>auto simp: accounts_ok_def users_ok_def identities_ok_def tokens_ok_def auth_query_defs revoke_where_def
    table_simps owned_delete keys_distinct_delete_where set_update_where
    split: if_splits option.splits intro!: keys_distinct_append owned_delete keys_distinct_delete_where\<close>)

lemma account_writes_ok: "account_writes pl F H d d' \<Longrightarrow> accounts_ok pl d \<Longrightarrow> accounts_ok pl d'"
  by (induction rule: rtranclp_induct) (auto dest: account_write_ok)

end
