(* ===== verification/Auth_Server.thy ===== *)
theory Auth_Server
  imports Auth_Invariants
begin

text \<open>
  The whole server as a transition system on the committed database: any call of the
  authentication service and any step of the synchronization part. Both invariants,
  \<open>accounts_ok\<close> and \<open>server_ok\<close>, are kept by both parts, also by the deletion of an account.
\<close>

subsection \<open>Deleting an account\<close>

text \<open>What is left of the data of another user.\<close>

definition same_account :: "uuid \<Rightarrow> db \<Rightarrow> db \<Rightarrow> bool" where
  "same_account v d d' \<longleftrightarrow>
     filter (\<lambda>r. us_id r = v) (users d') = filter (\<lambda>r. us_id r = v) (users d) \<and>
     filter (\<lambda>r. pc_user_id r = v) (password_credentials d') = filter (\<lambda>r. pc_user_id r = v) (password_credentials d) \<and>
     filter (\<lambda>r. id_user_id r = v) (identities d') = filter (\<lambda>r. id_user_id r = v) (identities d) \<and>
     filter (\<lambda>r. rt_user_id r = v) (refresh_tokens d') = filter (\<lambda>r. rt_user_id r = v) (refresh_tokens d) \<and>
     filter (\<lambda>r. ot_user_id r = v) (one_time_tokens d') = filter (\<lambda>r. ot_user_id r = v) (one_time_tokens d)"

definition same_entities_of :: "uuid \<Rightarrow> db \<Rightarrow> db \<Rightarrow> bool" where
  "same_entities_of v d d' \<longleftrightarrow>
     filter (\<lambda>r. dv_user_id r = v) (devices d') = filter (\<lambda>r. dv_user_id r = v) (devices d) \<and>
     filter (\<lambda>r. cs_user_id r = v) (cube_sessions d') = filter (\<lambda>r. cs_user_id r = v) (cube_sessions d) \<and>
     filter (\<lambda>r. sf_user_id r = v) (solves d') = filter (\<lambda>r. sf_user_id r = v) (solves d) \<and>
     filter (\<lambda>r. pm_user_id r = v) (processed_mutations d') = filter (\<lambda>r. pm_user_id r = v) (processed_mutations d) \<and>
     filter (\<lambda>r. cl_user_id r = v) (change_log d') = filter (\<lambda>r. cl_user_id r = v) (change_log d)"

definition erased :: "uuid \<Rightarrow> db \<Rightarrow> bool" where
  "erased u d \<longleftrightarrow> \<not> exists_row (\<lambda>r. us_id r = u) (users d) \<and>
     \<not> exists_row (\<lambda>r. pc_user_id r = u) (password_credentials d) \<and> \<not> exists_row (\<lambda>r. id_user_id r = u) (identities d) \<and>
     \<not> exists_row (\<lambda>r. rt_user_id r = u) (refresh_tokens d) \<and> \<not> exists_row (\<lambda>r. ot_user_id r = u) (one_time_tokens d) \<and>
     \<not> exists_row (\<lambda>r. dv_user_id r = u) (devices d) \<and> \<not> exists_row (\<lambda>r. cs_user_id r = u) (cube_sessions d) \<and>
     \<not> exists_row (\<lambda>r. sf_user_id r = u) (solves d) \<and> \<not> exists_row (\<lambda>r. pm_user_id r = u) (processed_mutations d) \<and>
     \<not> exists_row (\<lambda>r. cl_user_id r = u) (change_log d)"

lemma filter_delete_other: "v \<noteq> u \<Longrightarrow> filter (\<lambda>r. f r = v) (delete_where (\<lambda>r. f r = u) rows) = filter (\<lambda>r. f r = v) rows"
  by (induction rows) (auto simp: delete_where_def)

lemma cascade_others: "v \<noteq> u \<Longrightarrow> same_account v d (cascade u d) \<and> same_entities_of v d (cascade u d)"
  by (simp add: same_account_def same_entities_of_def cascade_def filter_delete_other)

lemma cascade_erases: "erased u (cascade u d)"
  by (simp add: erased_def cascade_def exists_row_iff)

lemma owned_cascade: "owned f rows d \<Longrightarrow> owned f (delete_where (\<lambda>r. f r = u) rows) (cascade u d)"
  by (auto simp: owned_def user_exists_iff cascade_def)

lemma cascade_accounts_ok: "accounts_ok pl d \<Longrightarrow> accounts_ok pl (cascade u d)"
  using owned_cascade [of pc_user_id "password_credentials d" d u] owned_cascade [of id_user_id "identities d" d u]
    owned_cascade [of rt_user_id "refresh_tokens d" d u] owned_cascade [of ot_user_id "one_time_tokens d" d u]
  by (auto simp: accounts_ok_def users_ok_def identities_ok_def tokens_ok_def keys_distinct_delete_where)
    (auto simp: cascade_def keys_distinct_delete_where)

lemma row_at_delete_other:
  "\<forall>r. key r = k \<longrightarrow> f r \<noteq> u \<Longrightarrow> row_at key k (delete_where (\<lambda>r. f r = u) rows) = row_at key k rows"
  by (induction rows) (auto simp: delete_where_def)

lemma replica_cascade: "v \<noteq> u \<Longrightarrow> replica_of v (cascade u d) = replica_of v d"
  by (auto simp: replica_of_def cascade_def row_at_delete_other cs_key_def sf_key_def fun_eq_iff)

lemma user_log_cascade: "user_log v (cascade u d) = (if v = u then [] else user_log v d)"
  by (auto simp: user_log_def cascade_def filter_delete_other)

lemma cascade_server_ok:
  assumes "server_ok e0 d"
  shows "server_ok e0 (cascade u d)"
proof -
  have "refs_ok (cascade u d)"
    unfolding refs_ok_def
  proof
    fix r assume "r \<in> set (solves (cascade u d))"
    then have r: "r \<in> set (solves d)" "sf_user_id r \<noteq> u" by (auto simp: cascade_def)
    with assms have "session_ref_ok (sf_user_id r) (sf_session_id r) d"
      by (auto simp: server_ok_def tables_ok_def refs_ok_def)
    with r(2) show "session_ref_ok (sf_user_id r) (sf_session_id r) (cascade u d)"
      by (auto simp: session_ref_ok_def cascade_def row_at_delete_other cs_key_def split: option.splits)
  qed
  moreover have "log_ok (cascade u d)"
    using assms by (auto simp: server_ok_def tables_ok_def log_ok_def cascade_def delete_where_def sorted_wrt_map sorted_wrt_filter)
  moreover have "log_current (cascade u d)"
    using assms replica_cascade
    by (auto simp: server_ok_def feed_ok_def log_current_def user_log_cascade last_for_def split: if_splits)
  ultimately show ?thesis
    using assms
    by (auto simp: server_ok_def tables_ok_def outcomes_ok_def rows_ok_def feed_ok_def cascade_def keys_distinct_delete_where)
qed


subsection \<open>The server\<close>

lemma account_write_sync:
  assumes "account_write pl F H d d'"
  shows "devices d' = devices d \<and> cube_sessions d' = cube_sessions d \<and> solves d' = solves d \<and>
    processed_mutations d' = processed_mutations d \<and> change_log d' = change_log d \<and> change_seq d' = change_seq d"
  using assms by cases (auto simp: auth_query_defs revoke_where_def)

lemma account_writes_sync:
  assumes "account_writes pl F H d d'"
  shows "devices d' = devices d \<and> cube_sessions d' = cube_sessions d \<and> solves d' = solves d \<and>
    processed_mutations d' = processed_mutations d \<and> change_log d' = change_log d \<and> change_seq d' = change_seq d"
  using assms by (induction rule: rtranclp_induct) (auto dest: account_write_sync)

lemma server_ok_cong:
  assumes "devices d' = devices d" "cube_sessions d' = cube_sessions d" "solves d' = solves d"
    "processed_mutations d' = processed_mutations d" "change_log d' = change_log d" "change_seq d' = change_seq d"
  shows "server_ok e0 d' = server_ok e0 d"
proof -
  have "session_ref_ok v i d' = session_ref_ok v i d" "replica_of v d' = replica_of v d" "user_log v d' = user_log v d" for v i
    using assms by (auto simp: session_ref_ok_def replica_of_def user_log_def fun_eq_iff split: option.splits)
  with assms show ?thesis
    by (simp add: server_ok_def tables_ok_def log_ok_def refs_ok_def outcomes_ok_def rows_ok_def feed_ok_def log_current_def)
qed

text \<open>
  One call of the authentication service, apart from \<open>Refresh\<close> and \<open>DeleteAccount\<close>, and then
  one of any of them. \<open>lower\<close> is that of the one database; everything else may change from
  call to call, within a condition \<open>Q\<close> on what the calls draw.
\<close>

inductive auth_call :: "lower \<Rightarrow> auth_env \<Rightarrow> db \<Rightarrow> db \<Rightarrow> bool" for pl e where
  register: "run_state (Register e m p) w = (r1, w') \<Longrightarrow> ae_pg_lower e = pl \<Longrightarrow> auth_call pl e (committed w) (committed w')"
| resend: "run_state (ResendVerification e m) w = (r2, w') \<Longrightarrow> ae_pg_lower e = pl \<Longrightarrow> auth_call pl e (committed w) (committed w')"
| verify: "run_state (VerifyEmail s e raw) w = (r3, w') \<Longrightarrow> ae_pg_lower e = pl \<Longrightarrow> auth_call pl e (committed w) (committed w')"
| login: "run_state (Login s e m p) w = (r4, w') \<Longrightarrow> ae_pg_lower e = pl \<Longrightarrow> auth_call pl e (committed w) (committed w')"
| logout: "run_state (Logout e raw) w = (r5, w') \<Longrightarrow> ae_pg_lower e = pl \<Longrightarrow> auth_call pl e (committed w) (committed w')"
| forgot: "run_state (ForgotPassword e m) w = (r6, w') \<Longrightarrow> ae_pg_lower e = pl \<Longrightarrow> auth_call pl e (committed w) (committed w')"
| reset: "run_state (ResetPassword s e raw p) w = (r7, w') \<Longrightarrow> ae_pg_lower e = pl \<Longrightarrow> auth_call pl e (committed w) (committed w')"
| federated: "run_state (FederatedLogin s e prov i) w = (r8, w') \<Longrightarrow> ae_pg_lower e = pl \<Longrightarrow> auth_call pl e (committed w) (committed w')"
| link: "run_state (LinkFederated s e u prov i) w = (r9, w') \<Longrightarrow> ae_pg_lower e = pl \<Longrightarrow> auth_call pl e (committed w) (committed w')"
| admin: "run_state (CreateAdmin e m p) w = (r10, w') \<Longrightarrow> ae_pg_lower e = pl \<Longrightarrow> auth_call pl e (committed w) (committed w')"
| set_password: "run_state (SetPassword e u p) w = (r11, w') \<Longrightarrow> ae_pg_lower e = pl \<Longrightarrow> auth_call pl e (committed w) (committed w')"
| change_password: "run_state (ChangePassword e u p q) w = (r12, w') \<Longrightarrow> ae_pg_lower e = pl \<Longrightarrow> auth_call pl e (committed w) (committed w')"

inductive service_step :: "lower \<Rightarrow> env \<Rightarrow> (auth_env \<Rightarrow> bool) \<Rightarrow> db \<Rightarrow> db \<Rightarrow> bool" for pl e0 Q where
  auth: "auth_call pl e d d' \<Longrightarrow> Q e \<Longrightarrow> service_step pl e0 Q d d'"
| refresh: "run_state (Refresh s e raw) w = (r, w') \<Longrightarrow> service_step pl e0 Q (committed w) (committed w')"
| delete: "run_state (DeleteAccount u) w = (r', w') \<Longrightarrow> service_step pl e0 Q (committed w) (committed w')"
| user: "run_state (User u) w = (r'', w') \<Longrightarrow> service_step pl e0 Q (committed w) (committed w')"
| sync: "server_step e0 d d' \<Longrightarrow> service_step pl e0 Q d d'"

lemma auth_call_writes:
  assumes "auth_call pl e d d'" "F (ae_family_uuid e)" "pred_option H (drawn e)"
  shows "account_writes pl F H d d'"
  using assms by (auto elim!: auth_call.cases dest: operation_writes [THEN state_io_relD] Register_writes [THEN state_io_relD])

definition accounts_same :: "db \<Rightarrow> db \<Rightarrow> bool" where
  "accounts_same d d' \<longleftrightarrow> users d' = users d \<and> password_credentials d' = password_credentials d \<and>
     identities d' = identities d \<and> refresh_tokens d' = refresh_tokens d \<and> one_time_tokens d' = one_time_tokens d"

lemma accounts_ok_same: "accounts_same d d' \<Longrightarrow> accounts_ok pl d' = accounts_ok pl d"
  by (simp add: accounts_same_def accounts_ok_def users_ok_def identities_ok_def tokens_ok_def owned_def user_exists_def)

lemma server_step_accounts:
  assumes "server_step e0 d d'" "server_ok e0 d"
  shows "accounts_same d d'"
  using assms(1)
proof cases
  case sync
  then show ?thesis using assms(2)
    by (auto elim!: sync_call.cases dest!: others.service_Sync [THEN state_io_relD] simp: server_ok_def others_kept_def accounts_same_def)
next
  case (snapshot s e v req w r w')
  with Snapshot_data [OF snapshot(3)] show ?thesis
    by (auto simp: accounts_same_def UpsertDevice_def Let_def split: if_splits)
next
  case (retention s e w r w')
  with state_io_relD [OF runOnce_pruned retention(3)] show ?thesis by (auto simp: accounts_same_def pruned_def)
qed

lemma DeleteAccount_cases:
  assumes "run_state (DeleteAccount u) w = (r, w')"
  shows "committed w' = committed w \<or> user_exists u (committed w) \<and> committed w' = cascade u (committed w)"
    and "r = Inr () \<Longrightarrow> committed w' = (if user_exists u (committed w) then cascade u (committed w) else committed w)"
  using assms by (auto simp: DeleteAccount_def DeleteUser_def exec_pool_def pg_result_def Let_def split: fault.splits if_splits)

lemma User_same: "run_state (User u) w = (r, w') \<Longrightarrow> committed w' = committed w"
  by (auto simp: User_def pool_try_def exec_pool_def Let_def split: fault.splits sum.splits prod.splits)

lemma service_step_ok:
  assumes "service_step pl e0 Q d d'" "accounts_ok pl d" "server_ok e0 d"
  shows "accounts_ok pl d' \<and> server_ok e0 d'"
  using assms(1)
proof cases
  case (auth e)
  from auth(1) have "account_writes pl (\<lambda>_. True) (\<lambda>_. True) d d'" by (rule auth_call_writes) (simp_all add: pred_option_def)
  with assms account_writes_ok account_writes_sync server_ok_cong show ?thesis by metis
next
  case (refresh s e raw w r w')
  then have "account_writes pl (\<lambda>_. True) (\<lambda>_. True) d d'" using state_io_relD [OF Refresh_writes] by simp
  with assms account_writes_ok account_writes_sync server_ok_cong show ?thesis by metis
next
  case (delete u w r w')
  with DeleteAccount_cases(1) [OF delete(3)] assms show ?thesis by (auto intro: cascade_accounts_ok cascade_server_ok)
next
  case (user u w r w')
  with User_same assms show ?thesis by metis
next
  case sync
  with assms server_step_accounts accounts_ok_same server_ok_step show ?thesis by blast
qed

lemma service_steps_ok:
  assumes "(service_step pl e0 Q)\<^sup>*\<^sup>* d d'" "accounts_ok pl d" "server_ok e0 d"
  shows "accounts_ok pl d' \<and> server_ok e0 d'"
  using assms by (induction rule: rtranclp_induct) (auto dest: service_step_ok)

end
