(* ===== verification/Auth_Cases.thy ===== *)
theory Auth_Cases
  imports Auth_Server
begin

text \<open>
  What an operation has done when it answers: case analysis of the programs. Every rule starts
  from an answer and gives the statements that were executed and the rows they found, whatever
  the connection did.
\<close>

lemma tx_try_Commits [elim!]:
  assumes "run_state (tx_try (exec st) k) t = (Commits r, t')"
  obtains x t1 where "\<not> aborted t" "fst (st (tables t)) = Inr x" "tables t1 = snd (st (tables t))" "\<not> aborted t1" "run_state (k x) t1 = (Commits r, t')"
proof -
  obtain q t1 where q: "run_state (exec st) t = (q, t1)" by fastforce
  with assms obtain x where "q = Inr x" "run_state (k x) t1 = (Commits r, t')"
    by (auto simp: tx_try_def split: sum.splits)
  with q exec_Inr [of st t x t1] that show thesis by auto
qed

text \<open>A transaction that answered something was committed as a whole.\<close>

lemma in_tx_Inr:
  assumes "run_state (in_tx body) w = (Inr x, w')"
  obtains t t' where "tables t = committed w" "\<not> aborted t" "run_state body t = (Commits (Inr x), t')"
    "\<not> aborted t'" "committed w' = tables t'"
  using assms that [of "\<lparr> tables = committed w, aborted = False, tx_faults = tl (faults w), held_locks = [] \<rparr>"]
  by (auto simp: in_tx_def Let_def split: if_splits prod.splits tx_end.splits)

lemma first_row_Inr [simp]: "first_row r d = (Inr x, d') \<longleftrightarrow> r = Some x \<and> d' = d" "fst (first_row r d) = Inr x \<longleftrightarrow> r = Some x"
  by (auto simp: first_row_def split: option.split)

definition refresh_row :: "AuthService \<Rightarrow> auth_env \<Rightarrow> uuid \<Rightarrow> uuid \<Rightarrow> string \<Rightarrow> RefreshToken" where
  "refresh_row s e f u raw =
     \<lparr> rt_id = ae_token_uuid e, rt_family_id = f, rt_user_id = u, rt_token_hash = tokenHash (ae_crypto e) raw,
       rt_expires_at = ae_now e + as_refresh_ttl s, rt_used_at = None, rt_revoked_at = None, rt_created_at = ae_db_now e \<rparr>"

text \<open>
  A session was issued: the access token carries the user, and the refresh token that is
  answered is the one whose hash was stored.
\<close>

definition session_issued :: "AuthService \<Rightarrow> auth_env \<Rightarrow> AuthUser \<Rightarrow> uuid \<Rightarrow> AuthSession \<Rightarrow> db \<Rightarrow> db \<Rightarrow> bool" where
  "session_issued s e user f session d d' \<longleftrightarrow>
     (\<exists>expires. IssueAccessToken (ae_crypto e) (as_tokens s) (ae_now e) (ae_jti e) (au_id user)
        (au_email_verified user) (au_user_role user) = Inr (an_access_token session, expires)) \<and>
     an_user session = user \<and> user_exists (au_id user) d \<and>
     d' = d\<lparr>refresh_tokens := refresh_tokens d @ [refresh_row s e f (au_id user) (an_refresh_token session)]\<rparr> \<and>
     \<not> exists_row (\<lambda>r. rt_id r = ae_token_uuid e \<or> rt_token_hash r = tokenHash (ae_crypto e) (an_refresh_token session)) (refresh_tokens d)"

lemma commit_session_Commits:
  assumes "run_state (commit_session s e user f) t = (Commits r, t')"
  obtains session where "r = Inr session" "session_issued s e user f session (tables t) (tables t')" "\<not> aborted t'"
proof -
  obtain q where q: "run_state (issueSessionWithQueries s e user f) t = (q, t')"
    using assms by (auto simp: commit_session_def split: sum.splits prod.splits)
  with assms obtain session where r: "q = Inr session" "r = Inr session"
    by (auto simp: commit_session_def split: sum.splits prod.splits)
  from q r(1) obtain access expires refresh hash where
    acc: "IssueAccessToken (ae_crypto e) (as_tokens s) (ae_now e) (ae_jti e) (au_id user)
        (au_email_verified user) (au_user_role user) = Inr (access, expires)"
    and tok: "randomToken (ae_crypto e) (ae_token_bytes e) = Inr (refresh, hash)"
    and ins: "run_state (exec (CreateRefreshToken (ae_db_now e) (ae_token_uuid e) f (au_id user) hash
                      (ae_now e + as_refresh_ttl s))) t = (Inr (), t')"
    and ses: "session = \<lparr> an_access_token = access, an_refresh_token = refresh, an_token_type = ''Bearer'',
                     an_expires_in = whole_secs (as_access_ttl s), an_user = user \<rparr>"
    by (auto simp: issueSessionWithQueries_def split: sum.splits prod.splits)
  have hash: "hash = tokenHash (ae_crypto e) refresh" using tok by (auto simp: randomToken_def tokenHash_def Let_def split: sum.splits)
  from exec_Inr [OF ins] have "\<not> aborted t'"
    and "CreateRefreshToken (ae_db_now e) (ae_token_uuid e) f (au_id user) hash (ae_now e + as_refresh_ttl s) (tables t) = (Inr (), tables t')"
    by auto
  then have "session_issued s e user f session (tables t) (tables t')"
    using acc ses hash by (auto simp: session_issued_def refresh_row_def CreateRefreshToken_def split: if_splits)
  with r \<open>\<not> aborted t'\<close> that show thesis by blast
qed

lemma issueSession_Inr:
  assumes "run_state (issueSession s e user) w = (Inr session, w')"
  shows "session_issued s e user (ae_family_uuid e) session (committed w) (committed w')"
  using assms by (auto simp: issueSession_def elim!: in_tx_Inr commit_session_Commits)


subsection \<open>Refreshing\<close>

definition usable :: "time \<Rightarrow> RefreshToken \<Rightarrow> bool" where
  "usable now r \<longleftrightarrow> rt_revoked_at r = None \<and> now < rt_expires_at r \<and>
     (case rt_used_at r of None \<Rightarrow> True | Some t \<Rightarrow> now - t \<le> refreshReuseGrace)"

definition token_with :: "string \<Rightarrow> db \<Rightarrow> RefreshToken option" where
  "token_with h d = row_at rt_token_hash h (refresh_tokens d)"

lemma token_with_find: "List.find (\<lambda>r. rt_token_hash r = h) (refresh_tokens d) = token_with h d"
  by (simp add: token_with_def row_at_def)

lemma find_user: "List.find (\<lambda>r. us_id r = i) (users d) = row_at us_id i (users d)"
  by (simp add: row_at_def)

lemma refreshBody_cases [consumes 1, case_names renewed reused]:
  assumes "run_state (refreshBody s e raw) t = (Commits r, t')"
  obtains (renewed) rec user session d1 where "r = Inr session" "token_with (tokenHash (ae_crypto e) raw) (tables t) = Some rec"
      "usable (ae_now e) rec" "row_at us_id (rt_user_id rec) (users (tables t)) = Some user"
      "d1 = (if rt_used_at rec = None then snd (MarkRefreshTokenUsed (ae_db_now e) (rt_id rec) (tables t)) else tables t)"
      "session_issued s e (userFromDB user) (rt_family_id rec) session d1 (tables t')"
  | (reused) rec where "r = Inl refreshTokenReused" "token_with (tokenHash (ae_crypto e) raw) (tables t) = Some rec"
      "\<not> usable (ae_now e) rec" "rt_used_at rec \<noteq> None \<or> rt_revoked_at rec \<noteq> None"
      "tables t' = revoke_where (ae_db_now e) (\<lambda>r. rt_family_id r = rt_family_id rec) (tables t)"
proof -
  obtain q t1 where q: "run_state (exec (GetRefreshTokenForUpdate (tokenHash (ae_crypto e) raw))) t = (q, t1)" by fastforce
  with assms obtain rec where rec: "q = Inr rec"
    by (auto simp: refreshBody_def split: sum.splits if_splits)
  from exec_Inr [OF q [unfolded rec]] have found: "token_with (tokenHash (ae_crypto e) raw) (tables t) = Some rec" and t1: "tables t1 = tables t"
    by (auto simp: GetRefreshTokenForUpdate_def token_with_find)
  let ?grace = "rt_revoked_at rec = None \<and>
            (case rt_used_at rec of None \<Rightarrow> False | Some used \<Rightarrow> ae_now e - used \<le> refreshReuseGrace) \<and>
            ae_now e < rt_expires_at rec"
  note run = assms [unfolded refreshBody_def, simplified, unfolded q rec, simplified]
  show thesis
  proof (cases ?grace)
    case True
    with run obtain user t2 where u: "row_at us_id (rt_user_id rec) (users (tables t)) = Some user"
      and c: "tables t2 = tables t" "run_state (commit_session s e (userFromDB user) (rt_family_id rec)) t2 = (Commits r, t')"
      by (auto simp: GetUserByID_def find_user t1)
    moreover have "usable (ae_now e) rec" "rt_used_at rec \<noteq> None" using True by (auto simp: usable_def split: option.splits)
    ultimately show thesis using found renewed by (auto elim!: commit_session_Commits)
  next
    case no_grace: False
    show thesis
    proof (cases "rt_used_at rec \<noteq> None \<or> rt_revoked_at rec \<noteq> None")
      case True
      with no_grace run have "r = Inl refreshTokenReused"
        "tables t' = revoke_where (ae_db_now e) (\<lambda>r. rt_family_id r = rt_family_id rec) (tables t)"
        by (auto simp: RevokeRefreshFamily_def t1)
      moreover have "\<not> usable (ae_now e) rec" using no_grace True by (auto simp: usable_def split: option.splits)
      ultimately show thesis using found True reused by blast
    next
      case unused: False
      with no_grace run have exp: "ae_now e < rt_expires_at rec" by (auto split: if_splits)
      with unused no_grace run obtain user t2 where
        u: "row_at us_id (rt_user_id rec) (users (tables t)) = Some user"
        and c: "tables t2 = snd (MarkRefreshTokenUsed (ae_db_now e) (rt_id rec) (tables t))"
            "run_state (commit_session s e (userFromDB user) (rt_family_id rec)) t2 = (Commits r, t')"
        by (auto simp: GetUserByID_def find_user t1 MarkRefreshTokenUsed_def split: if_splits)
      moreover have "usable (ae_now e) rec" using exp unused by (auto simp: usable_def)
      ultimately show thesis using found unused renewed by (auto elim!: commit_session_Commits)
    qed
  qed
qed

end
