(* ===== verification/Auth_Tokens.thy ===== *)
theory Auth_Tokens
  imports Auth_Cases
begin

text \<open>
  Tokens over time: a refresh token family that is revoked stays revoked, and a one-time token
  that is used stays used, through every step of the server.
\<close>

subsection \<open>Refresh token families\<close>

definition dead_family :: "uuid \<Rightarrow> db \<Rightarrow> bool" where
  "dead_family f d \<longleftrightarrow> (\<forall>r\<in>set (refresh_tokens d). rt_family_id r = f \<longrightarrow> rt_revoked_at r \<noteq> None)"

lemma revoked_rows:
  assumes "\<And>r. P (r\<lparr>rt_revoked_at := Some now\<rparr>) = P r"
    and "r \<in> set (update_where (\<lambda>r. P r \<and> rt_revoked_at r = None) (\<lambda>r. r\<lparr>rt_revoked_at := Some now\<rparr>) rows)" "P r"
  shows "rt_revoked_at r \<noteq> None"
  using assms(2,3) assms(1) by (induction rows) (auto split: if_splits)

lemma dead_revoke: "dead_family f (revoke_where now (\<lambda>r. rt_family_id r = f) d)"
proof -
  have "rt_revoked_at r \<noteq> None"
    if "r \<in> set (refresh_tokens (revoke_where now (\<lambda>r. rt_family_id r = f) d))" "rt_family_id r = f" for r
    by (rule revoked_rows [where P = "\<lambda>r. rt_family_id r = f" and now = now and rows = "refresh_tokens d"])
      (use that in \<open>simp_all add: revoke_where_def\<close>)
  then show ?thesis unfolding dead_family_def by blast
qed

lemma dead_family_write:
  assumes "account_write pl F H d d'" "\<not> F f" "dead_family f d"
  shows "dead_family f d'"
  using assms by cases (auto simp: dead_family_def auth_query_defs revoke_where_def set_update_where)

lemma dead_family_writes:
  "account_writes pl F H d d' \<Longrightarrow> \<not> F f \<Longrightarrow> dead_family f d \<Longrightarrow> dead_family f d'"
  by (induction rule: rtranclp_induct) (auto dest: dead_family_write)

lemma token_with_in: "token_with h d = Some r \<Longrightarrow> r \<in> set (refresh_tokens d) \<and> rt_token_hash r = h"
  unfolding token_with_def by (rule row_at_Some)

lemma dead_family_Refresh:
  assumes run: "run_state (Refresh s e raw) w = (r, w')" and dead: "dead_family f (committed w)"
  shows "dead_family f (committed w')"
  using run [unfolded Refresh_def] refreshBody_writes
proof (cases rule: in_tx_auth)
  case kept
  with dead show ?thesis by simp
next
  case (committed t t' r')
  from committed(3) show ?thesis
  proof (cases rule: refreshBody_cases)
    case (renewed rec user session d1)
    have "rt_family_id rec \<noteq> f"
      using renewed(2,3) dead committed(1) by (auto simp: usable_def dead_family_def dest: token_with_in)
    moreover have "dead_family f d1"
      using renewed(5) dead committed(1)
      by (auto simp: dead_family_def MarkRefreshTokenUsed_def set_update_where split: if_splits)
    ultimately show ?thesis
      using renewed(6) committed(5) by (auto simp: session_issued_def dead_family_def refresh_row_def)
  next
    case (reused rec)
    with dead committed(1,5) show ?thesis by (auto simp: dead_family_def revoke_where_def set_update_where)
  qed
qed

lemma dead_family_step:
  assumes "service_step pl e0 (\<lambda>e. ae_family_uuid e \<noteq> f) d d'" "server_ok e0 d" "dead_family f d"
  shows "dead_family f d'"
  using assms(1)
proof cases
  case (auth e)
  from auth(1) have "account_writes pl (\<lambda>g. g \<noteq> f) (\<lambda>_. True) d d'"
    by (rule auth_call_writes) (use auth(2) in \<open>simp_all add: pred_option_def\<close>)
  with assms(3) show ?thesis by (auto intro: dead_family_writes)
next
  case (refresh s e raw w r w')
  with assms(3) dead_family_Refresh [OF refresh(3)] show ?thesis by simp
next
  case (delete u w r w')
  with DeleteAccount_cases(1) [OF delete(3)] assms(3) show ?thesis by (auto simp: dead_family_def cascade_def)
next
  case (user u w r w')
  with User_same assms show ?thesis by metis
next
  case sync
  from server_step_accounts [OF this assms(2)] assms(3) show ?thesis by (simp add: accounts_same_def dead_family_def)
qed

lemma dead_family_steps:
  assumes "(service_step pl e0 (\<lambda>e. ae_family_uuid e \<noteq> f))\<^sup>*\<^sup>* d d'" "accounts_ok pl d" "server_ok e0 d" "dead_family f d"
  shows "dead_family f d'"
  using assms
proof (induction rule: rtranclp_induct)
  case (step d1 d2)
  then have "server_ok e0 d1" using service_steps_ok by blast
  with step show ?case by (blast intro: dead_family_step)
qed simp

text \<open>A token that is not usable is never answered with a session.\<close>

lemma Refresh_Inr:
  assumes "run_state (Refresh s e raw) w = (Inr session, w')"
  obtains rec user d1 where "token_with (tokenHash (ae_crypto e) raw) (committed w) = Some rec"
    "usable (ae_now e) rec" "row_at us_id (rt_user_id rec) (users (committed w)) = Some user"
    "d1 = (if rt_used_at rec = None then snd (MarkRefreshTokenUsed (ae_db_now e) (rt_id rec) (committed w)) else committed w)"
    "session_issued s e (userFromDB user) (rt_family_id rec) session d1 (committed w')"
proof -
  from assms obtain t t' where t: "tables t = committed w" "run_state (refreshBody s e raw) t = (Commits (Inr session), t')"
    "committed w' = tables t'" by (auto simp: Refresh_def elim!: in_tx_Inr)
  from t(2) show thesis
  proof (cases rule: refreshBody_cases)
    case (renewed rec user session' d1)
    show thesis by (rule that [of rec user d1]) (use renewed t in simp_all)
  qed simp
qed

lemma Refresh_dead:
  assumes "token_with (tokenHash (ae_crypto e) raw) (committed w) = Some rec" "dead_family (rt_family_id rec) (committed w)"
  shows "run_state (Refresh s e raw) w \<noteq> (Inr session, w')"
  using assms by (auto elim!: Refresh_Inr simp: usable_def dead_family_def dest: token_with_in)

lemma Refresh_reused:
  assumes "token_with (tokenHash (ae_crypto e) raw) (committed w) = Some rec" "faults w = []"
    and "rt_revoked_at rec \<noteq> None \<or>
      (\<exists>t. rt_used_at rec = Some t \<and> (refreshReuseGrace < ae_now e - t \<or> rt_expires_at rec \<le> ae_now e))"
  shows "run_state (Refresh s e raw) w = (Inl refreshTokenReused,
    w\<lparr>committed := revoke_where (ae_db_now e) (\<lambda>r. rt_family_id r = rt_family_id rec) (committed w)\<rparr>)"
  using assms
  by (auto simp: Refresh_def refreshBody_def run_simps GetRefreshTokenForUpdate_def first_row_def token_with_find
      tx_try_def RevokeRefreshFamily_def Let_def)


subsection \<open>One-time tokens\<close>

definition spent :: "string \<Rightarrow> db \<Rightarrow> bool" where
  "spent h d \<longleftrightarrow> (\<forall>r\<in>set (one_time_tokens d). ot_token_hash r = h \<longrightarrow> ot_used_at r \<noteq> None)"

lemma spent_write:
  assumes "account_write pl F H d d'" "\<not> H h" "spent h d"
  shows "spent h d'"
  using assms by cases (auto simp: spent_def auth_query_defs revoke_where_def set_update_where)

lemma spent_writes: "account_writes pl F H d d' \<Longrightarrow> \<not> H h \<Longrightarrow> spent h d \<Longrightarrow> spent h d'"
  by (induction rule: rtranclp_induct) (auto dest: spent_write)

lemma spent_step:
  assumes "service_step pl e0 (\<lambda>e. drawn e \<noteq> Some h) d d'" "server_ok e0 d" "spent h d"
  shows "spent h d'"
  using assms(1)
proof cases
  case (auth e)
  from auth(1) have "account_writes pl (\<lambda>_. True) (\<lambda>g. g \<noteq> h) d d'"
    by (rule auth_call_writes) (use auth(2) in \<open>auto simp: pred_option_def\<close>)
  with assms(3) show ?thesis by (auto intro: spent_writes)
next
  case (refresh s e raw w r w')
  then have "account_writes pl (\<lambda>_. True) (\<lambda>g. g \<noteq> h) d d'" using state_io_relD [OF Refresh_writes] by simp
  with assms(3) show ?thesis by (auto intro: spent_writes)
next
  case (delete u w r w')
  with DeleteAccount_cases(1) [OF delete(3)] assms(3) show ?thesis by (auto simp: spent_def cascade_def)
next
  case (user u w r w')
  with User_same assms show ?thesis by metis
next
  case sync
  from server_step_accounts [OF this assms(2)] assms(3) show ?thesis by (simp add: accounts_same_def spent_def)
qed

lemma spent_steps:
  assumes "(service_step pl e0 (\<lambda>e. drawn e \<noteq> Some h))\<^sup>*\<^sup>* d d'" "accounts_ok pl d" "server_ok e0 d" "spent h d"
  shows "spent h d'"
  using assms
proof (induction rule: rtranclp_induct)
  case (step d1 d2)
  then have "server_ok e0 d1" using service_steps_ok by blast
  with step show ?case by (blast intro: spent_step)
qed simp

text \<open>\<open>act\<close> is the effect of the action of the token on the database.\<close>

lemma consume_Inr:
  assumes run: "run_state (consumeOneTimeToken s e raw kind act) w = (Inr session, w')"
    and act: "\<And>tok t t'. run_state (act tok) t = (Inr (), t') \<Longrightarrow> eff tok (tables t) (tables t')"
  obtains tok user d1 d2 where "raw \<noteq> []"
    "List.find (\<lambda>r. ot_token_hash r = tokenHash (ae_crypto e) raw \<and> ot_kind r = kind) (one_time_tokens (committed w)) = Some tok"
    "ot_used_at tok = None" "ae_now e < ot_expires_at tok" "eff tok (committed w) d1"
    "d2 = snd (MarkOneTimeTokenUsed (ae_db_now e) (ot_id tok) d1)"
    "row_at us_id (ot_user_id tok) (users d2) = Some user"
    "session_issued s e (if kind = ''verify_email'' \<or> kind = ''reset_password''
       then userFromDB user\<lparr>au_email_verified := True\<rparr> else userFromDB user) (ae_family_uuid e) session d2 (committed w')"
proof -
  from run have raw: "raw \<noteq> []" by (auto simp: consumeOneTimeToken_def)
  with run obtain t t' where t: "tables t = committed w" and body: "run_state (consumeBody s e raw kind act) t = (Commits (Inr session), t')"
    and w': "committed w' = tables t'" by (auto simp: consumeOneTimeToken_def elim!: in_tx_Inr)
  obtain q t1 where q: "run_state (exec (GetOneTimeTokenForUpdate (tokenHash (ae_crypto e) raw) kind)) t = (q, t1)" by fastforce
  with body obtain tok where tok: "q = Inr tok" by (auto simp: consumeBody_def split: sum.splits if_splits)
  from exec_Inr [OF q [unfolded tok]] have found: "List.find (\<lambda>r. ot_token_hash r = tokenHash (ae_crypto e) raw \<and> ot_kind r = kind)
      (one_time_tokens (committed w)) = Some tok" and t1: "tables t1 = tables t"
    by (auto simp: GetOneTimeTokenForUpdate_def t)
  note rest = body [unfolded consumeBody_def, simplified, unfolded q tok, simplified]
  from rest have fresh: "ot_used_at tok = None" "ae_now e < ot_expires_at tok" by (auto split: if_splits)
  obtain a t2 where a: "run_state (act tok) t1 = (a, t2)" by fastforce
  with rest fresh obtain user t3 where
    "a = Inr ()" and t3: "tables t3 = snd (MarkOneTimeTokenUsed (ae_db_now e) (ot_id tok) (tables t2))"
    and user: "row_at us_id (ot_user_id tok) (users (tables t3)) = Some user"
    and fin: "run_state (commit_session s e (if kind = ''verify_email'' \<or> kind = ''reset_password''
       then userFromDB user\<lparr>au_email_verified := True\<rparr> else userFromDB user) (ae_family_uuid e)) t3 = (Commits (Inr session), t')"
    by (auto simp: tx_try_def [of "act tok"] GetUserByID_def find_user Let_def split: sum.splits)
  with act [of tok t1 t2] a t t1 have "eff tok (committed w) (tables t2)" by simp
  with raw found fresh user t3 w' fin that show thesis by (auto elim!: commit_session_Commits)
qed

end
