(* ===== verification/Auth_Flows.thy ===== *)
theory Auth_Flows
  imports Auth_Tokens
begin

text \<open>
  The operations that answer with a session, and those that create, change or claim an account:
  what they require and what they leave behind.
\<close>

subsection \<open>Frames\<close>

lemma row_at_unique: "keys_distinct key rows \<Longrightarrow> r \<in> set rows \<Longrightarrow> key r = k \<Longrightarrow> row_at key k rows = Some r"
  using row_at_in by fastforce

lemma filter_update_other:
  "v \<noteq> u \<Longrightarrow> (\<And>r. owner (g r) = owner r) \<Longrightarrow> (\<And>r. P r \<Longrightarrow> owner r = u) \<Longrightarrow>
   filter (\<lambda>r. owner r = v) (update_where P g rows) = filter (\<lambda>r. owner r = v) rows"
  by (rule filter_update_where_other) auto

lemma filter_update_other_in:
  "v \<noteq> u \<Longrightarrow> (\<And>r. owner (g r) = owner r) \<Longrightarrow> (\<And>r. r \<in> set rows \<Longrightarrow> P r \<Longrightarrow> owner r = u) \<Longrightarrow>
   filter (\<lambda>r. owner r = v) (update_where P g rows) = filter (\<lambda>r. owner r = v) rows"
  by (induction rows) auto

lemma same_account_refl [simp]: "same_account v d d"
  by (simp add: same_account_def)

lemma same_account_trans: "same_account v d d1 \<Longrightarrow> same_account v d1 d2 \<Longrightarrow> same_account v d d2"
  by (simp add: same_account_def)

lemma same_account_session:
  "session_issued s e user f session d d' \<Longrightarrow> v \<noteq> au_id user \<Longrightarrow> same_account v d d'"
  by (auto simp: session_issued_def same_account_def refresh_row_def)

lemma same_account_stmts:
  assumes "v \<noteq> u"
  shows "same_account v d (snd (SetUserEmailVerified now u d))" "same_account v d (snd (UpsertPasswordCredential now u h d))"
    "same_account v d (snd (RevokeAllUserRefreshTokens now u d))" "same_account v d (snd (InvalidateUserOneTimeTokens now u k d))"
    "same_account v d (snd (DeletePasswordCredential u d))" "same_account v d (snd (CreateIdentity now i u p s m d))"
  using assms
  by (auto simp: same_account_def SetUserEmailVerified_def UpsertPasswordCredential_def RevokeAllUserRefreshTokens_def revoke_where_def
      InvalidateUserOneTimeTokens_def DeletePasswordCredential_def CreateIdentity_def filter_delete_other split: option.split
      intro!: filter_update_other)

lemma row_at_verified:
  "row_at us_id i (users (snd (SetUserEmailVerified now u d))) = map_option
     (\<lambda>r. if us_id r = u then r\<lparr>us_email_verified_at := Some (case us_email_verified_at r of None \<Rightarrow> now | Some t \<Rightarrow> t), us_updated_at := now\<rparr> else r)
     (row_at us_id i (users d))"
  by (simp add: SetUserEmailVerified_def row_at_update_where)

lemma spent_marked:
  assumes "keys_distinct ot_token_hash (one_time_tokens d)" "tok \<in> set (one_time_tokens d)" "ot_token_hash tok = h"
  shows "spent h (snd (MarkOneTimeTokenUsed now (ot_id tok) d))"
proof -
  have "r = tok" if "r \<in> set (one_time_tokens d)" "ot_token_hash r = h" for r
    using row_at_unique [OF assms(1) that(1) that(2)] row_at_unique [OF assms(1,2,3)] by simp
  then show ?thesis by (fastforce simp: spent_def MarkOneTimeTokenUsed_def set_update_where)
qed

lemma same_account_marked:
  assumes "keys_distinct ot_id (one_time_tokens d)" "tok \<in> set (one_time_tokens d)" "v \<noteq> ot_user_id tok"
  shows "same_account v d (snd (MarkOneTimeTokenUsed now (ot_id tok) d))"
proof -
  have "r = tok" if "r \<in> set (one_time_tokens d)" "ot_id r = ot_id tok" for r
    using row_at_unique [OF assms(1) that] row_at_in [OF assms(1,2)] by simp
  then have "filter (\<lambda>r. ot_user_id r = v) (one_time_tokens (snd (MarkOneTimeTokenUsed now (ot_id tok) d))) =
      filter (\<lambda>r. ot_user_id r = v) (one_time_tokens d)"
    unfolding MarkOneTimeTokenUsed_def using assms(3)
    by (simp, intro filter_update_other_in [where u = "ot_user_id tok"]) auto
  then show ?thesis by (simp add: same_account_def MarkOneTimeTokenUsed_def)
qed

lemma spent_session: "session_issued s e user f session d d' \<Longrightarrow> spent h d' = spent h d"
  by (auto simp: session_issued_def spent_def)

text \<open>Every refresh token of the account but the new one is revoked.\<close>

definition only_session :: "uuid \<Rightarrow> string \<Rightarrow> db \<Rightarrow> bool" where
  "only_session u h d \<longleftrightarrow> (\<forall>r\<in>set (refresh_tokens d). rt_user_id r = u \<and> rt_token_hash r \<noteq> h \<longrightarrow> rt_revoked_at r \<noteq> None)"

lemma revoked_all:
  assumes "r \<in> set (refresh_tokens (snd (RevokeAllUserRefreshTokens now u d)))" "rt_user_id r = u"
  shows "rt_revoked_at r \<noteq> None"
  by (rule revoked_rows [where P = "\<lambda>r. rt_user_id r = u" and now = now and rows = "refresh_tokens d"])
    (use assms in \<open>simp_all add: RevokeAllUserRefreshTokens_def revoke_where_def\<close>)

lemma only_session_issued:
  assumes "session_issued s e user f session d d'" "\<And>r. r \<in> set (refresh_tokens d) \<Longrightarrow> rt_user_id r = u \<Longrightarrow> rt_revoked_at r \<noteq> None"
  shows "only_session u (tokenHash (ae_crypto e) (an_refresh_token session)) d'"
  using assms by (auto simp: only_session_def session_issued_def refresh_row_def)


subsection \<open>Signing in with a password\<close>

lemma exec_pool_Inr':
  assumes "run_state (exec_pool st) w = (Inr x, w')"
  shows "fst (st (committed w)) = Inr x" "committed w' = snd (st (committed w))"
  using assms by (auto simp: exec_pool_def Let_def split: fault.splits)

lemma exec_pool_NoRows:
  assumes "run_state (exec_pool st) w = (Inl ErrNoRows, w')"
  shows "fst (st (committed w)) = Inl ErrNoRows" "committed w' = snd (st (committed w))"
  using assms by (auto simp: exec_pool_def Let_def split: fault.splits)

definition password_user :: "UserRow \<Rightarrow> AuthUser" where
  "password_user u = \<lparr> au_id = us_id u, au_email = us_email u, au_email_verified = True, au_user_role = us_user_role u \<rparr>"

lemma password_matches_True: "password_matches r = Inr True \<longleftrightarrow> r = Inr True"
  by (auto simp: password_matches_def split: sum.split)

lemma Login_Inr:
  assumes "run_state (Login s e email password) w = (Inr session, w')"
  obtains user cred where "user \<in> set (users (committed w))" "cred \<in> set (password_credentials (committed w))"
    "us_email user = ae_pg_lower e (normalizeEmail e email)" "us_email_verified_at user \<noteq> None" "pc_user_id cred = us_id user"
    "verifyPasswordInternal (ae_crypto e) password (pc_password_hash cred) = Inr True"
    "session_issued s e (password_user user) (ae_family_uuid e) session (committed w) (committed w')"
proof -
  obtain q w1 where q: "run_state (exec_pool (GetPasswordCredentialByEmail (ae_pg_lower e) (normalizeEmail e email))) w = (q, w1)"
    by fastforce
  with assms obtain row where row: "q = Inr row" by (auto simp: Login_def split: sum.splits if_splits)
  note found = exec_pool_Inr' [OF q [unfolded row]]
  then obtain user cred where uc: "List.find (\<lambda>(u, p). pc_user_id p = us_id u \<and> us_email u = ae_pg_lower e (normalizeEmail e email))
      (List.product (users (committed w)) (password_credentials (committed w))) = Some (user, cred)"
    and r: "row = \<lparr> gp_id = us_id user, gp_email = us_email user, gp_email_verified_at = us_email_verified_at user,
           gp_user_role = us_user_role user, gp_password_hash = pc_password_hash cred \<rparr>"
    by (auto simp: GetPasswordCredentialByEmail_def first_row_def split: if_splits option.splits)
  have pm: "password_matches (verifyPassword (ae_crypto e) (ae_verify_slot e) password (pc_password_hash cred)) = Inr True"
    and ver: "us_email_verified_at user \<noteq> None"
    and iss: "run_state (issueSession s e (password_user user)) w1 = (Inr session, w')"
    using assms q row r by (auto simp: Login_def password_user_def split: sum.splits if_splits)
  have "verifyPasswordInternal (ae_crypto e) password (pc_password_hash cred) = Inr True"
    using pm by (auto simp: password_matches_True verifyPassword_def split: option.splits)
  moreover have "committed w1 = committed w" using found by simp
  ultimately show thesis
    using find_Some_in [OF uc] ver issueSession_Inr [OF iss] that by auto
qed


subsection \<open>One-time tokens\<close>

definition token_of_kind :: "string \<Rightarrow> string \<Rightarrow> db \<Rightarrow> OneTimeToken option" where
  "token_of_kind h kind d = List.find (\<lambda>r. ot_token_hash r = h \<and> ot_kind r = kind) (one_time_tokens d)"

lemma token_of_kind_in: "token_of_kind h kind d = Some tok \<Longrightarrow>
  tok \<in> set (one_time_tokens d) \<and> ot_token_hash tok = h \<and> ot_kind tok = kind"
  unfolding token_of_kind_def by (drule find_Some_in) simp

lemma spent_not_found: "spent h d \<Longrightarrow> token_of_kind h kind d = Some tok \<Longrightarrow> ot_used_at tok \<noteq> None"
  by (auto simp: spent_def dest: token_of_kind_in)

text \<open>
  What both kinds of token do: the token was unused and not expired, the account it belongs to
  is verified afterwards and answered, the token is spent, and no other account changes.
\<close>

lemma consume_account:
  assumes run: "run_state (consumeOneTimeToken s e raw kind act) w = (Inr session, w')"
    and kind: "kind = ''verify_email'' \<or> kind = ''reset_password''" and ok: "accounts_ok pl (committed w)"
    and act: "\<And>tok t t'. run_state (act tok) t = (Inr (), t') \<Longrightarrow> eff tok (tables t) (tables t')"
    and tokens: "\<And>tok d d'. eff tok d d' \<Longrightarrow> one_time_tokens d' = one_time_tokens d"
    and verified: "\<And>tok d d' user. eff tok d d' \<Longrightarrow> row_at us_id (ot_user_id tok) (users d') = Some user \<Longrightarrow> us_email_verified_at user \<noteq> None"
    and frame: "\<And>tok d d' v. eff tok d d' \<Longrightarrow> v \<noteq> ot_user_id tok \<Longrightarrow> same_account v d d'"
  obtains tok user d1 d2 where "token_of_kind (tokenHash (ae_crypto e) raw) kind (committed w) = Some tok"
    "ot_used_at tok = None" "ae_now e < ot_expires_at tok" "eff tok (committed w) d1"
    "d2 = snd (MarkOneTimeTokenUsed (ae_db_now e) (ot_id tok) d1)"
    "session_issued s e (userFromDB user) (ae_family_uuid e) session d2 (committed w')"
    "row_at us_id (ot_user_id tok) (users (committed w')) = Some user" "us_email_verified_at user \<noteq> None"
    "spent (tokenHash (ae_crypto e) raw) (committed w')"
    "\<And>v. v \<noteq> ot_user_id tok \<Longrightarrow> same_account v (committed w) (committed w')"
  using run act
proof (rule consume_Inr [where eff = eff])
  fix tok user d1 d2
  assume found: "List.find (\<lambda>r. ot_token_hash r = tokenHash (ae_crypto e) raw \<and> ot_kind r = kind)
      (one_time_tokens (committed w)) = Some tok" "ot_used_at tok = None" "ae_now e < ot_expires_at tok"
    and d1: "eff tok (committed w) d1"
    and d2: "d2 = snd (MarkOneTimeTokenUsed (ae_db_now e) (ot_id tok) d1)"
    and user: "row_at us_id (ot_user_id tok) (users d2) = Some user"
    and ses0: "session_issued s e (if kind = ''verify_email'' \<or> kind = ''reset_password''
       then userFromDB user\<lparr>au_email_verified := True\<rparr> else userFromDB user) (ae_family_uuid e) session d2 (committed w')"
  have user1: "row_at us_id (ot_user_id tok) (users d1) = Some user" using user d2 by (simp add: MarkOneTimeTokenUsed_def)
  have ver: "us_email_verified_at user \<noteq> None" "us_id user = ot_user_id tok"
    using verified [OF d1 user1] row_at_Some [OF user1] by auto
  then have "userFromDB user\<lparr>au_email_verified := True\<rparr> = userFromDB user" by (simp add: userFromDB_def)
  with ses0 kind have ses: "session_issued s e (userFromDB user) (ae_family_uuid e) session d2 (committed w')" by (simp split: if_splits)
  have tok: "tok \<in> set (one_time_tokens d1)" "ot_token_hash tok = tokenHash (ae_crypto e) raw"
    using find_Some_in [OF found(1)] tokens [OF d1] by auto
  have dist: "keys_distinct ot_token_hash (one_time_tokens d1)" "keys_distinct ot_id (one_time_tokens d1)"
    using ok tokens [OF d1] by (simp_all add: accounts_ok_def tokens_ok_def)
  from spent_marked [OF dist(1) tok] have sp: "spent (tokenHash (ae_crypto e) raw) (committed w')"
    using spent_session [OF ses] d2 by simp
  have same: "same_account v (committed w) (committed w')" if "v \<noteq> ot_user_id tok" for v
  proof -
    have "same_account v d1 d2" unfolding d2 by (rule same_account_marked [OF dist(2) tok(1) that])
    moreover have "same_account v d2 (committed w')"
      by (rule same_account_session [OF ses]) (use that ver in \<open>simp add: userFromDB_def\<close>)
    ultimately show ?thesis using frame [OF d1 that] same_account_trans by blast
  qed
  have "users (committed w') = users d2" using ses by (simp add: session_issued_def)
  with found d1 d2 ses user ver sp same show thesis by (intro that [of tok d1 d2 user]) (auto simp: token_of_kind_def)
qed

definition verified_account :: "OneTimeToken \<Rightarrow> db \<Rightarrow> db \<Rightarrow> bool" where
  "verified_account tok d d' \<longleftrightarrow> (\<exists>now. d' = snd (SetUserEmailVerified now (ot_user_id tok) d))"

definition reset_account :: "string \<Rightarrow> OneTimeToken \<Rightarrow> db \<Rightarrow> db \<Rightarrow> bool" where
  "reset_account hash tok d d' \<longleftrightarrow>
     (\<exists>now d1 d2. d1 = snd (SetUserEmailVerified now (ot_user_id tok) d) \<and>
        UpsertPasswordCredential now (ot_user_id tok) hash d1 = (Inr (), d2) \<and>
        d' = snd (RevokeAllUserRefreshTokens now (ot_user_id tok) d2))"

lemma verified_user:
  "row_at us_id u (users (snd (SetUserEmailVerified now u d))) = Some user \<Longrightarrow> us_email_verified_at user \<noteq> None"
  by (auto simp: row_at_verified dest: row_at_Some)

lemma Upsert_frame:
  "UpsertPasswordCredential now u h d = (Inr (), d') \<Longrightarrow> users d' = users d \<and> one_time_tokens d' = one_time_tokens d \<and>
     refresh_tokens d' = refresh_tokens d"
  by (auto simp: UpsertPasswordCredential_def split: if_splits)

lemma VerifyEmail_Inr:
  assumes "run_state (VerifyEmail s e raw) w = (Inr session, w')" "accounts_ok pl (committed w)"
  obtains tok user where "token_of_kind (tokenHash (ae_crypto e) raw) ''verify_email'' (committed w) = Some tok"
    "ot_used_at tok = None" "ae_now e < ot_expires_at tok"
    "row_at us_id (ot_user_id tok) (users (committed w')) = Some user" "us_email_verified_at user \<noteq> None"
    "an_user session = userFromDB user" "spent (tokenHash (ae_crypto e) raw) (committed w')"
    "\<And>v. v \<noteq> ot_user_id tok \<Longrightarrow> same_account v (committed w) (committed w')"
    "password_credentials (committed w') = password_credentials (committed w)"
proof (rule consume_account [OF assms(1) [unfolded VerifyEmail_def] _ assms(2), where eff = verified_account])
  show "verified_account tok (tables t) (tables t')"
    if "run_state (exec (SetUserEmailVerified (ae_db_now e) (ot_user_id tok))) t = (Inr (), t')" for tok t t'
    using exec_Inr [OF that] unfolding verified_account_def by (metis snd_conv)
  show "us_email_verified_at user \<noteq> None" if "verified_account tok d d'" "row_at us_id (ot_user_id tok) (users d') = Some user" for tok d d' user
    using that by (auto simp: verified_account_def dest: verified_user)
  show "same_account v d d'" if "verified_account tok d d'" "v \<noteq> ot_user_id tok" for tok d d' v
    using that by (auto simp: verified_account_def intro: same_account_stmts)
qed (auto intro: that simp: verified_account_def SetUserEmailVerified_def session_issued_def MarkOneTimeTokenUsed_def)

lemma applyReset_Inr:
  assumes "run_state (applyReset e hash tok) t = (Inr (), t')"
  shows "reset_account hash tok (tables t) (tables t')"
proof -
  from assms obtain t1 t2 where
    "run_state (exec (SetUserEmailVerified (ae_db_now e) (ot_user_id tok))) t = (Inr (), t1)"
    "run_state (exec (UpsertPasswordCredential (ae_db_now e) (ot_user_id tok) hash)) t1 = (Inr (), t2)"
    "run_state (exec (RevokeAllUserRefreshTokens (ae_db_now e) (ot_user_id tok))) t2 = (Inr (), t')"
    by (auto simp: applyReset_def split: sum.splits prod.splits)
  from this [THEN exec_Inr] show ?thesis unfolding reset_account_def by (metis snd_conv)
qed

lemma upserted:
  assumes "UpsertPasswordCredential now u h d = (Inr (), d')"
  shows "map_option pc_password_hash (row_at pc_user_id u (password_credentials d')) = Some h"
proof (cases "row_at pc_user_id u (password_credentials d)")
  case None
  then have "\<not> exists_row (\<lambda>x. pc_user_id x = u) (password_credentials d)" by (simp add: not_exists_row_key)
  with assms None show ?thesis by (auto simp: UpsertPasswordCredential_def row_at_append split: if_splits)
next
  case (Some r)
  then have "exists_row (\<lambda>x. pc_user_id x = u) (password_credentials d)" "pc_user_id r = u"
    using not_exists_row_key [of pc_user_id u] row_at_Some by force+
  with assms Some show ?thesis
    by (auto simp: UpsertPasswordCredential_def row_at_update_where split: if_splits)
qed

lemma ResetPassword_Inr:
  assumes run: "run_state (ResetPassword s e raw password) w = (Inr session, w')" and ok: "accounts_ok pl (committed w)"
  obtains tok user hash where "token_of_kind (tokenHash (ae_crypto e) raw) ''reset_password'' (committed w) = Some tok"
    "ot_used_at tok = None" "ae_now e < ot_expires_at tok"
    "row_at us_id (ot_user_id tok) (users (committed w')) = Some user" "us_email_verified_at user \<noteq> None"
    "an_user session = userFromDB user" "spent (tokenHash (ae_crypto e) raw) (committed w')"
    "\<And>v. v \<noteq> ot_user_id tok \<Longrightarrow> same_account v (committed w) (committed w')"
    "validatePassword password = None" "hashPassword (ae_crypto e) (ae_hash_slot e) (ae_salt e) password = Inr hash"
    "map_option pc_password_hash (row_at pc_user_id (ot_user_id tok) (password_credentials (committed w'))) = Some hash"
    "only_session (ot_user_id tok) (tokenHash (ae_crypto e) (an_refresh_token session)) (committed w')"
proof -
  from run obtain hash where hash: "validatePassword password = None"
      "hashPassword (ae_crypto e) (ae_hash_slot e) (ae_salt e) password = Inr hash"
    and run': "run_state (consumeOneTimeToken s e raw ''reset_password'' (applyReset e hash)) w = (Inr session, w')"
    by (auto simp: ResetPassword_def split: option.splits sum.splits)
  show thesis
  proof (rule consume_account [OF run' _ ok, where eff = "reset_account hash"])
    show "reset_account hash tok (tables t) (tables t')" if "run_state (applyReset e hash tok) t = (Inr (), t')" for tok t t'
      using that by (rule applyReset_Inr)
  next
    show "one_time_tokens d' = one_time_tokens d" if "reset_account hash tok d d'" for tok d d'
      using that by (auto simp: reset_account_def RevokeAllUserRefreshTokens_def revoke_where_def SetUserEmailVerified_def dest!: Upsert_frame)
    show "us_email_verified_at user \<noteq> None"
      if "reset_account hash tok d d'" "row_at us_id (ot_user_id tok) (users d') = Some user" for tok d d' user
      using that by (auto simp: reset_account_def RevokeAllUserRefreshTokens_def revoke_where_def dest!: Upsert_frame verified_user)
    show "same_account v d d'" if "reset_account hash tok d d'" "v \<noteq> ot_user_id tok" for tok d d' v
      using that unfolding reset_account_def by (metis same_account_stmts(1,2,3) same_account_trans snd_conv)
  next
    fix tok user d1 d2
    assume found: "token_of_kind (tokenHash (ae_crypto e) raw) ''reset_password'' (committed w) = Some tok"
      "ot_used_at tok = None" "ae_now e < ot_expires_at tok" and d1: "reset_account hash tok (committed w) d1"
      and d2: "d2 = snd (MarkOneTimeTokenUsed (ae_db_now e) (ot_id tok) d1)"
      and ses: "session_issued s e (userFromDB user) (ae_family_uuid e) session d2 (committed w')"
      and rest: "row_at us_id (ot_user_id tok) (users (committed w')) = Some user" "us_email_verified_at user \<noteq> None"
      "spent (tokenHash (ae_crypto e) raw) (committed w')"
      "\<And>v. v \<noteq> ot_user_id tok \<Longrightarrow> same_account v (committed w) (committed w')"
    have "map_option pc_password_hash (row_at pc_user_id (ot_user_id tok) (password_credentials d1)) = Some hash"
      using d1 by (auto simp: reset_account_def RevokeAllUserRefreshTokens_def revoke_where_def dest!: upserted)
    moreover have "rt_revoked_at r \<noteq> None" if "r \<in> set (refresh_tokens d2)" "rt_user_id r = ot_user_id tok" for r
      using that d1 d2 revoked_all by (auto simp: reset_account_def MarkOneTimeTokenUsed_def)
    ultimately show thesis
      using that [of tok user hash] found hash rest ses d2 only_session_issued [OF ses]
      by (auto simp: session_issued_def MarkOneTimeTokenUsed_def)
  qed simp
qed

end
