(* ===== verification/Auth_Accounts.thy ===== *)
theory Auth_Accounts
  imports Auth_Flows
begin

text \<open>
  Federated sign-in: the three ways it ends in a session. The identity was linked before, or an
  unverified account of the same email is taken over with everything unproven removed, or a new
  account is created.
\<close>

lemma find_email: "List.find (\<lambda>r. us_email r = m) (users d) = row_at us_email m (users d)"
  by (simp add: row_at_def)

lemma GetUserByIdentity_Inr:
  assumes "fst (GetUserByIdentity provider subject d) = Inr user"
  shows "user \<in> set (users d) \<and> (\<exists>i\<in>set (identities d). id_provider i = provider \<and> id_subject i = subject \<and> id_user_id i = us_id user)"
  using assms by (auto simp: GetUserByIdentity_def first_row_def split: if_splits option.splits dest!: find_Some_in)

lemma GetUserByEmail_Inr:
  "fst (GetUserByEmail pl m d) = Inr user \<longleftrightarrow> text_ok m \<and> row_at us_email (pl m) (users d) = Some user"
  "fst (GetUserByEmailForUpdate pl m d) = Inr user \<longleftrightarrow> text_ok m \<and> row_at us_email (pl m) (users d) = Some user"
  by (auto simp: GetUserByEmail_def GetUserByEmailForUpdate_def find_email)

text \<open>The statements of \<open>claimUnverifiedAccount\<close> before the identity is stored.\<close>

definition strip_account :: "time \<Rightarrow> uuid \<Rightarrow> db \<Rightarrow> db" where
  "strip_account now u d = snd (SetUserEmailVerified now u (snd (InvalidateUserOneTimeTokens now u ''reset_password''
     (snd (InvalidateUserOneTimeTokens now u ''verify_email'' (snd (RevokeAllUserRefreshTokens now u
        (snd (DeletePasswordCredential u d)))))))))"

definition all_spent :: "uuid \<Rightarrow> db \<Rightarrow> bool" where
  "all_spent u d \<longleftrightarrow> (\<forall>r\<in>set (one_time_tokens d). ot_user_id r = u \<longrightarrow> ot_used_at r \<noteq> None)"

lemma marked_rows:
  assumes "\<And>r. P (r\<lparr>ot_used_at := Some now\<rparr>) = P r"
    and "r \<in> set (update_where (\<lambda>r. P r \<and> ot_used_at r = None) (\<lambda>r. r\<lparr>ot_used_at := Some now\<rparr>) rows)" "P r"
  shows "ot_used_at r \<noteq> None"
  using assms(2,3) assms(1) by (induction rows) (auto split: if_splits)

lemma invalidated_rows:
  assumes "r \<in> set (one_time_tokens (snd (InvalidateUserOneTimeTokens now u k d)))" "ot_user_id r = u" "ot_kind r = k"
  shows "ot_used_at r \<noteq> None"
  by (rule marked_rows [where P = "\<lambda>r. ot_user_id r = u \<and> ot_kind r = k" and now = now and rows = "one_time_tokens d"])
    (use assms in \<open>simp_all add: InvalidateUserOneTimeTokens_def conj_assoc\<close>)

lemma invalidate_keeps_kinds:
  "(\<And>r. r \<in> set rows \<Longrightarrow> P (ot_kind r) \<or> ot_user_id r \<noteq> u \<or> ot_used_at r \<noteq> None) \<Longrightarrow>
   r \<in> set (update_where Q (\<lambda>r. r\<lparr>ot_used_at := Some now\<rparr>) rows) \<Longrightarrow> P (ot_kind r) \<or> ot_user_id r \<noteq> u \<or> ot_used_at r \<noteq> None"
  by (induction rows) (auto split: if_splits)

lemma strip_account_props:
  assumes "accounts_ok pl d"
  shows "all_spent u (strip_account now u d)" "row_at pc_user_id u (password_credentials (strip_account now u d)) = None"
    "r \<in> set (refresh_tokens (strip_account now u d)) \<Longrightarrow> rt_user_id r = u \<Longrightarrow> rt_revoked_at r \<noteq> None"
    "row_at us_id u (users (strip_account now u d)) = Some user \<Longrightarrow> us_email_verified_at user \<noteq> None"
    "v \<noteq> u \<Longrightarrow> same_account v d (strip_account now u d)"
    "identities (strip_account now u d) = identities d"
proof -
  let ?d1 = "snd (RevokeAllUserRefreshTokens now u (snd (DeletePasswordCredential u d)))"
  let ?d2 = "snd (InvalidateUserOneTimeTokens now u ''verify_email'' ?d1)"
  let ?d3 = "snd (InvalidateUserOneTimeTokens now u ''reset_password'' ?d2)"
  have kinds: "ot_kind r \<noteq> ''verify_email'' \<longrightarrow> ot_kind r = ''reset_password''" if "r \<in> set (one_time_tokens d)" for r
    using assms that by (auto simp: accounts_ok_def tokens_ok_def)
  have tok1: "one_time_tokens ?d1 = one_time_tokens d"
    by (simp add: RevokeAllUserRefreshTokens_def revoke_where_def DeletePasswordCredential_def)
  have kinds2: "ot_kind r = ''verify_email'' \<or> ot_kind r = ''reset_password''" if "r \<in> set (one_time_tokens ?d2)" for r
    using that kinds tok1 by (auto simp: InvalidateUserOneTimeTokens_def set_update_where)
  have "ot_kind r = ''reset_password'' \<or> ot_user_id r \<noteq> u \<or> ot_used_at r \<noteq> None" if "r \<in> set (one_time_tokens ?d2)" for r
    using kinds2 [OF that] invalidated_rows [OF that] by blast
  then have "ot_kind r = ''reset_password'' \<or> ot_user_id r \<noteq> u \<or> ot_used_at r \<noteq> None" if "r \<in> set (one_time_tokens ?d3)" for r
    using that invalidate_keeps_kinds [of "one_time_tokens ?d2" "\<lambda>k. k = ''reset_password''" u r]
    by (auto simp: InvalidateUserOneTimeTokens_def)
  then have "ot_used_at r \<noteq> None" if "r \<in> set (one_time_tokens ?d3)" "ot_user_id r = u" for r
    using that invalidated_rows [OF that(1,2)] by blast
  then show "all_spent u (strip_account now u d)"
    unfolding all_spent_def strip_account_def by (auto simp: SetUserEmailVerified_def)
  show "row_at pc_user_id u (password_credentials (strip_account now u d)) = None"
    by (simp add: strip_account_def SetUserEmailVerified_def InvalidateUserOneTimeTokens_def RevokeAllUserRefreshTokens_def
        revoke_where_def DeletePasswordCredential_def row_at_None)
  show "rt_revoked_at r \<noteq> None" if "r \<in> set (refresh_tokens (strip_account now u d))" "rt_user_id r = u"
    using that revoked_all [of r now u "snd (DeletePasswordCredential u d)"]
    by (auto simp: strip_account_def SetUserEmailVerified_def InvalidateUserOneTimeTokens_def)
  show "us_email_verified_at user \<noteq> None" if "row_at us_id u (users (strip_account now u d)) = Some user"
    using that unfolding strip_account_def by (rule verified_user)
  show "same_account v d (strip_account now u d)" if "v \<noteq> u"
    unfolding strip_account_def using same_account_stmts [OF that] by (meson same_account_trans)
  show "identities (strip_account now u d) = identities d"
    by (simp add: strip_account_def SetUserEmailVerified_def InvalidateUserOneTimeTokens_def RevokeAllUserRefreshTokens_def
        revoke_where_def DeletePasswordCredential_def)
qed

lemma claimBody_Commits:
  assumes "run_state (claimBody s e provider ident) t = (Commits (Inr session), t')"
  obtains user d2 where "row_at us_email (ae_pg_lower e (fd_email ident)) (users (tables t)) = Some user"
    "us_email_verified_at user = None" "filter (\<lambda>r. id_user_id r = us_id user) (identities (tables t)) = []"
    "CreateIdentity (ae_db_now e) (ae_identity_uuid e) (us_id user) provider (fd_subject ident) (Some (fd_email ident))
       (strip_account (ae_db_now e) (us_id user) (tables t)) = (Inr (), d2)"
    "session_issued s e \<lparr> au_id = us_id user, au_email = us_email user, au_email_verified = True,
       au_user_role = au_user_role (userFromDB user) \<rparr> (ae_family_uuid e) session d2 (tables t')"
proof -
  obtain q t1 where q: "run_state (exec (GetUserByEmailForUpdate (ae_pg_lower e) (fd_email ident))) t = (q, t1)" by fastforce
  with assms obtain user where user: "q = Inr user" by (auto simp: claimBody_def split: sum.splits if_splits)
  from exec_Inr [OF q [unfolded user]] have found: "row_at us_email (ae_pg_lower e (fd_email ident)) (users (tables t)) = Some user"
    and t1: "tables t1 = tables t"
    by (auto simp: GetUserByEmailForUpdate_def find_email split: if_splits)
  note run = assms [unfolded claimBody_def, simplified, unfolded q user, simplified]
  from run have unv: "us_email_verified_at user = None" by (auto split: if_splits)
  with run obtain t2 r' t3 where
    none: "filter (\<lambda>r. id_user_id r = us_id user) (identities (tables t)) = []"
    and t2: "tables t2 = strip_account (ae_db_now e) (us_id user) (tables t)"
    and ins: "run_state (exec (CreateIdentity (ae_db_now e) (ae_identity_uuid e) (us_id user) provider (fd_subject ident) (Some (fd_email ident)))) t2 = (Inr (), t3)"
    and fin: "run_state (commit_session s e \<lparr> au_id = us_id user, au_email = us_email user, au_email_verified = True,
       au_user_role = au_user_role (userFromDB user) \<rparr> (ae_family_uuid e)) t3 = (Commits (Inr session), t')"
    by (auto simp: t1 strip_account_def CountUserIdentities_def split: if_splits sum.splits prod.splits)
  from exec_Inr [OF ins] t2 that [OF found unv none] fin show thesis by (auto elim!: commit_session_Commits)
qed

lemma identity_created:
  assumes "CreateIdentity now i u provider subject m d = (Inr (), d')"
  shows "d' = d\<lparr>identities := identities d @ [\<lparr> id_id = i, id_user_id = u, id_provider = provider, id_subject = subject,
           id_email = m, id_created_at = now \<rparr>]\<rparr>" "provider = ''google''"
    "\<not> exists_row (\<lambda>x. id_provider x = provider \<and> id_subject x = subject) (identities d)"
  using assms by (auto simp: CreateIdentity_def exists_row_iff split: if_splits)

text \<open>What is true of an account after it was claimed.\<close>

definition claimed :: "uuid \<Rightarrow> string \<Rightarrow> string \<Rightarrow> string \<Rightarrow> db \<Rightarrow> bool" where
  "claimed u provider subject h d \<longleftrightarrow>
     (\<exists>r\<in>set (identities d). id_user_id r = u \<and> id_provider r = provider \<and> id_subject r = subject) \<and>
     (\<exists>r. row_at us_id u (users d) = Some r \<and> us_email_verified_at r \<noteq> None) \<and>
     row_at pc_user_id u (password_credentials d) = None \<and> all_spent u d \<and> only_session u h d"

lemma claim_Inr:
  assumes run: "run_state (claimUnverifiedAccount s e provider ident) w = (Inr session, w')" and ok: "accounts_ok pl (committed w)"
  obtains user where "row_at us_email (ae_pg_lower e (fd_email ident)) (users (committed w)) = Some user"
    "us_email_verified_at user = None" "\<not> exists_row (\<lambda>r. id_user_id r = us_id user) (identities (committed w))"
    "au_id (an_user session) = us_id user"
    "claimed (us_id user) provider (fd_subject ident) (tokenHash (ae_crypto e) (an_refresh_token session)) (committed w')"
    "\<And>v. v \<noteq> us_id user \<Longrightarrow> same_account v (committed w) (committed w')"
proof -
  from run obtain t t' where t: "tables t = committed w" "committed w' = tables t'"
    and body: "run_state (claimBody s e provider ident) t = (Commits (Inr session), t')"
    by (auto simp: claimUnverifiedAccount_def elim!: in_tx_Inr)
  from body show thesis
  proof (rule claimBody_Commits)
    fix user :: UserRow and d2 :: db
    let ?d1 = "strip_account (ae_db_now e) (us_id user) (tables t)"
    assume found: "row_at us_email (ae_pg_lower e (fd_email ident)) (users (tables t)) = Some user"
      and unv: "us_email_verified_at user = None" and none: "filter (\<lambda>r. id_user_id r = us_id user) (identities (tables t)) = []"
      and ident: "CreateIdentity (ae_db_now e) (ae_identity_uuid e) (us_id user) provider (fd_subject ident) (Some (fd_email ident)) ?d1 = (Inr (), d2)"
      and ses: "session_issued s e \<lparr> au_id = us_id user, au_email = us_email user, au_email_verified = True,
       au_user_role = au_user_role (userFromDB user) \<rparr> (ae_family_uuid e) session d2 (tables t')"
    note strip = strip_account_props [OF ok [folded t(1)], where u = "us_id user" and now = "ae_db_now e"]
    note d2 = identity_created [OF ident]
    have "user_exists (us_id user) ?d1" using ident by (auto simp: CreateIdentity_def split: if_splits)
    then obtain r where r: "row_at us_id (us_id user) (users ?d1) = Some r"
      by (metis not_exists_row_key not_None_eq user_exists_def)
    have "claimed (us_id user) provider (fd_subject ident) (tokenHash (ae_crypto e) (an_refresh_token session)) (tables t')"
      using strip(1,2) strip(4) [OF r] r d2(1) ses only_session_issued [OF ses, of "us_id user"] strip(3)
      by (auto simp: claimed_def session_issued_def all_spent_def)
    moreover have "same_account v (tables t) (tables t')" if "v \<noteq> us_id user" for v
    proof -
      have "same_account v ?d1 d2" using same_account_stmts(6) [OF that, of ?d1] ident by (metis snd_conv)
      moreover have "same_account v d2 (tables t')" by (rule same_account_session [OF ses]) (use that in simp)
      ultimately show ?thesis using strip(5) [OF that] same_account_trans by blast
    qed
    moreover have "\<not> exists_row (\<lambda>r. id_user_id r = us_id user) (identities (tables t))"
      using none by (auto simp: exists_row_iff filter_empty_conv)
    ultimately show thesis using that [of user] found unv ses t by (auto simp: session_issued_def)
  qed
qed

lemma user_inserted:
  assumes "fst (insert_user pl r d) = Inr x"
  shows "snd (insert_user pl r d) = d\<lparr>users := users d @ [r]\<rparr>" "\<not> user_exists (us_id r) d" "x = r"
    "\<not> exists_row (\<lambda>y. pl (us_email y) = pl (us_email r)) (users d)" "us_email r = pl (us_email r)"
  using assms by (auto simp: insert_user_def user_exists_def exists_row_iff split: if_splits)

lemma same_account_inserted: "v \<noteq> us_id r \<Longrightarrow> same_account v d (snd (insert_user pl r d))"
  by (auto simp: insert_user_def same_account_def)

lemma federatedSignup_Commits:
  assumes "run_state (federatedSignup s e provider ident) t = (Commits (Inr session), t')"
  shows "\<not> user_exists (ae_user_uuid e) (tables t)" "au_id (an_user session) = ae_user_uuid e"
    "\<exists>i\<in>set (identities (tables t')). id_user_id i = ae_user_uuid e \<and> id_provider i = provider \<and> id_subject i = fd_subject ident"
    "v \<noteq> ae_user_uuid e \<Longrightarrow> same_account v (tables t) (tables t')"
proof -
  obtain q t1 where q: "run_state (exec (CreateUser (ae_pg_lower e) (ae_db_now e) (ae_user_uuid e) (fd_email ident))) t = (q, t1)" by fastforce
  with assms obtain row where row: "q = Inr row" by (auto simp: federatedSignup_def split: sum.splits if_splits)
  from exec_Inr [OF q [unfolded row]] have ins: "fst (CreateUser (ae_pg_lower e) (ae_db_now e) (ae_user_uuid e) (fd_email ident) (tables t)) = Inr row"
    and t1: "tables t1 = snd (CreateUser (ae_pg_lower e) (ae_db_now e) (ae_user_uuid e) (fd_email ident) (tables t))" by auto
  note run = assms [unfolded federatedSignup_def, simplified, unfolded q row, simplified]
  let ?ident = "CreateIdentity (ae_db_now e) (ae_identity_uuid e) (ae_user_uuid e) provider (fd_subject ident) (Some (fd_email ident))"
  let ?fin = "commit_session s e \<lparr> au_id = ae_user_uuid e, au_email = fd_email ident, au_email_verified = True, au_user_role = RoleUser \<rparr>
       (ae_family_uuid e)"
  from run obtain t2 where t2: "tables t2 = snd (SetUserEmailVerified (ae_db_now e) (ae_user_uuid e) (tables t1))"
    and rest: "run_state (tx_try (exec ?ident) (\<lambda>_. ?fin)) t2 = (Commits (Inr session), t')"
    by (rule tx_try_Commits)
  from rest obtain x t3 where ok: "fst (?ident (tables t2)) = Inr x" and t3: "tables t3 = snd (?ident (tables t2))"
    and fin: "run_state ?fin t3 = (Commits (Inr session), t')"
    by (rule tx_try_Commits)
  from ok t3 have ident: "CreateIdentity (ae_db_now e) (ae_identity_uuid e) (ae_user_uuid e) provider (fd_subject ident) (Some (fd_email ident)) (tables t2) = (Inr (), tables t3)"
    by (simp add: prod_eq_iff)
  from fin have ses: "session_issued s e \<lparr> au_id = ae_user_uuid e, au_email = fd_email ident, au_email_verified = True, au_user_role = RoleUser \<rparr>
       (ae_family_uuid e) session (tables t3) (tables t')" by (auto elim!: commit_session_Commits)
  show "\<not> user_exists (ae_user_uuid e) (tables t)" using user_inserted(2) [OF ins [unfolded CreateUser_def]] by simp
  show "au_id (an_user session) = ae_user_uuid e" using ses by (simp add: session_issued_def)
  show "\<exists>i\<in>set (identities (tables t')). id_user_id i = ae_user_uuid e \<and> id_provider i = provider \<and> id_subject i = fd_subject ident"
    using ses identity_created(1) [OF ident] by (auto simp: session_issued_def)
  show "same_account v (tables t) (tables t')" if "v \<noteq> ae_user_uuid e"
  proof -
    have "same_account v (tables t) (tables t1)" unfolding t1 CreateUser_def by (rule same_account_inserted) (use that in simp)
    moreover have "same_account v (tables t1) (tables t2)" unfolding t2 by (rule same_account_stmts(1) [OF that])
    moreover have "same_account v (tables t2) (tables t3)" using same_account_stmts(6) [OF that, of "tables t2"] ident by (metis snd_conv)
    moreover have "same_account v (tables t3) (tables t')" by (rule same_account_session [OF ses]) (use that in simp)
    ultimately show ?thesis by (meson same_account_trans)
  qed
qed

definition linked :: "uuid \<Rightarrow> string \<Rightarrow> string \<Rightarrow> db \<Rightarrow> bool" where
  "linked u provider subject d \<longleftrightarrow>
     exists_row (\<lambda>i. id_user_id i = u \<and> id_provider i = provider \<and> id_subject i = subject) (identities d)"

lemma FederatedLogin_Inr:
  assumes run: "run_state (FederatedLogin s e provider input) w = (Inr session, w')" and ok: "accounts_ok pl (committed w)"
  obtains ident u where "as_federated s provider input = Inr ident" "u = au_id (an_user session)"
    "linked u provider (fd_subject ident) (committed w')" "\<And>v. v \<noteq> u \<Longrightarrow> same_account v (committed w) (committed w')"
    "\<And>r. row_at us_id u (users (committed w)) = Some r \<Longrightarrow> linked u provider (fd_subject ident) (committed w) \<or>
        us_email_verified_at r = None \<and> \<not> exists_row (\<lambda>i. id_user_id i = u) (identities (committed w)) \<and>
        claimed u provider (fd_subject ident) (tokenHash (ae_crypto e) (an_refresh_token session)) (committed w')"
proof -
  from run obtain ident where ident: "as_federated s provider input = Inr ident"
    by (auto simp: FederatedLogin_def split: sum.splits)
  obtain q w1 where q: "run_state (exec_pool (GetUserByIdentity provider (fd_subject ident))) w = (q, w1)" by fastforce
  note run1 = run [unfolded FederatedLogin_def ident, simplified, unfolded q, simplified]
  show thesis
  proof (cases q)
    case (Inr user)
    from exec_pool_Inr' [OF q [unfolded Inr]] have w1: "committed w1 = committed w"
      and l: "linked (us_id user) provider (fd_subject ident) (committed w)"
      by (auto simp: linked_def exists_row_iff dest: GetUserByIdentity_Inr)
    from run1 Inr have "run_state (issueSession s e (userFromDB user)) w1 = (Inr session, w')" by simp
    from issueSession_Inr [OF this] w1 have ses: "session_issued s e (userFromDB user) (ae_family_uuid e) session (committed w) (committed w')"
      by simp
    show thesis
      by (rule that [OF ident refl]) (use ses l same_account_session [OF ses] in \<open>auto simp: session_issued_def userFromDB_def linked_def\<close>)
  next
    case (Inl err)
    with run1 have "err = ErrNoRows" by (auto split: if_splits)
    with q Inl exec_pool_NoRows have w1: "committed w1 = committed w" by fastforce
    obtain q' w2 where q': "run_state (exec_pool (GetUserByEmail (ae_pg_lower e) (fd_email ident))) w1 = (q', w2)" by fastforce
    note run2 = run1 [unfolded Inl \<open>err = ErrNoRows\<close>, simplified, unfolded q', simplified]
    show thesis
    proof (cases q')
      case (Inr existing)
      with run2 have run3: "run_state (claimUnverifiedAccount s e provider ident) w2 = (Inr session, w')" by (auto split: if_splits)
      have w2: "committed w2 = committed w" using exec_pool_Inr' [OF q' [unfolded Inr]] w1 by simp
      from run3 ok [folded w2] show thesis
      proof (rule claim_Inr)
        fix user :: UserRow
        assume c: "us_email_verified_at user = None" "\<not> exists_row (\<lambda>r. id_user_id r = us_id user) (identities (committed w2))"
          "au_id (an_user session) = us_id user"
          "claimed (us_id user) provider (fd_subject ident) (tokenHash (ae_crypto e) (an_refresh_token session)) (committed w')"
          "\<And>v. v \<noteq> us_id user \<Longrightarrow> same_account v (committed w2) (committed w')"
          "row_at us_email (ae_pg_lower e (fd_email ident)) (users (committed w2)) = Some user"
        have "r = user" if "row_at us_id (us_id user) (users (committed w)) = Some r" for r
          using ok that row_at_Some [OF c(6)] w2 row_at_in [of us_id "users (committed w)" user]
          by (auto simp: accounts_ok_def users_ok_def)
        then show thesis
          by (intro that [OF ident refl]) (use c w2 in \<open>auto simp: claimed_def linked_def exists_row_iff\<close>)
      qed
    next
      case (Inl err')
      with run2 have "err' = ErrNoRows" and run3: "run_state (in_tx (federatedSignup s e provider ident)) w2 = (Inr session, w')"
        by (auto split: if_splits)
      with q' Inl exec_pool_NoRows w1 have w2: "committed w2 = committed w" by fastforce
      from run3 obtain t t' where t: "tables t = committed w" "committed w' = tables t'"
        and body: "run_state (federatedSignup s e provider ident) t = (Commits (Inr session), t')"
        using w2 by (auto elim!: in_tx_Inr)
      note new = federatedSignup_Commits [OF body]
      show thesis
      proof (rule that [OF ident refl])
        fix r assume "row_at us_id (au_id (an_user session)) (users (committed w)) = Some r"
        with new(1,2) t show "linked (au_id (an_user session)) provider (fd_subject ident) (committed w) \<or>
            us_email_verified_at r = None \<and> \<not> exists_row (\<lambda>i. id_user_id i = au_id (an_user session)) (identities (committed w)) \<and>
            claimed (au_id (an_user session)) provider (fd_subject ident) (tokenHash (ae_crypto e) (an_refresh_token session)) (committed w')"
          by (simp add: user_exists_def not_exists_row_key)
      qed (use new t in \<open>auto simp: linked_def exists_row_iff\<close>)
    qed
  qed
qed

end
