(* ===== verification/Auth_Register.thy ===== *)
theory Auth_Register
  imports Auth_Accounts
begin

text \<open>
  Registration, verification and sign-in on a working connection: what each operation answers,
  and that they fit together.
\<close>

lemma find_unique:
  assumes "x \<in> set xs" "P x" "\<And>y. y \<in> set xs \<Longrightarrow> P y \<Longrightarrow> y = x"
  shows "List.find P xs = Some x"
proof (cases "List.find P xs")
  case None
  with assms(1,2) show ?thesis by (auto simp: find_None_iff)
next
  case (Some y)
  then show ?thesis using assms(3) [of y] find_Some_in [OF Some] by simp
qed

lemma in_update_where: "x \<in> set xs \<Longrightarrow> P x \<Longrightarrow> g x \<in> set (update_where P g xs)"
  by (auto simp: set_update_where)

lemma text_ok_append [simp]: "text_ok (a @ b) \<longleftrightarrow> text_ok a \<and> text_ok b"
  by (simp add: text_ok_def)

lemma text_ok_encoded: "text_ok (EncodeToString StdAlphabet bs)"
proof -
  have "text_ok StdAlphabet" by code_simp
  with std.Encode_chars [of bs] show ?thesis by (auto simp: text_ok_def list_all_iff)
qed

lemma text_ok_hash:
  assumes "hashPassword c slot salt password = Inr h"
  shows "text_ok h"
proof -
  obtain s k where h: "h = ''$argon2id$v=19$m=65536,t=3,p=2$'' @ EncodeToString StdAlphabet s @ ''$'' @ EncodeToString StdAlphabet k"
    using assms by (auto simp: hashPassword_def hashPasswordInternal_text split: option.splits sum.splits)
  have "text_ok ''$argon2id$v=19$m=65536,t=3,p=2$''" "text_ok ''$''" by code_simp+
  then show ?thesis unfolding h text_ok_append by (simp add: text_ok_encoded)
qed


subsection \<open>Issuing a session\<close>

definition can_issue :: "AuthService \<Rightarrow> auth_env \<Rightarrow> AuthUser \<Rightarrow> db \<Rightarrow> bool" where
  "can_issue s e user d \<longleftrightarrow>
     (case IssueAccessToken (ae_crypto e) (as_tokens s) (ae_now e) (ae_jti e) (au_id user) (au_email_verified user) (au_user_role user) of
        Inl _ \<Rightarrow> False
      | Inr _ \<Rightarrow> (case randomToken (ae_crypto e) (ae_token_bytes e) of
          Inl _ \<Rightarrow> False
        | Inr (raw, h) \<Rightarrow> \<not> exists_row (\<lambda>r. rt_id r = ae_token_uuid e \<or> rt_token_hash r = h) (refresh_tokens d)))"

lemma can_issue_cong: "refresh_tokens d' = refresh_tokens d \<Longrightarrow> can_issue s e user d' = can_issue s e user d"
  by (simp add: can_issue_def split: sum.split)

lemma commit_session_clean:
  assumes "tx_faults t = []" "\<not> aborted t" "can_issue s e user (tables t)" "user_exists (au_id user) (tables t)"
  obtains session t' where "run_state (commit_session s e user f) t = (Commits (Inr session), t')"
    "session_issued s e user f session (tables t) (tables t')" "tx_faults t' = []" "\<not> aborted t'"
proof -
  obtain access expires raw h where acc: "IssueAccessToken (ae_crypto e) (as_tokens s) (ae_now e) (ae_jti e) (au_id user)
      (au_email_verified user) (au_user_role user) = Inr (access, expires)"
    and tok: "randomToken (ae_crypto e) (ae_token_bytes e) = Inr (raw, h)"
    and new: "\<not> exists_row (\<lambda>r. rt_id r = ae_token_uuid e \<or> rt_token_hash r = h) (refresh_tokens (tables t))"
    using assms(3) by (auto simp: can_issue_def split: sum.splits prod.splits)
  have h: "h = tokenHash (ae_crypto e) raw" using tok by (auto simp: randomToken_def tokenHash_def Let_def split: sum.splits)
  let ?session = "\<lparr> an_access_token = access, an_refresh_token = raw, an_token_type = ''Bearer'',
       an_expires_in = whole_secs (as_access_ttl s), an_user = user \<rparr>"
  have run: "\<exists>t'. run_state (commit_session s e user f) t = (Commits (Inr ?session), t') \<and> tx_faults t' = [] \<and> \<not> aborted t'"
    using assms(1,2,4) acc tok new
    by (simp add: commit_session_def issueSessionWithQueries_def run_simps CreateRefreshToken_def)
  then obtain t' where t': "run_state (commit_session s e user f) t = (Commits (Inr ?session), t')" "tx_faults t' = []" "\<not> aborted t'" by blast
  from t'(1) have "session_issued s e user f ?session (tables t) (tables t')" by (auto elim!: commit_session_Commits)
  with t' that show thesis by blast
qed

lemma commit_session_drawn:
  assumes "run_state (commit_session s e user f) t = (Commits (Inr session), t')"
  shows "drawn e = Some (tokenHash (ae_crypto e) (an_refresh_token session))"
  using assms
  by (auto simp: commit_session_def issueSessionWithQueries_def drawn_def randomToken_def tokenHash_def Let_def
      split: sum.splits prod.splits)

lemma run_in_tx_commits:
  assumes "faults w = []"
    and "run_state body \<lparr> tables = committed w, aborted = False, tx_faults = [], held_locks = [] \<rparr> = (Commits r, t')"
    "tx_faults t' = []" "\<not> aborted t'"
  shows "run_state (in_tx body) w = (r, w\<lparr>committed := tables t'\<rparr>)"
  using assms by (simp add: run_in_tx_clean)

lemma issueSession_clean:
  assumes "faults w = []" "can_issue s e user (committed w)" "user_exists (au_id user) (committed w)"
  obtains session w' where "run_state (issueSession s e user) w = (Inr session, w')" "faults w' = []"
    "session_issued s e user (ae_family_uuid e) session (committed w) (committed w')"
proof -
  let ?t = "\<lparr> tables = committed w, aborted = False, tx_faults = [], held_locks = [] \<rparr>"
  have t: "tx_faults ?t = []" "\<not> aborted ?t" "tables ?t = committed w" by simp_all
  obtain session t' where run: "run_state (commit_session s e user (ae_family_uuid e)) ?t = (Commits (Inr session), t')"
    and iss: "session_issued s e user (ae_family_uuid e) session (tables ?t) (tables t')" and "tx_faults t' = []" "\<not> aborted t'"
    by (rule commit_session_clean [OF t(1,2), of s e user]) (use assms in simp_all)
  from run_in_tx_commits [OF assms(1) run] this have "run_state (issueSession s e user) w = (Inr session, w\<lparr>committed := tables t'\<rparr>)"
    by (simp add: issueSession_def)
  with iss assms(1) that show thesis by simp
qed


subsection \<open>Refreshing a session\<close>

lemma can_issue_marked: "can_issue s e user d \<Longrightarrow> can_issue s e user (snd (MarkRefreshTokenUsed now i d))"
  by (auto simp: can_issue_def MarkRefreshTokenUsed_def exists_row_iff set_update_where split: sum.splits)

lemma Refresh_usable:
  assumes clean: "faults w = []" and rec: "token_with (tokenHash (ae_crypto e) raw) (committed w) = Some rec"
    and usable: "usable (ae_now e) rec" and user: "row_at us_id (rt_user_id rec) (users (committed w)) = Some user"
    and can: "can_issue s e (userFromDB user) (committed w)"
  obtains session w' where "run_state (Refresh s e raw) w = (Inr session, w')"
    "session_issued s e (userFromDB user) (rt_family_id rec) session
       (if rt_used_at rec = None then snd (MarkRefreshTokenUsed (ae_db_now e) (rt_id rec) (committed w)) else committed w) (committed w')"
proof -
  let ?d = "if rt_used_at rec = None then snd (MarkRefreshTokenUsed (ae_db_now e) (rt_id rec) (committed w)) else committed w"
  let ?t = "\<lparr> tables = ?d, aborted = False, tx_faults = [], held_locks = [] \<rparr>"
  have "user_exists (au_id (userFromDB user)) ?d"
    using row_at_Some [OF user] by (auto simp: user_exists_def exists_row_iff userFromDB_def MarkRefreshTokenUsed_def)
  then obtain session t' where run: "run_state (commit_session s e (userFromDB user) (rt_family_id rec)) ?t = (Commits (Inr session), t')"
    and t': "tx_faults t' = []" "\<not> aborted t'"
    and iss: "session_issued s e (userFromDB user) (rt_family_id rec) session (tables ?t) (tables t')"
    by - (rule commit_session_clean [of ?t s e "userFromDB user"], use can can_issue_marked in simp_all)
  have "run_state (refreshBody s e raw) \<lparr> tables = committed w, aborted = False, tx_faults = [], held_locks = [] \<rparr> =
      (Commits (Inr session), t')"
    using rec usable user [unfolded row_at_def] run
    by (cases "rt_used_at rec")
      (simp_all add: refreshBody_def run_simps GetRefreshTokenForUpdate_def first_row_def token_with_find tx_try_def
        usable_def MarkRefreshTokenUsed_def GetUserByID_def)
  from run_in_tx_commits [OF clean this t'] iss that show thesis by (simp add: Refresh_def)
qed

lemma Refresh_unusable:
  assumes "faults w = []"
  shows "token_with (tokenHash (ae_crypto e) raw) (committed w) = None \<Longrightarrow> run_state (Refresh s e raw) w = (Inl invalidRefreshToken, w)"
    and "token_with (tokenHash (ae_crypto e) raw) (committed w) = Some rec \<Longrightarrow> rt_used_at rec = None \<Longrightarrow> rt_revoked_at rec = None \<Longrightarrow>
      rt_expires_at rec \<le> ae_now e \<Longrightarrow> run_state (Refresh s e raw) w = (Inl invalidRefreshToken, w)"
  using assms
  by (auto simp: Refresh_def refreshBody_def run_simps GetRefreshTokenForUpdate_def first_row_def token_with_find rollback_def)


subsection \<open>Registration\<close>

definition registered_user :: "auth_env \<Rightarrow> string \<Rightarrow> UserRow" where
  "registered_user e email = \<lparr> us_id = ae_user_uuid e, us_email = email, us_email_verified_at = None,
     us_created_at = ae_db_now e, us_updated_at = ae_db_now e, us_user_role = ''user'' \<rparr>"

definition registered :: "auth_env \<Rightarrow> string \<Rightarrow> string \<Rightarrow> string \<Rightarrow> db \<Rightarrow> db" where
  "registered e email ph h d = d\<lparr>users := users d @ [registered_user e email],
     password_credentials := password_credentials d @
       [\<lparr> pc_user_id = ae_user_uuid e, pc_password_hash = ph, pc_updated_at = ae_db_now e \<rparr>],
     one_time_tokens := one_time_tokens d @
       [\<lparr> ot_id = ae_token_uuid e, ot_user_id = ae_user_uuid e, ot_kind = ''verify_email'', ot_token_hash = h,
          ot_expires_at = ae_now e + verificationTokenTTL, ot_used_at = None, ot_created_at = ae_db_now e \<rparr>]\<rparr>"

text \<open>The email is not taken, and what the call draws is not in use.\<close>

definition can_register :: "auth_env \<Rightarrow> string \<Rightarrow> string \<Rightarrow> db \<Rightarrow> bool" where
  "can_register e email password d \<longleftrightarrow>
     text_ok email \<and> email = ae_pg_lower e email \<and> \<not> user_exists (ae_user_uuid e) d \<and>
     \<not> exists_row (\<lambda>x. ae_pg_lower e (us_email x) = email) (users d) \<and>
     (case new_credentials e email password of Inl _ \<Rightarrow> False | Inr _ \<Rightarrow> True) \<and>
     (case randomToken (ae_crypto e) (ae_token_bytes e) of
        Inl _ \<Rightarrow> False
      | Inr (raw, h) \<Rightarrow> \<not> exists_row (\<lambda>x. ot_id x = ae_token_uuid e \<or> ot_token_hash x = h) (one_time_tokens d))"

lemma Register_clean:
  assumes clean: "faults w = []" and ok: "accounts_ok pl (committed w)"
    and can: "can_register e (normalizeEmail e m) password (committed w)"
  obtains ph raw where "hashPassword (ae_crypto e) (ae_hash_slot e) (ae_salt e) password = Inr ph"
    "run_state (Register e m password) w =
       ((Some (VerificationMail (normalizeEmail e m) raw),
         case ae_deliver e (VerificationMail (normalizeEmail e m) raw) of None \<Rightarrow> Inr ()
         | Some _ \<Rightarrow> Inl (AuthError ''email_delivery_failed'' ''account created, but verification email could not be sent'')),
        w\<lparr>committed := registered e (normalizeEmail e m) ph (tokenHash (ae_crypto e) raw) (committed w)\<rparr>)"
    "raw \<noteq> [] \<or> ae_token_bytes e = Inr []"
proof -
  let ?email = "normalizeEmail e m"
  obtain ph raw h where cred: "new_credentials e ?email password = Inr ph"
    and tok: "randomToken (ae_crypto e) (ae_token_bytes e) = Inr (raw, h)"
    and new: "\<not> exists_row (\<lambda>x. ot_id x = ae_token_uuid e \<or> ot_token_hash x = h) (one_time_tokens (committed w))"
    using can by (auto simp: can_register_def split: sum.splits)
  have ph: "hashPassword (ae_crypto e) (ae_hash_slot e) (ae_salt e) password = Inr ph"
    using cred by (auto simp: new_credentials_def split: if_splits option.splits)
  have h: "h = tokenHash (ae_crypto e) raw" and raw: "raw \<noteq> [] \<or> ae_token_bytes e = Inr []"
    using tok by (auto simp: randomToken_def tokenHash_def Let_def EncodeToString_def split: sum.splits
        elim: sextets.elims)
  have nocred: "\<not> exists_row (\<lambda>x. pc_user_id x = ae_user_uuid e) (password_credentials (committed w))"
    using ok can by (auto simp: accounts_ok_def owned_def can_register_def exists_row_iff)
  have free: "\<not> exists_row (\<lambda>x. us_id x = ae_user_uuid e \<or> ae_pg_lower e (us_email x) = ae_pg_lower e ?email) (users (committed w))"
    using can by (auto simp: can_register_def exists_row_iff user_exists_def)
  have exists: "user_exists (ae_user_uuid e) ((committed w)\<lparr>users := users (committed w) @ [registered_user e ?email]\<rparr>)"
    by (simp add: user_exists_def exists_row_iff registered_user_def)
  have "run_state (Register e m password) w =
       ((Some (VerificationMail ?email raw), case ae_deliver e (VerificationMail ?email raw) of None \<Rightarrow> Inr ()
         | Some _ \<Rightarrow> Inl (AuthError ''email_delivery_failed'' ''account created, but verification email could not be sent'')),
        w\<lparr>committed := registered e ?email ph h (committed w)\<rparr>)"
    using clean cred tok new can nocred free exists text_ok_hash [OF ph]
    by (simp add: Register_def create_account_def tx_try_def run_simps CreateUser_def insert_user_def can_register_def
        CreatePasswordCredential_def CreateOneTimeToken_def Let_def registered_def registered_user_def)
  with ph h raw that show thesis by simp
qed


subsection \<open>Signing in\<close>

lemma find_credential:
  assumes ok: "accounts_ok pl d" and user: "user \<in> set (users d)" "us_email user = x"
    and cred: "cred \<in> set (password_credentials d)" "pc_user_id cred = us_id user"
  shows "List.find (\<lambda>(u, p). pc_user_id p = us_id u \<and> us_email u = x) (List.product (users d) (password_credentials d)) = Some (user, cred)"
proof (rule find_unique)
  fix y assume y: "y \<in> set (List.product (users d) (password_credentials d))"
    "case y of (u, p) \<Rightarrow> pc_user_id p = us_id u \<and> us_email u = x"
  then obtain u p where up: "y = (u, p)" "u \<in> set (users d)" "p \<in> set (password_credentials d)" "pc_user_id p = us_id u" "us_email u = x"
    by auto
  have "u = user"
    using ok user up row_at_in [of us_email "users d" u] row_at_in [of us_email "users d" user]
    by (simp add: accounts_ok_def users_ok_def)
  moreover from this have "p = cred"
    using ok cred up row_at_in [of pc_user_id "password_credentials d" p] row_at_in [of pc_user_id "password_credentials d" cred]
    by (simp add: accounts_ok_def)
  ultimately show "y = (user, cred)" using up by simp
qed (use assms in auto)

text \<open>
  A working sign-in: the stored password decides, an unverified email is refused, and otherwise
  a session is issued.
\<close>

lemma Login_clean:
  assumes clean: "faults w = []" "ae_verify_slot e = None" and ok: "accounts_ok pl (committed w)"
    and email: "text_ok (normalizeEmail e m)" "us_email user = ae_pg_lower e (normalizeEmail e m)"
    and user: "user \<in> set (users (committed w))"
    and cred: "cred \<in> set (password_credentials (committed w))" "pc_user_id cred = us_id user"
    and verify: "verifyPasswordInternal (ae_crypto e) password (pc_password_hash cred) = Inr valid"
  shows "run_state (Login s e m password) w =
    (if \<not> valid then (Inl invalidCredentials, w)
     else if us_email_verified_at user = None
     then (Inl (AuthError ''email_not_verified'' ''verify your email before signing in''), w)
     else run_state (issueSession s e (password_user user)) w)"
  using clean email verify find_credential [OF ok user refl cred]
  by (simp add: Login_def run_simps GetPasswordCredentialByEmail_def first_row_def verifyPassword_def password_matches_def
      password_user_def)


subsection \<open>Verifying the address\<close>

lemma VerifyEmail_clean:
  assumes clean: "faults w = []" and raw: "raw \<noteq> []"
    and tok: "token_of_kind (tokenHash (ae_crypto e) raw) ''verify_email'' (committed w) = Some tok"
      "ot_used_at tok = None" "ae_now e < ot_expires_at tok"
    and user: "row_at us_id (ot_user_id tok) (users (committed w)) = Some user"
    and can: "can_issue s e (userFromDB user\<lparr>au_email_verified := True\<rparr>) (committed w)"
  obtains session w' where "run_state (VerifyEmail s e raw) w = (Inr session, w')" "faults w' = []"
    "session_issued s e (userFromDB user\<lparr>au_email_verified := True\<rparr>) (ae_family_uuid e) session
       (snd (MarkOneTimeTokenUsed (ae_db_now e) (ot_id tok) (snd (SetUserEmailVerified (ae_db_now e) (ot_user_id tok) (committed w)))))
       (committed w')"
    "drawn e = Some (tokenHash (ae_crypto e) (an_refresh_token session))"
proof -
  let ?now = "ae_db_now e" and ?u = "ot_user_id tok"
  let ?d1 = "snd (SetUserEmailVerified ?now ?u (committed w))"
  let ?d2 = "snd (MarkOneTimeTokenUsed ?now (ot_id tok) ?d1)"
  let ?t = "\<lparr> tables = ?d2, aborted = False, tx_faults = [], held_locks = [] \<rparr>"
  obtain user' where user': "row_at us_id ?u (users ?d2) = Some user'"
    "userFromDB user'\<lparr>au_email_verified := True\<rparr> = userFromDB user\<lparr>au_email_verified := True\<rparr>"
    using user row_at_verified [of ?u ?now ?u "committed w"]
    by (auto simp: MarkOneTimeTokenUsed_def userFromDB_def)
  let ?user = "userFromDB user'\<lparr>au_email_verified := True\<rparr>"
  have exists: "user_exists (au_id ?user) ?d2"
    using user'(1) row_at_Some [OF user'(1)] by (auto simp: user_exists_def exists_row_iff userFromDB_def)
  have can': "can_issue s e ?user ?d2"
    using can user'(2) can_issue_cong [of ?d2 "committed w" s e ?user] by (simp add: MarkOneTimeTokenUsed_def SetUserEmailVerified_def)
  obtain session t' where run: "run_state (commit_session s e ?user (ae_family_uuid e)) ?t = (Commits (Inr session), t')"
    and t': "tx_faults t' = []" "\<not> aborted t'" and iss: "session_issued s e ?user (ae_family_uuid e) session (tables ?t) (tables t')"
    by (rule commit_session_clean [of ?t s e ?user]) (use can' exists in simp_all)
  have "run_state (consumeBody s e raw ''verify_email'' (\<lambda>token. exec (SetUserEmailVerified ?now (ot_user_id token))))
      \<lparr> tables = committed w, aborted = False, tx_faults = [], held_locks = [] \<rparr> = (Commits (Inr session), t')"
    using tok user'(1) [unfolded row_at_def] run
    by (simp add: consumeBody_def tx_try_def run_simps GetOneTimeTokenForUpdate_def first_row_def token_of_kind_def
        SetUserEmailVerified_def MarkOneTimeTokenUsed_def GetUserByID_def Let_def)
  from run_in_tx_commits [OF clean this t'] raw clean iss user'(2) commit_session_drawn [OF run] that show thesis
    by (simp add: VerifyEmail_def consumeOneTimeToken_def)
qed


subsection \<open>From registration to a session\<close>

text \<open>The calls go to the same server: its database and its libraries are the same.\<close>

definition same_server :: "auth_env \<Rightarrow> auth_env \<Rightarrow> bool" where
  "same_server e e' \<longleftrightarrow> ae_pg_lower e' = ae_pg_lower e \<and> ae_crypto e' = ae_crypto e \<and> ae_unicode_lower e' = ae_unicode_lower e"

lemma hash_verifies:
  assumes "argon2_ok c" "hashPassword c None (Inr salt) password = Inr ph"
  shows "verifyPasswordInternal c password ph = Inr True"
  using assms verify_hash [of c salt password ph password] by (simp add: hashPassword_def)

lemma row_at_last: "row_at key k rows = None \<Longrightarrow> key r = k \<Longrightarrow> row_at key k (rows @ [r]) = Some r"
  by (simp add: row_at_append)

lemma registered_lookup:
  assumes "can_register e email password d" "randomToken (ae_crypto e) (ae_token_bytes e) = Inr (raw, h)"
  shows "token_of_kind h ''verify_email'' (registered e email ph h d) = Some
      \<lparr> ot_id = ae_token_uuid e, ot_user_id = ae_user_uuid e, ot_kind = ''verify_email'', ot_token_hash = h,
        ot_expires_at = ae_now e + verificationTokenTTL, ot_used_at = None, ot_created_at = ae_db_now e \<rparr>"
    "row_at us_id (ae_user_uuid e) (users (registered e email ph h d)) = Some (registered_user e email)"
proof -
  have "\<not> exists_row (\<lambda>x. ot_token_hash x = h \<and> ot_kind x = ''verify_email'') (one_time_tokens d)"
    using assms by (auto simp: can_register_def exists_row_iff)
  then show "token_of_kind h ''verify_email'' (registered e email ph h d) = Some
      \<lparr> ot_id = ae_token_uuid e, ot_user_id = ae_user_uuid e, ot_kind = ''verify_email'', ot_token_hash = h,
        ot_expires_at = ae_now e + verificationTokenTTL, ot_used_at = None, ot_created_at = ae_db_now e \<rparr>"
    by (simp add: token_of_kind_def registered_def find_append find_exists_row [symmetric])
  show "row_at us_id (ae_user_uuid e) (users (registered e email ph h d)) = Some (registered_user e email)"
    using assms(1) by (auto simp: registered_def registered_user_def can_register_def user_exists_def not_exists_row_key intro: row_at_last)
qed

lemma can_issue_later:
  assumes "can_issue s e user d" "refresh_tokens d' = refresh_tokens d @ [r]" "rt_id r \<noteq> ae_token_uuid e" "drawn e \<noteq> Some (rt_token_hash r)"
  shows "can_issue s e user d'"
  using assms by (auto simp: can_issue_def drawn_def exists_row_iff split: sum.splits)

text \<open>The row a registration leaves for the password, and the one for the mailed token.\<close>

definition registered_cred :: "auth_env \<Rightarrow> string \<Rightarrow> PasswordCredential" where
  "registered_cred e ph = \<lparr> pc_user_id = ae_user_uuid e, pc_password_hash = ph, pc_updated_at = ae_db_now e \<rparr>"

definition registered_token :: "auth_env \<Rightarrow> string \<Rightarrow> OneTimeToken" where
  "registered_token e h = \<lparr> ot_id = ae_token_uuid e, ot_user_id = ae_user_uuid e, ot_kind = ''verify_email'', ot_token_hash = h,
     ot_expires_at = ae_now e + verificationTokenTTL, ot_used_at = None, ot_created_at = ae_db_now e \<rparr>"

lemma Register_account:
  assumes clean: "faults w = []" and ok: "accounts_ok (ae_pg_lower e) (committed w)"
    and argon: "argon2_ok (ae_crypto e)" "ae_salt e = Inr salt" "ae_hash_slot e = None"
    and bytes: "ae_token_bytes e = Inr bytes" "bytes \<noteq> []" and mail: "\<And>m. ae_deliver e m = None"
    and can: "can_register e (normalizeEmail e m) password (committed w)"
  obtains ph raw d where
    "run_state (Register e m password) w = ((Some (VerificationMail (normalizeEmail e m) raw), Inr ()), w\<lparr>committed := d\<rparr>)"
    "raw \<noteq> []" "accounts_ok (ae_pg_lower e) d" "registered_user e (normalizeEmail e m) \<in> set (users d)"
    "registered_cred e ph \<in> set (password_credentials d)" "verifyPasswordInternal (ae_crypto e) password ph = Inr True"
    "token_of_kind (tokenHash (ae_crypto e) raw) ''verify_email'' d = Some (registered_token e (tokenHash (ae_crypto e) raw))"
    "row_at us_id (ae_user_uuid e) (users d) = Some (registered_user e (normalizeEmail e m))"
    "refresh_tokens d = refresh_tokens (committed w)"
proof -
  let ?email = "normalizeEmail e m"
  obtain ph raw where ph: "hashPassword (ae_crypto e) None (Inr salt) password = Inr ph"
    and reg: "run_state (Register e m password) w = ((Some (VerificationMail ?email raw), Inr ()),
        w\<lparr>committed := registered e ?email ph (tokenHash (ae_crypto e) raw) (committed w)\<rparr>)"
    and raw: "raw \<noteq> []"
    by (rule Register_clean [OF clean ok can]) (use argon bytes mail in \<open>auto\<close>)
  define d where "d = registered e ?email ph (tokenHash (ae_crypto e) raw) (committed w)"
  have "account_writes (ae_pg_lower e) (\<lambda>_. True) (\<lambda>_. True) (committed w) d"
    using state_io_relD [OF Register_writes reg] by (simp add: d_def pred_option_def)
  then have ok': "accounts_ok (ae_pg_lower e) d" using ok by (rule account_writes_ok)
  obtain h where tok: "randomToken (ae_crypto e) (ae_token_bytes e) = Inr (raw, h)"
    using reg can by (auto simp: Register_def can_register_def Let_def split: sum.splits prod.splits)
  then have h: "h = tokenHash (ae_crypto e) raw" by (auto simp: randomToken_def tokenHash_def Let_def split: sum.splits)
  note look = registered_lookup [OF can tok, of ph, unfolded h, folded d_def registered_token_def]
  have "registered_user e ?email \<in> set (users d)" "registered_cred e ph \<in> set (password_credentials d)"
    "refresh_tokens d = refresh_tokens (committed w)"
    by (simp_all add: d_def registered_def registered_cred_def)
  with reg raw ok' look hash_verifies [OF argon(1) ph] that show thesis by (simp add: d_def)
qed

lemma verified_row:
  assumes "users d' = users (snd (SetUserEmailVerified now (us_id u) d))" "u \<in> set (users d)"
  obtains u' where "u' \<in> set (users d')" "us_email_verified_at u' \<noteq> None" "us_email u' = us_email u" "us_id u' = us_id u"
    "password_user u' = password_user u"
proof -
  let ?g = "\<lambda>r. r\<lparr>us_email_verified_at := Some (case us_email_verified_at r of None \<Rightarrow> now | Some t \<Rightarrow> t), us_updated_at := now\<rparr>"
  have "?g u \<in> set (users d')"
    using assms(1) in_update_where [OF assms(2), of "\<lambda>r. us_id r = us_id u" ?g] by (simp add: SetUserEmailVerified_def)
  then show thesis by (rule that) (simp_all add: password_user_def)
qed

lemma verify_then_login:
  assumes clean: "faults w = []" and ok: "accounts_ok (ae_pg_lower e1) (committed w)"
    and server: "same_server e1 e3" "same_server e1 e4" and slot: "ae_verify_slot e4 = None"
    and email: "text_ok (normalizeEmail e1 m)" "ae_pg_lower e1 (normalizeEmail e1 m) = normalizeEmail e1 m"
    and raw: "raw \<noteq> []" "token_of_kind (tokenHash (ae_crypto e1) raw) ''verify_email'' (committed w) = Some (registered_token e1 h)"
    and user: "row_at us_id (ae_user_uuid e1) (users (committed w)) = Some (registered_user e1 (normalizeEmail e1 m))"
    and cred: "registered_cred e1 ph \<in> set (password_credentials (committed w))"
    and valid: "verifyPasswordInternal (ae_crypto e1) password ph = Inr True"
    and in_time: "ae_now e3 < ae_now e1 + verificationTokenTTL"
    and issue: "can_issue s e3 (password_user (registered_user e1 (normalizeEmail e1 m))) (committed w)"
      "can_issue s e4 (password_user (registered_user e1 (normalizeEmail e1 m))) (committed w)"
      "ae_token_uuid e3 \<noteq> ae_token_uuid e4" "drawn e3 \<noteq> drawn e4"
  obtains session w2 session' w3 where
    "run_state (VerifyEmail s e3 raw) w = (Inr session, w2)"
    "run_state (Login s e4 m password) w2 = (Inr session', w3)"
    "an_user session' = password_user (registered_user e1 (normalizeEmail e1 m))"
proof -
  let ?new = "registered_user e1 (normalizeEmail e1 m)" and ?tok = "registered_token e1 h"
  have new: "userFromDB ?new\<lparr>au_email_verified := True\<rparr> = password_user ?new" "us_id ?new = ot_user_id ?tok"
    "au_id (password_user ?new) = us_id ?new" "us_email ?new = normalizeEmail e1 m" "pc_user_id (registered_cred e1 ph) = us_id ?new"
    by (simp_all add: userFromDB_def password_user_def registered_user_def registered_token_def registered_cred_def)
  let ?d2 = "snd (MarkOneTimeTokenUsed (ae_db_now e3) (ot_id ?tok) (snd (SetUserEmailVerified (ae_db_now e3) (ot_user_id ?tok) (committed w))))"
  obtain session w2 where ver: "run_state (VerifyEmail s e3 raw) w = (Inr session, w2)" "faults w2 = []"
    and iss: "session_issued s e3 (password_user ?new) (ae_family_uuid e3) session ?d2 (committed w2)"
    and drawn3: "drawn e3 = Some (tokenHash (ae_crypto e3) (an_refresh_token session))"
    by (rule VerifyEmail_clean [OF clean raw(1), of e3 ?tok ?new s])
      (use raw(2) user server(1) in_time issue(1) new(1) in \<open>simp_all add: same_server_def registered_token_def\<close>)
  note d2 = iss [unfolded session_issued_def MarkOneTimeTokenUsed_def SetUserEmailVerified_def]
  have "account_writes (ae_pg_lower e1) (\<lambda>_. True) (\<lambda>_. True) (committed w) (committed w2)"
    using state_io_relD [OF operation_writes(2) ver(1)] server(1) by (simp add: same_server_def pred_option_def)
  then have ok2: "accounts_ok (ae_pg_lower e1) (committed w2)" using ok by (rule account_writes_ok)
  obtain user2 where user2: "user2 \<in> set (users (committed w2))" "us_email_verified_at user2 \<noteq> None" "us_email user2 = us_email ?new"
    "us_id user2 = us_id ?new" "password_user user2 = password_user ?new"
    by (rule verified_row [of "committed w2" "ae_db_now e3" ?new "committed w"])
      (use iss new(2) row_at_Some [OF user] in \<open>simp_all add: session_issued_def MarkOneTimeTokenUsed_def\<close>)
  have creds2: "registered_cred e1 ph \<in> set (password_credentials (committed w2))" using cred d2 by simp
  have "refresh_tokens (committed w2) = refresh_tokens (committed w) @
      [refresh_row s e3 (ae_family_uuid e3) (au_id (password_user ?new)) (an_refresh_token session)]"
    using d2 by simp
  then have can: "can_issue s e4 (password_user ?new) (committed w2)"
    using can_issue_later [OF issue(2)] issue(3,4) drawn3 by (auto simp: refresh_row_def)
  have exists: "user_exists (au_id (password_user ?new)) (committed w2)"
    using imageI [OF user2(1), of us_id] user2(4) new(3) by (simp add: user_exists_iff)
  obtain session' w3 where log: "run_state (issueSession s e4 (password_user ?new)) w2 = (Inr session', w3)"
    "session_issued s e4 (password_user ?new) (ae_family_uuid e4) session' (committed w2) (committed w3)"
    using issueSession_clean [OF ver(2) can exists] by blast
  have norm: "normalizeEmail e4 m = normalizeEmail e1 m" using server(2) by (simp add: same_server_def normalizeEmail_def)
  have "run_state (Login s e4 m password) w2 = (Inr session', w3)"
    using Login_clean [OF ver(2) slot ok2, of m user2 "registered_cred e1 ph" password True s] email server(2) user2 new creds2 valid log(1) norm
    by (simp add: same_server_def registered_cred_def)
  with ver(1) log(2) that show thesis by (simp add: session_issued_def)
qed

lemma register_verify_login:
  assumes clean: "faults w = []" and ok: "accounts_ok (ae_pg_lower e1) (committed w)"
    and server: "same_server e1 e2" "same_server e1 e3" "same_server e1 e4"
    and argon: "argon2_ok (ae_crypto e1)" "ae_salt e1 = Inr salt" "ae_hash_slot e1 = None"
    and slots: "ae_verify_slot e2 = None" "ae_verify_slot e4 = None"
    and bytes: "ae_token_bytes e1 = Inr bytes" "bytes \<noteq> []" and mail: "\<And>m. ae_deliver e1 m = None"
    and can: "can_register e1 (normalizeEmail e1 m) password (committed w)"
    and in_time: "ae_now e3 < ae_now e1 + verificationTokenTTL"
    and issue: "can_issue s e3 (password_user (registered_user e1 (normalizeEmail e1 m))) (committed w)"
      "can_issue s e4 (password_user (registered_user e1 (normalizeEmail e1 m))) (committed w)"
      "ae_token_uuid e3 \<noteq> ae_token_uuid e4" "drawn e3 \<noteq> drawn e4"
  obtains raw w1 session w2 session' w3 where
    "run_state (Register e1 m password) w = ((Some (VerificationMail (normalizeEmail e1 m) raw), Inr ()), w1)"
    "run_state (Login s e2 m password) w1 = (Inl (AuthError ''email_not_verified'' ''verify your email before signing in''), w1)"
    "run_state (VerifyEmail s e3 raw) w1 = (Inr session, w2)"
    "run_state (Login s e4 m password) w2 = (Inr session', w3)"
    "an_user session' = password_user (registered_user e1 (normalizeEmail e1 m))"
proof -
  let ?email = "normalizeEmail e1 m"
  have email: "text_ok ?email" "ae_pg_lower e1 ?email = ?email" using can by (simp_all add: can_register_def)
  obtain ph raw d where reg: "run_state (Register e1 m password) w = ((Some (VerificationMail ?email raw), Inr ()), w\<lparr>committed := d\<rparr>)"
    and raw: "raw \<noteq> []" and ok1: "accounts_ok (ae_pg_lower e1) d" and new: "registered_user e1 ?email \<in> set (users d)"
    and cred: "registered_cred e1 ph \<in> set (password_credentials d)" and valid: "verifyPasswordInternal (ae_crypto e1) password ph = Inr True"
    and tok: "token_of_kind (tokenHash (ae_crypto e1) raw) ''verify_email'' d = Some (registered_token e1 (tokenHash (ae_crypto e1) raw))"
    and row: "row_at us_id (ae_user_uuid e1) (users d) = Some (registered_user e1 ?email)" and rt: "refresh_tokens d = refresh_tokens (committed w)"
    by (rule Register_account [OF clean ok argon bytes mail can])
  let ?w = "w\<lparr>committed := d\<rparr>"
  have clean1: "faults ?w = []" using clean by simp
  have norm: "normalizeEmail e2 m = ?email" using server(1) by (simp add: same_server_def normalizeEmail_def)
  have refused: "run_state (Login s e2 m password) ?w = (Inl (AuthError ''email_not_verified'' ''verify your email before signing in''), ?w)"
    using Login_clean [OF clean1 slots(1), of "ae_pg_lower e1" m "registered_user e1 ?email" "registered_cred e1 ph" password True s]
      ok1 email server(1) new cred valid
    by (simp add: norm same_server_def registered_user_def registered_cred_def)
  obtain session w2 session' w3 where "run_state (VerifyEmail s e3 raw) ?w = (Inr session, w2)"
    "run_state (Login s e4 m password) w2 = (Inr session', w3)" "an_user session' = password_user (registered_user e1 ?email)"
    by (rule verify_then_login [OF clean1, where ?e1.0 = e1 and ?e3.0 = e3 and ?e4.0 = e4 and m = m and password = password and s = s])
      (use ok1 server slots email raw tok row cred valid in_time issue can_issue_cong [OF rt] in simp_all)
  with reg refused that show thesis by blast
qed

end
