(* ===== verification/Auth_Samples.thy ===== *)
theory Auth_Samples
  imports Auth_Register Samples
begin

text \<open>
  Concrete instances of the authentication service: a hash, a key derivation and a signer that
  can be computed, an account with a password, and the runs the properties are applied to.
\<close>

definition ax_key :: "string \<Rightarrow> string \<Rightarrow> int \<Rightarrow> int \<Rightarrow> int \<Rightarrow> int \<Rightarrow> string option" where
  "ax_key password salt iterations memory lanes len =
     (if iterations < 1 \<or> lanes < 1 then None
      else Some (take (nat len) (password @ salt @ replicate (nat len) CHR ''.'')))"

definition ax_crypto :: crypto where
  "ax_crypto = \<lparr> Sum256 = (\<lambda>s. CHR ''h'' # s), IDKey = ax_key, NewNumericDate = (\<lambda>t. t - t mod Second),
     SignedString = (\<lambda>key c. Some (key @ ac_id c)), ParseWithClaims = (\<lambda>_ _ _ _ _. None),
     UUIDString = (\<lambda>_. ''u''), UUIDParse = (\<lambda>_. None) \<rparr>"

definition ax_lower :: lower where
  "ax_lower s = map ascii_lower s"

text \<open>A call at time \<open>t\<close> (in seconds) that draws the token bytes \<open>k\<close> and the identifiers \<open>n\<close>.\<close>

definition ax_env :: "int \<Rightarrow> string \<Rightarrow> uuid \<Rightarrow> auth_env" where
  "ax_env t k n = \<lparr> ae_now = t * Second, ae_db_now = t * Second, ae_pg_lower = ax_lower, ae_unicode_lower = id,
     ae_parse_address = Some, ae_crypto = ax_crypto, ae_salt = Inr ''NaCl'', ae_dummy_salt = Inr ''NaCl'', ae_token_bytes = Inr k,
     ae_user_uuid = n, ae_token_uuid = n, ae_family_uuid = n, ae_identity_uuid = n, ae_jti = ''j'',
     ae_hash_slot = None, ae_verify_slot = None, ae_deliver = (\<lambda>_. None) \<rparr>"

definition ax_identity :: "string \<Rightarrow> FederatedInput \<Rightarrow> error + FederatedIdentity" where
  "ax_identity provider input =
     Inr \<lparr> fd_provider = provider, fd_subject = ''g1'', fd_email = ''ann@cube.org'', fd_email_verified = True \<rparr>"

definition ax_service :: AuthService where
  "ax_service = \<lparr> as_tokens = \<lparr> tm_secret = ''s'', tm_issuer = ''i'', tm_lifetime = 900 * Second \<rparr>,
     as_access_ttl = 900 * Second, as_refresh_ttl = 720 * Hour, as_federated = ax_identity \<rparr>"

definition ax_world :: world where
  "ax_world = \<lparr> committed = empty_db, faults = [] \<rparr>"

definition ax_pw :: string where "ax_pw = ''correct horse''"

text \<open>Registered, verified and signed in; the tables after each step are computed once.\<close>

definition ax_rows :: "time option \<Rightarrow> time \<Rightarrow> RefreshToken list \<Rightarrow> db" where
  "ax_rows verified updated refresh = empty_db
     \<lparr>users := [\<lparr> us_id = 1, us_email = ''ann@cube.org'', us_email_verified_at = verified, us_created_at = 0,
        us_updated_at = updated, us_user_role = ''user'' \<rparr>],
      password_credentials := [\<lparr> pc_user_id = 1,
        pc_password_hash = ''$argon2id$v=19$m=65536,t=3,p=2$TmFDbA$Y29ycmVjdCBob3JzZU5hQ2wuLi4uLi4uLi4uLi4uLi4'', pc_updated_at = 0 \<rparr>],
      refresh_tokens := refresh,
      one_time_tokens := [\<lparr> ot_id = 1, ot_user_id = 1, ot_kind = ''verify_email'', ot_token_hash = ''hYWJj'',
        ot_expires_at = 86400 * Second, ot_used_at = verified, ot_created_at = 0 \<rparr>]\<rparr>"

definition ax_token :: "uuid \<Rightarrow> uuid \<Rightarrow> string \<Rightarrow> int \<Rightarrow> time option \<Rightarrow> time option \<Rightarrow> RefreshToken" where
  "ax_token i f h t used revoked = \<lparr> rt_id = i, rt_family_id = f, rt_user_id = 1, rt_token_hash = h,
     rt_expires_at = (t + 2592000) * Second, rt_used_at = used, rt_revoked_at = revoked, rt_created_at = t * Second \<rparr>"

definition ax_registered :: world where
  "ax_registered = snd (run_state (Register (ax_env 0 ''abc'' 1) '' Ann@cube.org'' ax_pw) ax_world)"

lemma ax_registered_rows [code]: "ax_registered = \<lparr> committed = ax_rows None 0 [], faults = [] \<rparr>"
  by code_simp

definition ax_verified :: world where
  "ax_verified = snd (run_state (VerifyEmail ax_service (ax_env 60 ''def'' 2) ''YWJj'') ax_registered)"

lemma ax_verified_rows [code]:
  "ax_verified = \<lparr> committed = ax_rows (Some (60 * Second)) (60 * Second) [ax_token 2 2 ''hZGVm'' 60 None None], faults = [] \<rparr>"
  by code_simp

definition ax_refreshed :: world where
  "ax_refreshed = snd (run_state (Refresh ax_service (ax_env 100 ''ghi'' 3) ''ZGVm'') ax_verified)"

lemma ax_refreshed_rows [code]:
  "ax_refreshed = \<lparr> committed = ax_rows (Some (60 * Second)) (60 * Second)
     [ax_token 2 2 ''hZGVm'' 60 (Some (100 * Second)) None, ax_token 3 2 ''hZ2hp'' 100 None None], faults = [] \<rparr>"
  by code_simp

end
