(* ===== verification/Auth_Theorems.thy ===== *)
theory Auth_Theorems
  imports Auth_Samples
begin

text \<open>
  The properties of the authentication service.
\<close>

subsection \<open>Runs of the samples\<close>

lemma run_pair: "run_state prog w = (fst (run_state prog w), snd (run_state prog w))"
  by simp

lemma run_Inr:
  assumes "case fst (run_state prog w) of Inl _ \<Rightarrow> False | Inr _ \<Rightarrow> True"
  shows "run_state prog w = (Inr (projr (fst (run_state prog w))), snd (run_state prog w))"
  using assms by (auto simp: prod_eq_iff split: sum.splits)

lemma ax_accounts_ok: "accounts_ok ax_lower (committed ax_world)" "accounts_ok ax_lower (committed ax_registered)"
  "accounts_ok ax_lower (committed ax_verified)" "accounts_ok ax_lower (committed ax_refreshed)"
  by code_simp+

lemma ax_server_ok: "server_ok (ex_env 0) (committed ax_world)" "server_ok (ex_env 0) (committed ax_registered)"
  "server_ok (ex_env 0) (committed ax_verified)" "server_ok (ex_env 0) (committed ax_refreshed)"
  by code_simp+

lemma ax_register_step: "service_step ax_lower (ex_env 0) (\<lambda>_. True) (committed ax_world) (committed ax_registered)"
  unfolding ax_registered_def
  by (rule service_step.auth [OF auth_call.register [OF run_pair]]) (simp_all add: ax_env_def)

lemma ax_argon2_ok: "argon2_ok ax_crypto"
  by (auto simp: argon2_ok_def ax_crypto_def ax_key_def)

lemma ax_env_simps [simp]:
  "ae_now (ax_env t k n) = t * Second" "ae_db_now (ax_env t k n) = t * Second" "ae_pg_lower (ax_env t k n) = ax_lower"
  "ae_crypto (ax_env t k n) = ax_crypto" "ae_salt (ax_env t k n) = Inr ''NaCl''" "ae_token_bytes (ax_env t k n) = Inr k"
  "ae_family_uuid (ax_env t k n) = n" "ae_token_uuid (ax_env t k n) = n" "ae_hash_slot (ax_env t k n) = None"
  "ae_verify_slot (ax_env t k n) = None" "ae_deliver (ax_env t k n) m = None" "ae_user_uuid (ax_env t k n) = n"
  by (simp_all add: ax_env_def)

lemma ax_same_server [simp]: "same_server (ax_env t k n) (ax_env t' k' n')"
  by (simp add: same_server_def ax_env_def)


subsection \<open>Invariants\<close>




subsection \<open>Registration and signing in\<close>

text \<open>
  C25. On a working connection a registration with a free email sends a token; signing in is
  refused until the email is verified; the token verifies it and answers a session, and then the
  password signs the new user in.
\<close>

theorem registration_flow:
  assumes "faults w = []" "accounts_ok (ae_pg_lower e1) (committed w)"
    and "same_server e1 e2" "same_server e1 e3" "same_server e1 e4"
    and "argon2_ok (ae_crypto e1)" "ae_salt e1 = Inr salt" "ae_hash_slot e1 = None"
    and "ae_verify_slot e2 = None" "ae_verify_slot e4 = None"
    and "ae_token_bytes e1 = Inr bytes" "bytes \<noteq> []" and mail: "\<forall>m. ae_deliver e1 m = None"
    and "can_register e1 (normalizeEmail e1 m) password (committed w)"
    and "ae_now e3 < ae_now e1 + verificationTokenTTL"
    and "can_issue s e3 (password_user (registered_user e1 (normalizeEmail e1 m))) (committed w)"
    and "can_issue s e4 (password_user (registered_user e1 (normalizeEmail e1 m))) (committed w)"
    and "ae_token_uuid e3 \<noteq> ae_token_uuid e4" "drawn e3 \<noteq> drawn e4"
  shows "\<exists>raw w1 session w2 session' w3.
    run_state (Register e1 m password) w = ((Some (VerificationMail (normalizeEmail e1 m) raw), Inr ()), w1) \<and>
    run_state (Login s e2 m password) w1 = (Inl (AuthError ''email_not_verified'' ''verify your email before signing in''), w1) \<and>
    run_state (VerifyEmail s e3 raw) w1 = (Inr session, w2) \<and>
    run_state (Login s e4 m password) w2 = (Inr session', w3) \<and>
    an_user session' = password_user (registered_user e1 (normalizeEmail e1 m))"
proof -
  have "ae_deliver e1 m = None" for m using mail by blast
  then show ?thesis
    by (rule register_verify_login [where ?e2.0 = e2 and ?e3.0 = e3 and ?e4.0 = e4 and m = m and password = password and s = s,
          OF assms(1-12) _ assms(14-19)]) blast
qed

theorem registration_flow_witness:
  "\<exists>raw w1 session w2 session' w3.
    run_state (Register (ax_env 0 ''abc'' 1) '' Ann@cube.org'' ax_pw) ax_world = ((Some (VerificationMail ''ann@cube.org'' raw), Inr ()), w1) \<and>
    run_state (VerifyEmail ax_service (ax_env 60 ''def'' 2) raw) w1 = (Inr session, w2) \<and>
    run_state (Login ax_service (ax_env 200 ''jkl'' 4) '' Ann@cube.org'' ax_pw) w2 = (Inr session', w3)"
proof -
  let ?e1 = "ax_env 0 ''abc'' 1" and ?m = "'' Ann@cube.org''"
  let ?u = "password_user (registered_user ?e1 (normalizeEmail ?e1 ?m))"
  have email: "normalizeEmail ?e1 ?m = ''ann@cube.org''" by code_simp
  have "faults ax_world = []" "can_register ?e1 (normalizeEmail ?e1 ?m) ax_pw (committed ax_world)"
    "can_issue ax_service (ax_env 60 ''def'' 2) ?u (committed ax_world)" "can_issue ax_service (ax_env 200 ''jkl'' 4) ?u (committed ax_world)"
    "(2 :: uuid) \<noteq> 4" "drawn (ax_env 60 ''def'' 2) \<noteq> drawn (ax_env 200 ''jkl'' 4)" "60 * Second < 0 * Second + verificationTokenTTL"
    by code_simp+
  then show ?thesis
    using registration_flow [of ax_world ?e1 "ax_env 30 ''xyz'' 9" "ax_env 60 ''def'' 2" "ax_env 200 ''jkl'' 4" "''NaCl''" "''abc''" ?m ax_pw ax_service]
      ax_accounts_ok(1) ax_argon2_ok
    by (simp only: ax_env_simps ax_same_server email) blast
qed

text \<open>
  C26. A sign-in that answers a session found a verified account with that email whose stored hash
  verifies the password, and stored the refresh token it answers for that user.
\<close>

theorem login_safe:
  assumes "run_state (Login s e email password) w = (Inr session, w')"
  shows "\<exists>user\<in>set (users (committed w)). \<exists>cred\<in>set (password_credentials (committed w)).
    us_email user = ae_pg_lower e (normalizeEmail e email) \<and> us_email_verified_at user \<noteq> None \<and> pc_user_id cred = us_id user \<and>
    verifyPasswordInternal (ae_crypto e) password (pc_password_hash cred) = Inr True \<and>
    session_issued s e (password_user user) (ae_family_uuid e) session (committed w) (committed w')"
  using assms by (rule Login_Inr) blast

definition ax_login :: "(world, error + AuthSession) state" where
  "ax_login = Login ax_service (ax_env 200 ''jkl'' 4) ''ANN@cube.org'' ax_pw"

theorem login_safe_witness:
  "\<exists>user\<in>set (users (committed ax_verified)). us_email user = ''ann@cube.org'' \<and>
    session_issued ax_service (ax_env 200 ''jkl'' 4) (password_user user) 4 (projr (fst (run_state ax_login ax_verified)))
      (committed ax_verified) (committed (snd (run_state ax_login ax_verified)))"
proof -
  have "case fst (run_state ax_login ax_verified) of Inl _ \<Rightarrow> False | Inr _ \<Rightarrow> True" by code_simp
  note run = run_Inr [OF this]
  have "ae_pg_lower (ax_env 200 ''jkl'' 4) (normalizeEmail (ax_env 200 ''jkl'' 4) ''ANN@cube.org'') = ''ann@cube.org''" by code_simp
  with login_safe [OF run [unfolded ax_login_def]] show ?thesis by (auto simp: ax_login_def)
qed

end
