(* ===== verification/Token_Theorems.thy ===== *)
theory Token_Theorems
  imports Auth_Theorems
begin

text \<open>
  The properties of refresh tokens and one-time tokens.
\<close>

subsection \<open>Refresh tokens\<close>

text \<open>
  C27. Without connection failures a usable refresh token is marked used and answered with a
  session of its family; an expired one is refused without a change, and a used or revoked one
  revokes its family.
\<close>

theorem refresh_rotates:
  assumes clean: "faults w = []"
    and rec: "token_with (tokenHash (ae_crypto e) raw) (committed w) = Some rec"
    and user: "row_at us_id (rt_user_id rec) (users (committed w)) = Some user"
    and can: "can_issue s e (userFromDB user) (committed w)"
  shows "if usable (ae_now e) rec
    then \<exists>session w'. run_state (Refresh s e raw) w = (Inr session, w') \<and>
      session_issued s e (userFromDB user) (rt_family_id rec) session
        (if rt_used_at rec = None then snd (MarkRefreshTokenUsed (ae_db_now e) (rt_id rec) (committed w)) else committed w)
        (committed w')
    else run_state (Refresh s e raw) w =
      (if rt_used_at rec = None \<and> rt_revoked_at rec = None then (Inl invalidRefreshToken, w)
       else (Inl refreshTokenReused,
         w\<lparr>committed := revoke_where (ae_db_now e) (\<lambda>r. rt_family_id r = rt_family_id rec) (committed w)\<rparr>))"
proof (cases "usable (ae_now e) rec")
  case True
  then show ?thesis by (simp only: if_True) (rule Refresh_usable [OF clean rec True user can], blast)
next
  case False
  then show ?thesis
    using Refresh_unusable(2) [OF clean rec] Refresh_reused [OF rec clean]
    by (auto simp: usable_def not_less not_le split: option.splits)
qed

definition ax_new_token :: RefreshToken where
  "ax_new_token = the (token_with (tokenHash ax_crypto ''ZGVm'') (committed ax_verified))"

definition ax_user :: UserRow where
  "ax_user = the (row_at us_id 1 (users (committed ax_verified)))"

theorem refresh_rotates_witness:
  "\<exists>session w'. run_state (Refresh ax_service (ax_env 100 ''ghi'' 3) ''ZGVm'') ax_verified = (Inr session, w') \<and>
    session_issued ax_service (ax_env 100 ''ghi'' 3) (userFromDB ax_user) 2 session
      (snd (MarkRefreshTokenUsed (100 * Second) 2 (committed ax_verified))) (committed w')"
proof -
  have "faults ax_verified = []" "token_with (tokenHash ax_crypto ''ZGVm'') (committed ax_verified) = Some ax_new_token"
    "row_at us_id (rt_user_id ax_new_token) (users (committed ax_verified)) = Some ax_user"
    "can_issue ax_service (ax_env 100 ''ghi'' 3) (userFromDB ax_user) (committed ax_verified)"
    "usable (100 * Second) ax_new_token" "rt_used_at ax_new_token = None" "rt_family_id ax_new_token = 2" "rt_id ax_new_token = 2"
    by code_simp+
  then show ?thesis
    using refresh_rotates [of ax_verified "ax_env 100 ''ghi'' 3" "''ZGVm''" ax_new_token ax_user ax_service]
    by (simp only: ax_env_simps simp_thms if_True)
qed

text \<open>
  C22. A refresh token that is revoked, or was used longer ago than the grace period, is answered
  with refresh_token_reused, and from then on no token of its family is ever answered with a
  session, whatever calls are made in between.
\<close>

theorem refresh_reuse_detected:
  assumes rec: "token_with (tokenHash (ae_crypto e) raw) (committed w) = Some rec" and clean: "faults w = []"
    and ok: "accounts_ok pl (committed w)" "server_ok e0 (committed w)"
    and reuse: "rt_revoked_at rec \<noteq> None \<or>
      (\<exists>t. rt_used_at rec = Some t \<and> (refreshReuseGrace < ae_now e - t \<or> rt_expires_at rec \<le> ae_now e))"
    and run: "run_state (Refresh s e raw) w = (r, w')"
    and later: "(service_step pl e0 (\<lambda>e. ae_family_uuid e \<noteq> rt_family_id rec))\<^sup>*\<^sup>* (committed w') (committed w2)"
    and same: "token_with (tokenHash (ae_crypto e2) raw2) (committed w2) = Some rec2" "rt_family_id rec2 = rt_family_id rec"
  shows "r = Inl refreshTokenReused \<and> (\<nexists>session w3. run_state (Refresh s2 e2 raw2) w2 = (Inr session, w3))"
proof -
  have r: "r = Inl refreshTokenReused"
    and w': "committed w' = revoke_where (ae_db_now e) (\<lambda>r. rt_family_id r = rt_family_id rec) (committed w)"
    using Refresh_reused [OF rec clean reuse, of s] run by auto
  have "service_step pl e0 (\<lambda>_. True) (committed w) (committed w')" using run by (rule service_step.refresh)
  then have "accounts_ok pl (committed w')" "server_ok e0 (committed w')" using ok service_step_ok by blast+
  moreover have "dead_family (rt_family_id rec) (committed w')" unfolding w' by (rule dead_revoke)
  ultimately have "dead_family (rt_family_id rec) (committed w2)" using later dead_family_steps by blast
  with r same Refresh_dead show ?thesis by metis
qed

text \<open>The token is presented again after the grace period, then its successor and a new sign-in.\<close>

definition ax_reuse :: "(world, error + AuthSession) state" where
  "ax_reuse = Refresh ax_service (ax_env 200 ''mno'' 5) ''ZGVm''"

definition ax_again :: "(world, error + AuthSession) state" where
  "ax_again = Login ax_service (ax_env 300 ''pqr'' 6) ''ann@cube.org'' ax_pw"

definition ax_reused :: world where
  "ax_reused = snd (run_state ax_again (snd (run_state ax_reuse ax_refreshed)))"

lemma ax_again_step:
  "service_step ax_lower (ex_env 0) (\<lambda>e. ae_family_uuid e \<noteq> 2) (committed (snd (run_state ax_reuse ax_refreshed))) (committed ax_reused)"
proof -
  have "(6 :: uuid) \<noteq> 2" by code_simp
  then show ?thesis
    unfolding ax_reused_def ax_again_def
    by (intro service_step.auth [OF auth_call.login [OF run_pair]]) simp_all
qed

theorem refresh_reuse_detected_witness:
  "fst (run_state ax_reuse ax_refreshed) = Inl refreshTokenReused \<and>
   (\<nexists>session w3. run_state (Refresh ax_service (ax_env 310 ''stu'' 7) ''Z2hp'') ax_reused = (Inr session, w3))"
proof -
  let ?rec = "ax_token 2 2 ''hZGVm'' 60 (Some (100 * Second)) None"
  let ?rec2 = "ax_token 3 2 ''hZ2hp'' 100 None (Some (200 * Second))"
  have family: "rt_family_id ?rec = 2" "rt_family_id ?rec2 = 2" by (simp_all add: ax_token_def)
  show ?thesis
  proof (rule refresh_reuse_detected [where e = "ax_env 200 ''mno'' 5" and raw = "''ZGVm''" and w = ax_refreshed and rec = ?rec
        and pl = ax_lower and ?e0.0 = "ex_env 0" and s = ax_service and w' = "snd (run_state ax_reuse ax_refreshed)" and ?rec2.0 = ?rec2])
    show "token_with (tokenHash (ae_crypto (ax_env 200 ''mno'' 5)) ''ZGVm'') (committed ax_refreshed) = Some ?rec"
      "token_with (tokenHash (ae_crypto (ax_env 310 ''stu'' 7)) ''Z2hp'') (committed ax_reused) = Some ?rec2" "faults ax_refreshed = []"
      by code_simp+
    show "rt_revoked_at ?rec \<noteq> None \<or> (\<exists>t. rt_used_at ?rec = Some t \<and>
        (refreshReuseGrace < ae_now (ax_env 200 ''mno'' 5) - t \<or> rt_expires_at ?rec \<le> ae_now (ax_env 200 ''mno'' 5)))"
      by (simp add: ax_token_def refreshReuseGrace_def Second_def)
    show "run_state (Refresh ax_service (ax_env 200 ''mno'' 5) ''ZGVm'') ax_refreshed =
        (fst (run_state ax_reuse ax_refreshed), snd (run_state ax_reuse ax_refreshed))"
      by (simp add: ax_reuse_def)
    show "(service_step ax_lower (ex_env 0) (\<lambda>e. ae_family_uuid e \<noteq> rt_family_id ?rec))\<^sup>*\<^sup>*
        (committed (snd (run_state ax_reuse ax_refreshed))) (committed ax_reused)"
      unfolding family by (rule r_into_rtranclp) (rule ax_again_step)
    show "rt_family_id ?rec2 = rt_family_id ?rec" unfolding family by simp
  qed (rule ax_accounts_ok ax_server_ok)+
qed


subsection \<open>One-time tokens\<close>

text \<open>
  C24. A one-time token that verified an email or reset a password never does either again,
  whatever calls are made in between.
\<close>

theorem one_time_single_use:
  assumes first: "run_state (VerifyEmail s e raw) w = (Inr session, w') \<or> run_state (ResetPassword s e raw p) w = (Inr session, w')"
    and ok: "accounts_ok pl (committed w)" "server_ok e0 (committed w)" and lower: "ae_pg_lower e = pl"
    and later: "(service_step pl e0 (\<lambda>e'. drawn e' \<noteq> Some (tokenHash (ae_crypto e) raw)))\<^sup>*\<^sup>* (committed w') (committed w2)"
    and hash: "ae_crypto e2 = ae_crypto e"
  shows "(\<nexists>session w3. run_state (VerifyEmail s2 e2 raw) w2 = (Inr session, w3)) \<and>
    (\<nexists>session w3. run_state (ResetPassword s2 e2 raw p2) w2 = (Inr session, w3))"
proof -
  have spent: "spent (tokenHash (ae_crypto e) raw) (committed w')"
    using first ok(1) by (auto elim!: VerifyEmail_Inr ResetPassword_Inr)
  have "auth_call pl e (committed w) (committed w')" using first lower by (auto intro: auth_call.verify auth_call.reset)
  then have step: "service_step pl e0 (\<lambda>_. True) (committed w) (committed w')" by (rule service_step.auth) simp
  have ok': "accounts_ok pl (committed w')" "server_ok e0 (committed w')" using service_step_ok [OF step] ok by blast+
  have spent2: "spent (tokenHash (ae_crypto e2) raw) (committed w2)"
    unfolding hash by (rule spent_steps [OF later ok' spent])
  have "accounts_ok pl (committed w2)" using service_steps_ok [OF later ok'] by blast
  with spent2 show ?thesis by (auto elim!: VerifyEmail_Inr ResetPassword_Inr dest: spent_not_found)
qed

theorem one_time_single_use_witness:
  "\<nexists>session w3. run_state (VerifyEmail ax_service (ax_env 300 ''pqr'' 6) ''YWJj'') ax_refreshed = (Inr session, w3)"
proof -
  let ?e = "ax_env 60 ''def'' 2"
  have run: "run_state (VerifyEmail ax_service ?e ''YWJj'') ax_registered =
      (Inr (projr (fst (run_state (VerifyEmail ax_service ?e ''YWJj'') ax_registered))), ax_verified)"
  proof -
    have "case fst (run_state (VerifyEmail ax_service ?e ''YWJj'') ax_registered) of Inl _ \<Rightarrow> False | Inr _ \<Rightarrow> True" by code_simp
    from run_Inr [OF this] show ?thesis by (simp add: ax_verified_def)
  qed
  have "service_step ax_lower (ex_env 0) (\<lambda>e'. drawn e' \<noteq> Some (tokenHash (ae_crypto ?e) ''YWJj'')) (committed ax_verified) (committed ax_refreshed)"
    unfolding ax_refreshed_def by (rule service_step.refresh [OF run_pair])
  then have "(service_step ax_lower (ex_env 0) (\<lambda>e'. drawn e' \<noteq> Some (tokenHash (ae_crypto ?e) ''YWJj'')))\<^sup>*\<^sup>* (committed ax_verified) (committed ax_refreshed)"
    by (rule r_into_rtranclp)
  from one_time_single_use [OF disjI1 [OF run] ax_accounts_ok(2) ax_server_ok(2) _ this, of "ax_env 300 ''pqr'' 6" ax_service "[]"] show ?thesis
    by simp
qed

end
