(* ===== verification/Account_Theorems.thy ===== *)
theory Account_Theorems
  imports Token_Theorems
begin

text \<open>
  The properties of passwords, access tokens and accounts.
\<close>

subsection \<open>Passwords and access tokens\<close>

text \<open>
  C30. A password hash, stored as text and parsed again, verifies an attempt exactly when Argon2id
  derives the same key from it under the stored salt and parameters.
\<close>

theorem password_roundtrip:
  assumes "argon2_ok c" "hashPassword c None (Inr salt) password = Inr encoded"
  shows "verifyPassword c None attempt encoded =
    Inr (IDKey c attempt salt argonIterations argonMemory argonParallelism argonKeyLength =
         IDKey c password salt argonIterations argonMemory argonParallelism argonKeyLength)"
  using verify_hash [OF assms(1), of salt password encoded attempt] assms(2) by (simp add: hashPassword_def verifyPassword_def)

theorem password_roundtrip_witness:
  "verifyPassword ax_crypto None ax_pw (pc_password_hash (hd (password_credentials (committed ax_registered)))) = Inr True \<and>
   verifyPassword ax_crypto None ''guess'' (pc_password_hash (hd (password_credentials (committed ax_registered)))) = Inr False"
proof -
  let ?h = "pc_password_hash (hd (password_credentials (committed ax_registered)))"
  have "hashPassword ax_crypto None (Inr ''NaCl'') ax_pw = Inr ?h" by code_simp
  note eq = password_roundtrip [OF ax_argon2_ok this]
  have "IDKey ax_crypto ''guess'' ''NaCl'' argonIterations argonMemory argonParallelism argonKeyLength \<noteq>
      IDKey ax_crypto ax_pw ''NaCl'' argonIterations argonMemory argonParallelism argonKeyLength" by code_simp
  with eq [of ax_pw] eq [of "''guess''"] show ?thesis by simp
qed

text \<open>
  An issued access token is parsed back to the same user and claims exactly from five seconds
  before its issue until its expiry, both truncated to the second, and is refused at any other
  time.
\<close>

theorem access_token_roundtrip:
  assumes "jwt_ok c" "IssueAccessToken c m t jti u verified role = Inr (raw, expires)"
    and "date_range m t" "plain_text (tm_issuer m)" "plain_text jti" "plain_text role"
  shows "ParseAccessToken c m now raw =
    (if t - 5 * Second - (t - 5 * Second) mod Second \<le> now \<and> now < expires - expires mod Second
     then Inr (u, \<lparr> ac_email_verified = verified, ac_user_role = (if role = [] then RoleUser else role), ac_issuer = tm_issuer m,
       ac_subject = UUIDString c u, ac_audience = [clientsAudience], ac_expires_at = Some (expires - expires mod Second),
       ac_issued_at = Some (t - t mod Second), ac_not_before = Some (t - 5 * Second - (t - 5 * Second) mod Second), ac_id = jti \<rparr>)
     else Inl (OtherError ''parse access token''))"
proof -
  have "expires = t + tm_lifetime m" using assms(2) by (auto simp: IssueAccessToken_def split: option.splits)
  moreover have "NewNumericDate c x = x - x mod Second" for x using assms(1) by (simp add: jwt_ok_def)
  ultimately show ?thesis using parse_issued [OF assms, of now] by (simp add: access_claims_def)
qed

text \<open>A signer that knows one set of claims, and the identifiers written in binary.\<close>

definition ay_uuid_text :: "uuid \<Rightarrow> string" where
  "ay_uuid_text u = map (\<lambda>i. if bit u i then CHR ''1'' else CHR ''0'') [0..<128]"

definition ay_claims :: AccessClaims where
  "ay_claims = access_claims (ax_crypto\<lparr>UUIDString := ay_uuid_text\<rparr>) (as_tokens ax_service) (60 * Second) ''j'' 1 True ''user''"

definition ay_crypto :: crypto where
  "ay_crypto = ax_crypto\<lparr>SignedString := (\<lambda>key c. if c = ay_claims then Some (CHR ''t'' # key) else None),
     ParseWithClaims := (\<lambda>now raw keyfunc issuer audience.
       if map_option (Cons CHR ''t'') (keyfunc ''HS256'') = Some raw \<and> claims_hold now issuer audience ay_claims then Some (ay_claims, True) else None),
     UUIDString := ay_uuid_text,
     UUIDParse := (\<lambda>s. Some (horner_sum of_bool 2 (map (\<lambda>c. c = CHR ''1'') s)))\<rparr>"

lemma ay_jwt_ok: "jwt_ok ay_crypto"
proof -
  have "horner_sum of_bool 2 (map (bit u) [0..<128]) = u" for u :: uuid
    by (simp add: horner_sum_bit_eq_take_bit take_bit_word_eq_self)
  then have "UUIDParse ay_crypto (UUIDString ay_crypto u) = Some u" for u
    by (simp add: ay_crypto_def ay_uuid_text_def comp_def if_distrib [of "\<lambda>c. c = _"] cong: if_cong)
  moreover have "plain_text (UUIDString ay_crypto u)" for u
    by (auto simp: ay_crypto_def ay_uuid_text_def plain_text_def list_all_iff)
  ultimately show ?thesis
    unfolding jwt_ok_def by (auto simp: ay_crypto_def ax_crypto_def split: if_splits)
qed

theorem access_token_roundtrip_witness:
  "ParseAccessToken ay_crypto (as_tokens ax_service) (100 * Second) ''ts'' = Inr (1, ay_claims) \<and>
   ParseAccessToken ay_crypto (as_tokens ax_service) (960 * Second) ''ts'' = Inl (OtherError ''parse access token'')"
proof -
  let ?m = "as_tokens ax_service"
  have "access_claims ay_crypto ?m (60 * Second) ''j'' 1 True ''user'' = ay_claims"
    by (simp add: ay_claims_def ay_crypto_def ax_crypto_def access_claims_def)
  then have "IssueAccessToken ay_crypto ?m (60 * Second) ''j'' 1 True ''user'' = Inr (''ts'', 960 * Second)"
    by (simp add: IssueAccessToken_def ay_crypto_def ax_service_def Second_def)
  moreover have "date_range ?m (60 * Second)" "plain_text (tm_issuer ?m)" "plain_text ''j''" "plain_text ''user''" by code_simp+
  ultimately have "ParseAccessToken ay_crypto ?m now ''ts'' = (if 55 * Second \<le> now \<and> now < 960 * Second
      then Inr (1, ay_claims) else Inl (OtherError ''parse access token''))" for now
    using access_token_roundtrip [OF ay_jwt_ok, of ?m "60 * Second" "''j''" 1 True "''user''" "''ts''" "960 * Second" now]
    by (simp add: ay_claims_def access_claims_def Second_def ay_crypto_def ax_crypto_def ax_service_def)
  then show ?thesis by (simp add: Second_def)
qed


subsection \<open>Changing an account\<close>

text \<open>
  C28. A password reset that answers a session used up a valid token, stored a hash that verifies
  the new password, verified the email, revoked every session of the account but the new one, and
  changed no other account.
\<close>

theorem reset_password_effect:
  assumes run: "run_state (ResetPassword s e raw password) w = (Inr session, w')"
    and ok: "accounts_ok pl (committed w)" and argon: "argon2_ok (ae_crypto e)" "ae_salt e = Inr salt"
  shows "\<exists>tok user cred.
    token_of_kind (tokenHash (ae_crypto e) raw) ''reset_password'' (committed w) = Some tok \<and>
    ot_used_at tok = None \<and> ae_now e < ot_expires_at tok \<and>
    row_at us_id (ot_user_id tok) (users (committed w')) = Some user \<and> us_email_verified_at user \<noteq> None \<and>
    an_user session = userFromDB user \<and>
    row_at pc_user_id (ot_user_id tok) (password_credentials (committed w')) = Some cred \<and>
    verifyPasswordInternal (ae_crypto e) password (pc_password_hash cred) = Inr True \<and>
    only_session (ot_user_id tok) (tokenHash (ae_crypto e) (an_refresh_token session)) (committed w') \<and>
    spent (tokenHash (ae_crypto e) raw) (committed w') \<and>
    (\<forall>v. v \<noteq> ot_user_id tok \<longrightarrow> same_account v (committed w) (committed w'))"
  using run ok
proof (rule ResetPassword_Inr)
  fix tok user hash
  assume found: "token_of_kind (tokenHash (ae_crypto e) raw) ''reset_password'' (committed w) = Some tok"
      "ot_used_at tok = None" "ae_now e < ot_expires_at tok"
      "row_at us_id (ot_user_id tok) (users (committed w')) = Some user" "us_email_verified_at user \<noteq> None"
      "an_user session = userFromDB user" "spent (tokenHash (ae_crypto e) raw) (committed w')"
      "\<And>v. v \<noteq> ot_user_id tok \<Longrightarrow> same_account v (committed w) (committed w')"
    and hash: "hashPassword (ae_crypto e) (ae_hash_slot e) (ae_salt e) password = Inr hash"
    and cred: "map_option pc_password_hash (row_at pc_user_id (ot_user_id tok) (password_credentials (committed w'))) = Some hash"
    and only: "only_session (ot_user_id tok) (tokenHash (ae_crypto e) (an_refresh_token session)) (committed w')"
  have "hashPassword (ae_crypto e) None (Inr salt) password = Inr hash"
    using hash argon(2) by (auto simp: hashPassword_def split: option.splits)
  then have "verifyPasswordInternal (ae_crypto e) password hash = Inr True" by (rule hash_verifies [OF argon(1)])
  with found cred only show ?thesis by auto
qed

definition ax_forgot :: world where
  "ax_forgot = snd (run_state (ForgotPassword (ax_env 120 ''rst'' 8) ''ann@cube.org'') ax_verified)"

definition ax_reset :: "(world, error + AuthSession) state" where
  "ax_reset = ResetPassword ax_service (ax_env 130 ''uvw'' 9) ''cnN0'' ''battery staple''"

theorem reset_password_effect_witness:
  "\<exists>cred. row_at pc_user_id 1 (password_credentials (committed (snd (run_state ax_reset ax_forgot)))) = Some cred \<and>
    verifyPasswordInternal ax_crypto ''battery staple'' (pc_password_hash cred) = Inr True \<and>
    only_session 1 ''hdXZ3'' (committed (snd (run_state ax_reset ax_forgot)))"
proof -
  have facts: "case fst (run_state ax_reset ax_forgot) of Inl _ \<Rightarrow> False | Inr _ \<Rightarrow> True"
    "tokenHash ax_crypto (an_refresh_token (projr (fst (run_state ax_reset ax_forgot)))) = ''hdXZ3''"
    "map_option ot_user_id (token_of_kind (tokenHash ax_crypto ''cnN0'') ''reset_password'' (committed ax_forgot)) = Some 1"
    "accounts_ok ax_lower (committed ax_forgot)"
    by code_simp+
  have "ae_salt (ax_env 130 ''uvw'' 9) = Inr ''NaCl''" by simp
  from reset_password_effect [OF run_Inr [OF facts(1), unfolded ax_reset_def] facts(4) _ this] ax_argon2_ok facts(2,3) show ?thesis
    by (auto simp: ax_reset_def)
qed

text \<open>
  C23. A Google sign-in that answers a session was backed by a verified identity token with the
  right audience, nonce and a verified email; the account is new, or was already linked to that
  identity, or was never verified and has lost its password, tokens and sessions; no other account
  changes.
\<close>

theorem federated_no_takeover:
  assumes fed: "as_federated s = Verify ul lib (NewOIDCVerifier ids secret)"
    and run: "run_state (FederatedLogin s e provider input) w = (Inr session, w')" and ok: "accounts_ok pl (committed w)"
    and u: "u = au_id (an_user session)"
  shows "\<exists>raw token claims.
    raw_id_token lib (NewOIDCVerifier ids secret) provider input = Inr raw \<and>
    VerifyIDToken lib ''https://accounts.google.com'' ''https://www.googleapis.com/oauth2/v3/certs'' raw = Some token \<and>
    Claims lib token = Some claims \<and> fi_client_id input \<in> set ids \<and> fi_client_id input \<in> set (ic_audience claims) \<and>
    ic_nonce claims = fi_nonce input \<and> parseBooleanClaim lib (ic_email_verified claims) \<and>
    linked u ''google'' (ic_subject claims) (committed w') \<and>
    (\<forall>v. v \<noteq> u \<longrightarrow> same_account v (committed w) (committed w')) \<and>
    (\<forall>r. row_at us_id u (users (committed w)) = Some r \<longrightarrow> linked u ''google'' (ic_subject claims) (committed w) \<or>
      us_email_verified_at r = None \<and> \<not> exists_row (\<lambda>i. id_user_id i = u) (identities (committed w)) \<and>
      claimed u ''google'' (ic_subject claims) (tokenHash (ae_crypto e) (an_refresh_token session)) (committed w'))"
  using run ok
proof (rule FederatedLogin_Inr)
  fix ident u'
  assume ident: "as_federated s provider input = Inr ident" and u': "u' = au_id (an_user session)"
    and rest: "linked u' provider (fd_subject ident) (committed w')" "\<And>v. v \<noteq> u' \<Longrightarrow> same_account v (committed w) (committed w')"
    "\<And>r. row_at us_id u' (users (committed w)) = Some r \<Longrightarrow> linked u' provider (fd_subject ident) (committed w) \<or>
        us_email_verified_at r = None \<and> \<not> exists_row (\<lambda>i. id_user_id i = u') (identities (committed w)) \<and>
        claimed u' provider (fd_subject ident) (tokenHash (ae_crypto e) (an_refresh_token session)) (committed w')"
  from Verify_sound [OF ident [unfolded fed]] u u' rest show ?thesis by auto
qed

text \<open>A provider that vouches for Ann, who registered but did not verify her address.\<close>

definition ax_oidc :: oidc where
  "ax_oidc = \<lparr> VerifyIDToken = (\<lambda>_ _ raw. Some raw),
     Claims = (\<lambda>_. Some \<lparr> ic_subject = ''g1'', ic_email = ''Ann@cube.org'', ic_email_verified = ''true'', ic_nonce = ''n'', ic_audience = [''app''] \<rparr>),
     Exchange = (\<lambda>_ _ _. None), UnmarshalBool = (\<lambda>t. if t = ''true'' then Some True else None), UnmarshalString = (\<lambda>_. None) \<rparr>"

definition ax_google :: AuthService where
  "ax_google = ax_service\<lparr>as_federated := Verify id ax_oidc (NewOIDCVerifier [''app''] ''secret'')\<rparr>"

definition ax_input :: FederatedInput where
  "ax_input = \<lparr> fi_id_token = ''tok'', fi_code = [], fi_client_id = ''app'', fi_redirect_uri = [], fi_code_verifier = [], fi_nonce = ''n'' \<rparr>"

definition ax_claim :: "(world, error + AuthSession) state" where
  "ax_claim = FederatedLogin ax_google (ax_env 70 ''xyz'' 5) ''google'' ax_input"

theorem federated_no_takeover_witness:
  "linked 1 ''google'' ''g1'' (committed (snd (run_state ax_claim ax_registered))) \<and>
   claimed 1 ''google'' ''g1'' ''heHl6'' (committed (snd (run_state ax_claim ax_registered)))"
proof -
  let ?s = "projr (fst (run_state ax_claim ax_registered))"
  have facts: "case fst (run_state ax_claim ax_registered) of Inl _ \<Rightarrow> False | Inr _ \<Rightarrow> True" "1 = au_id (an_user ?s)"
    "tokenHash ax_crypto (an_refresh_token ?s) = ''heHl6''" "\<not> linked 1 ''google'' ''g1'' (committed ax_registered)"
    "row_at us_id 1 (users (committed ax_registered)) = Some (hd (users (committed ax_registered)))"
    by code_simp+
  have fed: "as_federated ax_google = Verify id ax_oidc (NewOIDCVerifier [''app''] ''secret'')" by (simp add: ax_google_def)
  from federated_no_takeover [OF fed run_Inr [OF facts(1), unfolded ax_claim_def] ax_accounts_ok(2) facts(2) [unfolded ax_claim_def]] facts(3-5)
  show ?thesis by (auto simp: ax_claim_def ax_oidc_def)
qed

text \<open>
  C29. Deleting an account leaves no row of that user in any table of accounts or synchronized
  data, and every row of every other user as it was.
\<close>

theorem delete_account_erases:
  assumes "run_state (DeleteAccount u) w = (Inr (), w')" "user_exists u (committed w)"
  shows "erased u (committed w') \<and>
    (\<forall>v. v \<noteq> u \<longrightarrow> same_account v (committed w) (committed w') \<and> same_entities_of v (committed w) (committed w'))"
  using DeleteAccount_cases(2) [OF assms(1) refl] assms(2) cascade_erases [of u "committed w"] cascade_others [of _ u "committed w"]
  by simp

theorem delete_account_erases_witness:
  "erased 1 (committed (snd (run_state (DeleteAccount 1) ax_refreshed)))"
proof -
  have "user_exists 1 (committed ax_refreshed)" "fst (run_state (DeleteAccount 1) ax_refreshed) = Inr ()" by code_simp+
  with delete_account_erases [of 1 ax_refreshed "snd (run_state (DeleteAccount 1) ax_refreshed)"] show ?thesis
    by (metis prod.collapse)
qed


subsection \<open>Sessions that outlive a change\<close>

text \<open>
  When the connection fails between the two statements of SetPassword, the call returns an
  error although the new password is stored, and no session of the account is revoked.
\<close>

theorem set_password_not_atomic:
  assumes valid: "validatePassword password = None" "hashPassword (ae_crypto e) (ae_hash_slot e) (ae_salt e) password = Inr hash"
    and ok: "accounts_ok pl (committed w)" "user_exists u (committed w)" and lost: "faults w = Delivered # Lost # fs"
  shows "\<exists>w'. run_state (SetPassword e u password) w = (Inl (PgError ConnectionFailure), w') \<and>
    map_option pc_password_hash (row_at pc_user_id u (password_credentials (committed w'))) = Some hash \<and>
    refresh_tokens (committed w') = refresh_tokens (committed w)"
proof -
  have "fst (UpsertPasswordCredential (ae_db_now e) u hash (committed w)) = Inr ()"
    using ok(2) text_ok_hash [OF valid(2)] by (simp add: UpsertPasswordCredential_def)
  then obtain d where d: "UpsertPasswordCredential (ae_db_now e) u hash (committed w) = (Inr (), d)"
    by (metis prod.collapse)
  then have "run_state (SetPassword e u password) w = (Inl (PgError ConnectionFailure), w\<lparr>committed := d, faults := fs\<rparr>)"
    using valid lost
    by (simp add: SetPassword_def pool_try_def exec_pool_def next_fault_def pg_result_def Let_def run_simps)
  with upserted [OF d] Upsert_frame [OF d] show ?thesis by simp
qed

theorem set_password_not_atomic_witness:
  "\<exists>w'. run_state (SetPassword (ax_env 400 [] 0) 1 ''battery staple'') (ax_verified\<lparr>faults := [Delivered, Lost]\<rparr>) =
      (Inl (PgError ConnectionFailure), w') \<and> refresh_tokens (committed w') = refresh_tokens (committed ax_verified)"
proof -
  let ?w = "ax_verified\<lparr>faults := [Delivered, Lost]\<rparr>"
  obtain hash where hash: "hashPassword ax_crypto None (Inr ''NaCl'') ''battery staple'' = Inr hash"
  proof -
    have "case hashPassword ax_crypto None (Inr ''NaCl'') ''battery staple'' of Inl _ \<Rightarrow> False | Inr _ \<Rightarrow> True" by code_simp
    then show thesis using that by (auto split: sum.splits)
  qed
  have "validatePassword ''battery staple'' = None" "user_exists 1 (committed ?w)" by code_simp+
  then show ?thesis
    using set_password_not_atomic [of "''battery staple''" "ax_env 400 [] 0" hash ax_lower ?w 1 "[]"] hash ax_accounts_ok(3) by auto
qed

text \<open>
  Signing out revokes the presented token only: the token it was rotated from is still
  answered with a session of the same family during its grace period.
\<close>

theorem logout_keeps_grace:
  assumes clean: "faults w = []"
    and old: "token_with (tokenHash (ae_crypto e2) raw) (committed w) = Some rec" "rt_revoked_at rec = None" "rt_used_at rec = Some t"
      "ae_now e2 - t \<le> refreshReuseGrace" "ae_now e2 < rt_expires_at rec"
    and user: "row_at us_id (rt_user_id rec) (users (committed w)) = Some user"
    and can: "can_issue s e2 (userFromDB user) (committed w)"
    and new: "token_with (tokenHash (ae_crypto e1) raw') (committed w) = Some rec'" "rt_family_id rec' = rt_family_id rec" "rec' \<noteq> rec"
  shows "\<exists>w1 session w2 r. run_state (Logout e1 raw') w = (Inr (), w1) \<and>
    run_state (Refresh s e2 raw) w1 = (Inr session, w2) \<and> an_user session = userFromDB user \<and>
    r \<in> set (refresh_tokens (committed w2)) \<and> rt_token_hash r = tokenHash (ae_crypto e2) (an_refresh_token session) \<and>
    rt_family_id r = rt_family_id rec' \<and> rt_revoked_at r = None"
proof -
  let ?h = "tokenHash (ae_crypto e1) raw'"
  define d where "d = revoke_where (ae_db_now e1) (\<lambda>r. rt_token_hash r = ?h) (committed w)"
  have run: "run_state (Logout e1 raw') w = (Inr (), w\<lparr>committed := d\<rparr>)"
    using clean by (simp add: Logout_def run_simps RevokeRefreshToken_def pg_result_def d_def)
  have "?h \<noteq> tokenHash (ae_crypto e2) raw" using old(1) new(1,3) by auto
  then have rec: "token_with (tokenHash (ae_crypto e2) raw) d = Some rec"
    using old(1) token_with_in [OF old(1)] by (auto simp: d_def token_with_def revoke_where_def row_at_update_where)
  have can': "can_issue s e2 (userFromDB user) d"
    using can by (auto simp: can_issue_def d_def revoke_where_def exists_row_iff set_update_where split: sum.splits)
  have usable: "usable (ae_now e2) rec" using old(2-5) by (simp add: usable_def)
  have user': "row_at us_id (rt_user_id rec) (users d) = Some user" using user by (simp add: d_def revoke_where_def)
  obtain session w2 where ref: "run_state (Refresh s e2 raw) (w\<lparr>committed := d\<rparr>) = (Inr session, w2)"
    and iss: "session_issued s e2 (userFromDB user) (rt_family_id rec) session d (committed w2)"
    by (rule Refresh_usable [of "w\<lparr>committed := d\<rparr>" e2 raw rec user s]) (use clean rec usable user' can' old(3) in simp_all)
  have "refresh_row s e2 (rt_family_id rec) (us_id user) (an_refresh_token session) \<in> set (refresh_tokens (committed w2))"
    "an_user session = userFromDB user"
    using iss by (simp_all add: session_issued_def userFromDB_def)
  with run ref new(2) show ?thesis by (fastforce simp: refresh_row_def)
qed

theorem logout_keeps_grace_witness:
  "\<exists>w1 session w2. run_state (Logout (ax_env 110 [] 0) ''Z2hp'') ax_refreshed = (Inr (), w1) \<and>
    run_state (Refresh ax_service (ax_env 115 ''vwx'' 5) ''ZGVm'') w1 = (Inr session, w2)"
proof -
  let ?rec = "ax_token 2 2 ''hZGVm'' 60 (Some (100 * Second)) None" and ?rec' = "ax_token 3 2 ''hZ2hp'' 100 None None"
  have "faults ax_refreshed = []" "token_with (tokenHash ax_crypto ''ZGVm'') (committed ax_refreshed) = Some ?rec"
    "token_with (tokenHash ax_crypto ''Z2hp'') (committed ax_refreshed) = Some ?rec'" "row_at us_id 1 (users (committed ax_refreshed)) = Some ax_user"
    "can_issue ax_service (ax_env 115 ''vwx'' 5) (userFromDB ax_user) (committed ax_refreshed)"
    by code_simp+
  moreover have "(3 :: uuid) \<noteq> 2" by code_simp
  ultimately show ?thesis
    using logout_keeps_grace [of ax_refreshed "ax_env 115 ''vwx'' 5" "''ZGVm''" ?rec "100 * Second" ax_user ax_service
        "ax_env 110 [] 0" "''Z2hp''" ?rec']
    by (simp add: ax_token_def refreshReuseGrace_def Second_def) blast
qed

end
