(* ===== verification/Rate_Limit.thy ===== *)
theory Rate_Limit
  imports Go_Text
begin

text \<open>
  \<open>internal/httpapi/ratelimit.go\<close>: whose request it is, and whether it is let through.

  Addresses and prefixes are those of \<open>net/netip\<close>, with the functions the code calls as the fields of
  \<open>net_lib\<close>; the token bucket of \<open>golang.org/x/time/rate\<close> is \<open>limiter_lib\<close>. A header that is not sent
  reads as the empty string.
\<close>

record ('a, 'p) net_lib =
  SplitHostPort :: "string \<Rightarrow> string option"
  ParseAddr :: "string \<Rightarrow> 'a option"
  Unmap :: "'a \<Rightarrow> 'a"
  AddrString :: "'a \<Rightarrow> string"
  Contains :: "'p \<Rightarrow> 'a \<Rightarrow> bool"

fun isTrustedProxy :: "('a, 'p) net_lib \<Rightarrow> 'a \<Rightarrow> 'p list \<Rightarrow> bool" where
  "isTrustedProxy lib addr [] = False"
| "isTrustedProxy lib addr (prefix # prefixes) = (if Contains lib prefix addr then True else isTrustedProxy lib addr prefixes)"

text \<open>The loop over the forwarded addresses, from the last one to the first.\<close>

fun forwarded :: "('a, 'p) net_lib \<Rightarrow> 'p list \<Rightarrow> 'a \<Rightarrow> string list \<Rightarrow> string" where
  "forwarded lib trusted peer [] = AddrString lib peer"
| "forwarded lib trusted peer (part # parts) =
     (case ParseAddr lib (TrimSpace part) of
        None \<Rightarrow> AddrString lib peer
      | Some addr \<Rightarrow>
          if \<not> isTrustedProxy lib (Unmap lib addr) trusted then AddrString lib (Unmap lib addr)
          else forwarded lib trusted peer parts)"

definition clientIP :: "('a, 'p) net_lib \<Rightarrow> 'p list \<Rightarrow> string \<Rightarrow> string \<Rightarrow> string \<Rightarrow> string" where
  "clientIP lib trusted remote_addr xff real_ip =
     (let host = (case SplitHostPort lib remote_addr of None \<Rightarrow> remote_addr | Some h \<Rightarrow> h) in
      case ParseAddr lib host of
        None \<Rightarrow> host
      | Some addr \<Rightarrow>
          let peer = Unmap lib addr in
          if \<not> isTrustedProxy lib peer trusted then AddrString lib peer
          else if xff \<noteq> [] then forwarded lib trusted peer (rev (Split CHR '','' xff))
          else case ParseAddr lib (TrimSpace real_ip) of
            Some a \<Rightarrow> AddrString lib (Unmap lib a)
          | None \<Rightarrow> AddrString lib peer)"


subsection \<open>Visitors\<close>

record 'l limiter_lib =
  NewLimiter :: "duration \<Rightarrow> int \<Rightarrow> 'l"
  Allow :: "time \<Rightarrow> 'l \<Rightarrow> bool \<times> 'l"

record 'l visitor =
  vs_limiter :: 'l
  vs_last_seen :: time

record 'l ipRateLimiter =
  rl_visitors :: "string \<Rightarrow> 'l visitor option"
  rl_every :: duration
  rl_burst :: int

text \<open>\<open>time.Minute / time.Duration(eventsPerMinute)\<close> is the time between two events.\<close>

definition newIPRateLimiterWithProxies :: "int \<Rightarrow> int \<Rightarrow> 'l ipRateLimiter" where
  "newIPRateLimiterWithProxies eventsPerMinute burst =
     \<lparr> rl_visitors = Map.empty, rl_every = (60 * Second) div eventsPerMinute, rl_burst = burst \<rparr>"

text \<open>The critical section of the middleware: the visitor is entered, seen, and asked.\<close>

definition admit :: "'l limiter_lib \<Rightarrow> time \<Rightarrow> string \<Rightarrow> 'l ipRateLimiter \<Rightarrow> bool \<times> 'l ipRateLimiter" where
  "admit lib now host l =
     (let entry = (case rl_visitors l host of
                     Some v \<Rightarrow> v
                   | None \<Rightarrow> \<lparr> vs_limiter = NewLimiter lib (rl_every l) (rl_burst l), vs_last_seen = now \<rparr>);
          (allowed, bucket) = Allow lib now (vs_limiter entry) in
      (allowed, l\<lparr>rl_visitors := (rl_visitors l)(host \<mapsto> \<lparr> vs_limiter = bucket, vs_last_seen = now \<rparr>)\<rparr>))"

text \<open>One tick of \<open>evictLoop\<close>.\<close>

definition evict :: "time \<Rightarrow> 'l ipRateLimiter \<Rightarrow> 'l ipRateLimiter" where
  "evict now l = l\<lparr>rl_visitors := (\<lambda>key. case rl_visitors l key of
      Some v \<Rightarrow> if vs_last_seen v < now - Hour then None else Some v
    | None \<Rightarrow> None)\<rparr>"


subsection \<open>Who is counted\<close>

text \<open>Headers of a peer that is not a trusted proxy have no say.\<close>

lemma clientIP_untrusted:
  assumes "SplitHostPort lib remote = Some host" "ParseAddr lib host = Some a" "\<not> isTrustedProxy lib (Unmap lib a) trusted"
  shows "clientIP lib trusted remote xff real_ip = AddrString lib (Unmap lib a)"
  using assms by (simp add: clientIP_def)

text \<open>
  Behind trusted proxies it is the last address of the header that is not one of them: what the
  client itself wrote in front of it is not read.
\<close>

lemma forwarded_last:
  assumes "\<forall>p\<in>set hops. \<exists>h. ParseAddr lib (TrimSpace p) = Some h \<and> isTrustedProxy lib (Unmap lib h) trusted"
    and "ParseAddr lib (TrimSpace part) = Some a" "\<not> isTrustedProxy lib (Unmap lib a) trusted"
  shows "forwarded lib trusted peer (rev (before @ part # hops)) = AddrString lib (Unmap lib a)"
  using assms(1) by (induction hops rule: rev_induct) (auto simp: assms(2,3))

text \<open>A bucket is only ever touched by requests of its own visitor.\<close>

lemma admit_others:
  assumes "admit lib now host l = (allowed, l')" "other \<noteq> host"
  shows "rl_visitors l' other = rl_visitors l other"
  using assms by (auto simp: admit_def Let_def split: prod.splits)

text \<open>A visitor seen within the last hour keeps its bucket.\<close>

lemma evict_recent: "rl_visitors l key = Some v \<Longrightarrow> now - Hour \<le> vs_last_seen v \<Longrightarrow> rl_visitors (evict now l) key = Some v"
  by (simp add: evict_def)

end
