(* ===== verification/Http_Api.thy ===== *)
theory Http_Api
  imports Auth_Accounts Stats Admin_Handlers Rate_Limit
begin

text \<open>
  \<open>internal/httpapi\<close>: the middleware, the routes and the handlers of the API over the modelled services.

  An \<open>endpoint\<close> is a route of \<open>NewRouter\<close> together with its path and query parameters and with its
  body as \<open>json.Decoder\<close> decodes it into the type the handler declares, \<open>None\<close> where that fails.
  Matching a URL against the patterns is the business of the router library. A reply carries the
  status and the body; a panic below the \<open>Recoverer\<close> is a 500 without a body.
\<close>

subsection \<open>Replies\<close>

datatype 'f body =
    StatusBody string
  | InfoBody string string
  | SessionBody AuthSession
  | UserBody AuthUser
  | SyncBody Response
  | SnapshotBody SnapshotResponse
  | StatsBody "'f StatsResponse"
  | SessionsBody PaginatedSessionsResponse
  | SolvesBody PaginatedSolvesResponse
  | OverviewBody OverviewStats
  | SeriesBody "'f RequestSeries"
  | TypesBody RequestTypeSeries
  | ErrorsBody ErrorLogResponse

definition panicked :: "'a reply" where
  "panicked = NoBody 500"

definition internal_error :: "string \<Rightarrow> 'a reply" where
  "internal_error message = ErrorReply 500 ''internal_error'' message"

definition auth_status :: "string \<Rightarrow> int" where
  "auth_status code =
     (if code \<in> {''invalid_credentials'', ''invalid_refresh_token'', ''invalid_social_token'', ''invalid_social_code''} then 401
      else if code = ''email_not_verified'' then 403
      else if code \<in> {''email_in_use'', ''account_link_required'', ''identity_in_use'', ''provider_already_linked'',
        ''refresh_token_reused'', ''password_not_set''} then 409
      else if code \<in> {''email_delivery_failed'', ''provider_not_configured''} then 503
      else 400)"

definition writeAuthError :: "error \<Rightarrow> 'a reply" where
  "writeAuthError err =
     (case err of
        AuthError code message \<Rightarrow> ErrorReply (auth_status code) code message
      | GoPanic \<Rightarrow> panicked
      | _ \<Rightarrow> internal_error ''request could not be completed'')"

text \<open>An error that the handler reports with a message of its own.\<close>

definition opaque_error :: "string \<Rightarrow> error \<Rightarrow> 'a reply" where
  "opaque_error message err = (if err = GoPanic then panicked else internal_error message)"

definition respond :: "(error \<Rightarrow> 'a reply) \<Rightarrow> ('b \<Rightarrow> 'a reply) \<Rightarrow> error + 'b \<Rightarrow> 'a reply" where
  "respond on_error ok r = (case r of Inl err \<Rightarrow> on_error err | Inr x \<Rightarrow> ok x)"

definition decodeJSON :: "'b option \<Rightarrow> ('b \<Rightarrow> (world, 'a reply) state) \<Rightarrow> (world, 'a reply) state" where
  "decodeJSON b k =
     (case b of
        None \<Rightarrow> State_Monad.return (ErrorReply 400 ''invalid_json'' ''request body is invalid'')
      | Some x \<Rightarrow> k x)"


subsection \<open>The state of the handler and of a request\<close>

record 'f Handler =
  hn_auth :: AuthService
  hn_sync :: SyncService
  hn_snapshot :: SnapshotService
  hn_float :: "'f float_agg"
  hn_lib :: cursor_lib
  hn_pg :: pg_session
  hn_go_float :: "'f go_float"

record principal =
  pr_user_id :: uuid
  pr_email_verified :: bool
  pr_role :: string

definition no_principal :: principal where
  "no_principal = \<lparr> pr_user_id = uuid_nil, pr_email_verified = False, pr_role = [] \<rparr>"


subsection \<open>Handlers of the authentication service\<close>

definition register_handler :: "auth_env \<Rightarrow> (string \<times> string) option \<Rightarrow> (world, 'f body reply) state" where
  "register_handler e body = decodeJSON body (\<lambda>(email, password). do {
     r \<leftarrow> Register e email password;
     State_Monad.return (respond writeAuthError (\<lambda>_. Reply 202 (StatusBody ''verification_required'')) (snd r))
   })"

definition resendVerification_handler :: "auth_env \<Rightarrow> string option \<Rightarrow> (world, 'f body reply) state" where
  "resendVerification_handler e body = decodeJSON body (\<lambda>email. do {
     r \<leftarrow> ResendVerification e email;
     State_Monad.return (respond writeAuthError (\<lambda>_. Reply 202 (StatusBody ''accepted'')) (snd r))
   })"

definition verifyEmail_handler :: "AuthService \<Rightarrow> auth_env \<Rightarrow> string option \<Rightarrow> (world, 'f body reply) state" where
  "verifyEmail_handler s e body = decodeJSON body (\<lambda>token. do {
     r \<leftarrow> VerifyEmail s e token;
     State_Monad.return (respond writeAuthError (\<lambda>session. Reply 200 (SessionBody session)) r)
   })"

definition login_handler :: "AuthService \<Rightarrow> auth_env \<Rightarrow> (string \<times> string) option \<Rightarrow> (world, 'f body reply) state" where
  "login_handler s e body = decodeJSON body (\<lambda>(email, password). do {
     r \<leftarrow> Login s e email password;
     State_Monad.return (respond writeAuthError (\<lambda>session. Reply 200 (SessionBody session)) r)
   })"

definition refresh_handler :: "AuthService \<Rightarrow> auth_env \<Rightarrow> string option \<Rightarrow> (world, 'f body reply) state" where
  "refresh_handler s e body = decodeJSON body (\<lambda>token. do {
     r \<leftarrow> Refresh s e token;
     State_Monad.return (respond writeAuthError (\<lambda>session. Reply 200 (SessionBody session)) r)
   })"

definition logout_handler :: "auth_env \<Rightarrow> string option \<Rightarrow> (world, 'f body reply) state" where
  "logout_handler e body = decodeJSON body (\<lambda>token. do {
     r \<leftarrow> Logout e token;
     State_Monad.return (respond writeAuthError (\<lambda>_. NoBody 204) r)
   })"

definition forgotPassword_handler :: "auth_env \<Rightarrow> string option \<Rightarrow> (world, 'f body reply) state" where
  "forgotPassword_handler e body = decodeJSON body (\<lambda>email. do {
     r \<leftarrow> ForgotPassword e email;
     State_Monad.return (respond writeAuthError (\<lambda>_. Reply 202 (StatusBody ''accepted'')) (snd r))
   })"

definition resetPassword_handler :: "AuthService \<Rightarrow> auth_env \<Rightarrow> (string \<times> string) option \<Rightarrow> (world, 'f body reply) state" where
  "resetPassword_handler s e body = decodeJSON body (\<lambda>(token, password). do {
     r \<leftarrow> ResetPassword s e token password;
     State_Monad.return (respond writeAuthError (\<lambda>session. Reply 200 (SessionBody session)) r)
   })"

definition federatedLogin_handler ::
  "AuthService \<Rightarrow> auth_env \<Rightarrow> string \<Rightarrow> FederatedInput option \<Rightarrow> (world, 'f body reply) state" where
  "federatedLogin_handler s e provider body = decodeJSON body (\<lambda>input. do {
     r \<leftarrow> FederatedLogin s e provider input;
     State_Monad.return (respond writeAuthError (\<lambda>session. Reply 200 (SessionBody session)) r)
   })"

definition linkFederated_handler ::
  "AuthService \<Rightarrow> auth_env \<Rightarrow> principal \<Rightarrow> string \<Rightarrow> FederatedInput option \<Rightarrow> (world, 'f body reply) state" where
  "linkFederated_handler s e p provider body = decodeJSON body (\<lambda>input. do {
     r \<leftarrow> LinkFederated s e (pr_user_id p) provider input;
     State_Monad.return (respond writeAuthError (\<lambda>_. NoBody 204) r)
   })"

definition me_handler :: "principal \<Rightarrow> (world, 'f body reply) state" where
  "me_handler p = do {
     r \<leftarrow> User (pr_user_id p);
     State_Monad.return (respond (opaque_error ''request could not be completed'') (\<lambda>user. Reply 200 (UserBody user)) r)
   }"

definition changePassword_handler :: "auth_env \<Rightarrow> principal \<Rightarrow> (string \<times> string) option \<Rightarrow> (world, 'f body reply) state" where
  "changePassword_handler e p body = decodeJSON body (\<lambda>(currentPassword, newPassword). do {
     r \<leftarrow> ChangePassword e (pr_user_id p) currentPassword newPassword;
     State_Monad.return (respond writeAuthError (\<lambda>_. NoBody 204) r)
   })"

definition deleteAccount_handler :: "principal \<Rightarrow> (world, 'f body reply) state" where
  "deleteAccount_handler p = do {
     r \<leftarrow> DeleteAccount (pr_user_id p);
     State_Monad.return (respond (opaque_error ''request could not be completed'') (\<lambda>_. NoBody 204) r)
   }"


subsection \<open>Handlers of the synchronized data\<close>

text \<open>The protocol version of the header, 1 unless it is a number from 1 on.\<close>

definition proto_version :: "string \<Rightarrow> int" where
  "proto_version v =
     (if v = [] then 1 else case Atoi v of None \<Rightarrow> 1 | Some n \<Rightarrow> if 1 \<le> n then n else 1)"

definition sync_error :: "error \<Rightarrow> 'a reply" where
  "sync_error err =
     (case err of
        ClientError code message \<Rightarrow> ErrorReply (if code = ''cursor_expired'' then 409 else 400) code message
      | _ \<Rightarrow> opaque_error ''synchronization could not be completed'' err)"

definition synchronize :: "SyncService \<Rightarrow> env \<Rightarrow> principal \<Rightarrow> string \<Rightarrow> Request option \<Rightarrow> (world, 'f body reply) state" where
  "synchronize s e p proto body = decodeJSON body (\<lambda>req. do {
     r \<leftarrow> Sync s e (pr_user_id p) req (proto_version proto);
     State_Monad.return (respond sync_error (\<lambda>response. Reply 200 (SyncBody response)) r)
   })"

definition snapshot_error :: "error \<Rightarrow> 'a reply" where
  "snapshot_error err =
     (case err of
        ClientError code message \<Rightarrow> ErrorReply 400 code message
      | _ \<Rightarrow> opaque_error ''snapshot could not be completed'' err)"

definition snapshot_handler :: "SnapshotService \<Rightarrow> env \<Rightarrow> principal \<Rightarrow> SnapshotRequest option \<Rightarrow> (world, 'f body reply) state" where
  "snapshot_handler s e p body = decodeJSON body (\<lambda>req. do {
     r \<leftarrow> Snapshot s e (pr_user_id p) req;
     State_Monad.return (respond snapshot_error (\<lambda>response. Reply 200 (SnapshotBody response)) r)
   })"

definition stats_handler :: "'f float_agg \<Rightarrow> principal \<Rightarrow> string \<Rightarrow> (world, 'f body reply) state" where
  "stats_handler fa p event = do {
     r \<leftarrow> ComputeStats fa (pr_user_id p) \<lparr> sx_event = event \<rparr>;
     State_Monad.return (respond (opaque_error ''statistics could not be computed'') (\<lambda>response. Reply 200 (StatsBody response)) r)
   }"

definition live_handler :: "(world, 'f body reply) state" where
  "live_handler = State_Monad.return (Reply 200 (StatusBody ''ok''))"

text \<open>\<open>Ping\<close> is a statement that reads nothing.\<close>

definition ready_handler :: "(world, 'f body reply) state" where
  "ready_handler = do {
     r \<leftarrow> exec_pool (\<lambda>d. (Inr (), d));
     State_Monad.return (case r of Inl _ \<Rightarrow> ErrorReply 503 ''not_ready'' ''database is unavailable''
       | Inr _ \<Rightarrow> Reply 200 (StatusBody ''ready''))
   }"


subsection \<open>Middleware\<close>

definition unauthorized :: "'a reply" where
  "unauthorized = ErrorReply 401 ''unauthorized'' ''a valid bearer token is required''"

text \<open>
  The token of an \<open>Authorization\<close> header: \<open>strings.Cut\<close> at the first space and \<open>strings.EqualFold\<close> with
  \<open>Bearer\<close>, whose letters have no case variants but the two of ASCII.
\<close>

definition bearer_token :: "string \<Rightarrow> string option" where
  "bearer_token header =
     (let scheme = takeWhile (\<lambda>c. c \<noteq> CHR '' '') header; token = tl (dropWhile (\<lambda>c. c \<noteq> CHR '' '') header) in
      if CHR '' '' \<notin> set header \<or> map ascii_lower scheme \<noteq> ''bearer'' \<or> token = [] then None else Some token)"

definition authenticate ::
  "AuthService \<Rightarrow> auth_env \<Rightarrow> string \<Rightarrow> (principal \<Rightarrow> (world, 'a reply) state) \<Rightarrow> (world, 'a reply) state" where
  "authenticate s e header next_handler =
     (case bearer_token header of
        None \<Rightarrow> State_Monad.return unauthorized
      | Some token \<Rightarrow>
          (case ParseAccessToken (ae_crypto e) (as_tokens s) (ae_now e) token of
             Inl err \<Rightarrow> State_Monad.return unauthorized
           | Inr (userID, claims) \<Rightarrow> next_handler
               \<lparr> pr_user_id = userID, pr_email_verified = ac_email_verified claims, pr_role = ac_user_role claims \<rparr>))"

definition requireVerified :: "principal \<Rightarrow> (world, 'a reply) state \<Rightarrow> (world, 'a reply) state" where
  "requireVerified p next_handler =
     (if \<not> pr_email_verified p
      then State_Monad.return (ErrorReply 403 ''email_not_verified'' ''verify your email before synchronizing'')
      else next_handler)"

definition forbidden :: "'a reply" where
  "forbidden = ErrorReply 403 ''forbidden'' ''admin access is required''"

definition requireAdmin :: "principal \<Rightarrow> (world, 'a reply) state \<Rightarrow> (world, 'a reply) state" where
  "requireAdmin p next_handler = (if pr_role p \<noteq> ''admin'' then State_Monad.return forbidden else next_handler)"

text \<open>\<open>allowed\<close> is the answer of the visitor's limiter.\<close>

definition limit_rate :: "bool \<Rightarrow> (world, 'a reply) state \<Rightarrow> (world, 'a reply) state" where
  "limit_rate allowed next_handler =
     (if \<not> allowed then State_Monad.return (ErrorReply 429 ''rate_limited'' ''too many requests'') else next_handler)"


subsection \<open>Routes\<close>

datatype endpoint =
    GetLive | GetReady | GetRoot
  | PostRegister "(string \<times> string) option" | PostResend "string option" | PostVerify "string option"
  | PostLogin "(string \<times> string) option" | PostRefresh "string option" | PostLogout "string option"
  | PostForgot "string option" | PostReset "(string \<times> string) option" | PostFederated string "FederatedInput option"
  | PostLink string "FederatedInput option"
  | GetMe | DeleteMe | PutPassword "(string \<times> string) option"
  | PostSync string "Request option" | PostSnapshot "SnapshotRequest option" | GetStats string
  | GetSessions string string | GetSessionSolves string string string
  | GetOverview | GetRequestStats string string string | GetRequestTypes string string string | GetErrorStats string string string

fun public_route :: "endpoint \<Rightarrow> bool" where
  "public_route GetLive = True"
| "public_route GetReady = True"
| "public_route GetRoot = True"
| "public_route _ = False"

fun limited_route :: "endpoint \<Rightarrow> bool" where
  "limited_route (PostRegister _) = True"
| "limited_route (PostResend _) = True"
| "limited_route (PostVerify _) = True"
| "limited_route (PostLogin _) = True"
| "limited_route (PostRefresh _) = True"
| "limited_route (PostLogout _) = True"
| "limited_route (PostForgot _) = True"
| "limited_route (PostReset _) = True"
| "limited_route (PostFederated _ _) = True"
| "limited_route _ = False"

fun verified_route :: "endpoint \<Rightarrow> bool" where
  "verified_route (PostSync _ _) = True"
| "verified_route (PostSnapshot _) = True"
| "verified_route (GetStats _) = True"
| "verified_route (GetSessions _ _) = True"
| "verified_route (GetSessionSolves _ _ _) = True"
| "verified_route _ = False"

fun admin_route :: "endpoint \<Rightarrow> bool" where
  "admin_route GetOverview = True"
| "admin_route (GetRequestStats _ _ _) = True"
| "admin_route (GetRequestTypes _ _ _) = True"
| "admin_route (GetErrorStats _ _ _) = True"
| "admin_route _ = False"

text \<open>The pattern of a route, as \<open>RoutePattern\<close> of the router answers it.\<close>

fun route_pattern :: "endpoint \<Rightarrow> string" where
  "route_pattern GetLive = ''/health/live''"
| "route_pattern GetReady = ''/health/ready''"
| "route_pattern GetRoot = ''/v1''"
| "route_pattern (PostRegister _) = ''/v1/auth/register''"
| "route_pattern (PostResend _) = ''/v1/auth/email/resend''"
| "route_pattern (PostVerify _) = ''/v1/auth/email/verify''"
| "route_pattern (PostLogin _) = ''/v1/auth/login''"
| "route_pattern (PostRefresh _) = ''/v1/auth/refresh''"
| "route_pattern (PostLogout _) = ''/v1/auth/logout''"
| "route_pattern (PostForgot _) = ''/v1/auth/password/forgot''"
| "route_pattern (PostReset _) = ''/v1/auth/password/reset''"
| "route_pattern (PostFederated _ _) = ''/v1/auth/federated/{provider}''"
| "route_pattern (PostLink _ _) = ''/v1/auth/link/{provider}''"
| "route_pattern GetMe = ''/v1/me''"
| "route_pattern DeleteMe = ''/v1/me''"
| "route_pattern (PutPassword _) = ''/v1/me/password''"
| "route_pattern (PostSync _ _) = ''/v1/sync''"
| "route_pattern (PostSnapshot _) = ''/v1/snapshot''"
| "route_pattern (GetStats _) = ''/v1/stats''"
| "route_pattern (GetSessions _ _) = ''/v1/sessions''"
| "route_pattern (GetSessionSolves _ _ _) = ''/v1/sessions/{id}/solves''"
| "route_pattern GetOverview = ''/v1/admin/stats/overview''"
| "route_pattern (GetRequestStats _ _ _) = ''/v1/admin/stats/requests''"
| "route_pattern (GetRequestTypes _ _ _) = ''/v1/admin/stats/request-types''"
| "route_pattern (GetErrorStats _ _ _) = ''/v1/admin/stats/errors''"

fun handle :: "'f Handler \<Rightarrow> auth_env \<Rightarrow> env \<Rightarrow> principal \<Rightarrow> endpoint \<Rightarrow> (world, 'f body reply) state" where
  "handle h ae e p GetLive = live_handler"
| "handle h ae e p GetReady = ready_handler"
| "handle h ae e p GetRoot = State_Monad.return (Reply 200 (InfoBody ''CubeTimer Sync API'' ''v1''))"
| "handle h ae e p (PostRegister b) = register_handler ae b"
| "handle h ae e p (PostResend b) = resendVerification_handler ae b"
| "handle h ae e p (PostVerify b) = verifyEmail_handler (hn_auth h) ae b"
| "handle h ae e p (PostLogin b) = login_handler (hn_auth h) ae b"
| "handle h ae e p (PostRefresh b) = refresh_handler (hn_auth h) ae b"
| "handle h ae e p (PostLogout b) = logout_handler ae b"
| "handle h ae e p (PostForgot b) = forgotPassword_handler ae b"
| "handle h ae e p (PostReset b) = resetPassword_handler (hn_auth h) ae b"
| "handle h ae e p (PostFederated provider b) = federatedLogin_handler (hn_auth h) ae provider b"
| "handle h ae e p (PostLink provider b) = linkFederated_handler (hn_auth h) ae p provider b"
| "handle h ae e p GetMe = me_handler p"
| "handle h ae e p DeleteMe = deleteAccount_handler p"
| "handle h ae e p (PutPassword b) = changePassword_handler ae p b"
| "handle h ae e p (PostSync proto b) = synchronize (hn_sync h) e p proto b"
| "handle h ae e p (PostSnapshot b) = snapshot_handler (hn_snapshot h) e p b"
| "handle h ae e p (GetStats event) = stats_handler (hn_float h) p event"
| "handle h ae e p (GetSessions limit cursor) = do {
     r \<leftarrow> listSessions (hn_lib h) (pr_user_id p) limit cursor;
     State_Monad.return (map_reply SessionsBody r)
   }"
| "handle h ae e p (GetSessionSolves i limit cursor) = do {
     r \<leftarrow> listSessionSolves (hn_lib h) (pr_user_id p) i limit cursor;
     State_Monad.return (map_reply SolvesBody r)
   }"
| "handle h ae e p GetOverview = do {
     r \<leftarrow> adminOverview (hn_pg h) (ae_db_now ae);
     State_Monad.return (map_reply OverviewBody r)
   }"
| "handle h ae e p (GetRequestStats from_param to_param interval) = do {
     r \<leftarrow> adminRequestStats (hn_pg h) (hn_go_float h) (hn_lib h) (ae_unicode_lower ae) (ae_now ae) from_param to_param interval;
     State_Monad.return (map_reply SeriesBody r)
   }"
| "handle h ae e p (GetRequestTypes from_param to_param interval) = do {
     r \<leftarrow> adminRequestTypeStats (hn_pg h) (hn_lib h) (ae_unicode_lower ae) (ae_now ae) from_param to_param interval;
     State_Monad.return (map_reply TypesBody r)
   }"
| "handle h ae e p (GetErrorStats before before_id limit) = do {
     r \<leftarrow> adminErrorStats (hn_lib h) (ae_now ae) before before_id limit;
     State_Monad.return (map_reply ErrorsBody r)
   }"

text \<open>\<open>NewRouter\<close>: the groups of routes and the middleware in front of each.\<close>

definition serve ::
  "'f Handler \<Rightarrow> auth_env \<Rightarrow> env \<Rightarrow> bool \<Rightarrow> string \<Rightarrow> endpoint \<Rightarrow> (world, 'f body reply) state" where
  "serve h ae e allowed header ep =
     (if public_route ep then handle h ae e no_principal ep
      else if limited_route ep then limit_rate allowed (handle h ae e no_principal ep)
      else authenticate (hn_auth h) ae header (\<lambda>p.
        if verified_route ep then requireVerified p (handle h ae e p ep)
        else if admin_route ep then requireAdmin p (handle h ae e p ep)
        else handle h ae e p ep))"


subsection \<open>Headers\<close>

definition securityHeaders :: "(string \<times> string) list" where
  "securityHeaders = [(''X-Content-Type-Options'', ''nosniff''), (''X-Frame-Options'', ''DENY''),
     (''Referrer-Policy'', ''no-referrer''), (''Cache-Control'', ''no-store'')]"

text \<open>The headers for an allowed origin, and whether the request is answered as a preflight.\<close>

definition cors :: "string list \<Rightarrow> string \<Rightarrow> string \<Rightarrow> (string \<times> string) list \<times> bool" where
  "cors origins origin meth =
     (if origin \<noteq> [] \<and> origin \<in> set origins
      then [(''Access-Control-Allow-Origin'', origin), (''Vary'', ''Origin''),
            (''Access-Control-Allow-Headers'', ''Authorization, Content-Type, X-Sync-Protocol''),
            (''Access-Control-Allow-Methods'', ''GET, POST, PUT, DELETE, OPTIONS'')]
      else [], meth = ''OPTIONS'')"

record http_request =
  hq_method :: string
  hq_origin :: string
  hq_authorization :: string
  hq_remote_addr :: string
  hq_forwarded_for :: string
  hq_real_ip :: string

text \<open>The user and the claims of a valid access token in the header.\<close>

definition authorized :: "AuthService \<Rightarrow> auth_env \<Rightarrow> string \<Rightarrow> (uuid \<times> AccessClaims) option" where
  "authorized s e header =
     (case bearer_token header of
        None \<Rightarrow> None
      | Some token \<Rightarrow> (case ParseAccessToken (ae_crypto e) (as_tokens s) (ae_now e) token of Inl _ \<Rightarrow> None | Inr x \<Rightarrow> Some x))"

text \<open>
  \<open>writeError\<close> reports every error reply to the admin service, with the user of the principal where
  there is one; only the limiter writes its reply directly. \<open>accessLog\<close> reports every request after it was answered.
\<close>

definition principal_user :: "'f Handler \<Rightarrow> auth_env \<Rightarrow> string \<Rightarrow> endpoint \<Rightarrow> uuid" where
  "principal_user h ae header ep =
     (if public_route ep \<or> limited_route ep then uuid_nil
      else case authorized (hn_auth h) ae header of None \<Rightarrow> uuid_nil | Some (u, _) \<Rightarrow> u)"

definition writeError :: "uuid \<Rightarrow> string \<Rightarrow> string \<Rightarrow> 'a reply \<Rightarrow> AdminService \<Rightarrow> AdminService" where
  "writeError userID meth route r s =
     (case r of ErrorReply status code message \<Rightarrow> RecordErrorAsync userID meth route status code message s | _ \<Rightarrow> s)"

definition accessLog :: "time \<Rightarrow> duration \<Rightarrow> string \<Rightarrow> string \<Rightarrow> 'a reply \<Rightarrow> AdminService \<Rightarrow> AdminService" where
  "accessLog finished dur meth route r s = RecordRequestAsync finished meth route (reply_status r) dur s"

text \<open>
  The whole chain: headers, preflight, the limiter of the authentication routes, the route, and the reports.
  A preflight is answered before the router has found a route, so its pattern is empty.
\<close>

definition ServeHTTP ::
  "('a, 'p) net_lib \<Rightarrow> 'p list \<Rightarrow> 'l limiter_lib \<Rightarrow> string list \<Rightarrow> 'f Handler \<Rightarrow> auth_env \<Rightarrow> env \<Rightarrow> time \<Rightarrow> duration \<Rightarrow>
   http_request \<Rightarrow> endpoint \<Rightarrow> world \<times> 'l ipRateLimiter \<times> AdminService \<Rightarrow>
   ((string \<times> string) list \<times> 'f body reply) \<times> world \<times> 'l ipRateLimiter \<times> AdminService" where
  "ServeHTTP net trusted lib origins h ae e finished dur req ep st =
     (let (w, l, s) = st; (cors_headers, preflight) = cors origins (hq_origin req) (hq_method req);
          headers = securityHeaders @ cors_headers; meth = hq_method req; header = hq_authorization req in
      if preflight then ((headers, NoBody 204), w, l, accessLog finished dur meth [] (NoBody 204 :: 'f body reply) s)
      else
        let host = clientIP net trusted (hq_remote_addr req) (hq_forwarded_for req) (hq_real_ip req);
            (allowed, l') = (if limited_route ep then admit lib (ae_now ae) host l else (True, l));
            (r, w') = run_state (serve h ae e allowed header ep) w;
            s1 = (if allowed then writeError (principal_user h ae header ep) meth (route_pattern ep) r s else s) in
        ((headers @ (if allowed then [] else [(''Retry-After'', ''60'')]), r), w', l',
         accessLog finished dur meth (route_pattern ep) r s1))"

lemma cors_allowed:
  assumes "ServeHTTP net trusted lib origins h ae e finished dur req ep (w, l, s) = ((headers, r), st)"
    and "(''Access-Control-Allow-Origin'', o') \<in> set headers"
  shows "o' = hq_origin req \<and> o' \<in> set origins"
  using assms by (auto simp: ServeHTTP_def cors_def securityHeaders_def Let_def split: prod.splits if_splits)

text \<open>A request that the limiter refuses changes nothing but the bucket of its visitor, and is only counted.\<close>

lemma refused_by_limiter:
  assumes "limited_route ep" "hq_method req \<noteq> ''OPTIONS''"
    and "admit lib (ae_now ae) (clientIP net trusted (hq_remote_addr req) (hq_forwarded_for req) (hq_real_ip req)) l = (False, l')"
  shows "\<exists>headers. ServeHTTP net trusted lib origins h ae e finished dur req ep (w, l, s) =
    ((headers, ErrorReply 429 ''rate_limited'' ''too many requests''), w, l',
     RecordRequestAsync finished (hq_method req) (route_pattern ep) 429 dur s)"
  using assms by (cases ep) (auto simp: ServeHTTP_def cors_def serve_def limit_rate_def accessLog_def Let_def)

end
