(* ===== verification/Http_Isolation.thy ===== *)
theory Http_Isolation
  imports Http_Api
begin

text \<open>
  What a request may change: behind authentication only rows of the user of the token, and nothing
  at all without one.
\<close>

definition private_to :: "uuid \<Rightarrow> db \<Rightarrow> db \<Rightarrow> bool" where
  "private_to u d d' \<longleftrightarrow> (\<forall>v. v \<noteq> u \<longrightarrow> same_account v d d' \<and> same_entities_of v d d')"

lemma same_entities_refl: "same_entities_of v d d"
  by (simp add: same_entities_of_def)

lemma same_entities_trans: "same_entities_of v d d1 \<Longrightarrow> same_entities_of v d1 d2 \<Longrightarrow> same_entities_of v d d2"
  by (simp add: same_entities_of_def)

interpretation own: transition_preorder "\<lambda>w w'. private_to u (committed w) (committed w')" for u
  by unfold_locales (auto simp: private_to_def same_entities_refl intro: same_account_trans same_entities_trans)

lemma private_pool:
  assumes "\<And>d. private_to u d (snd (st d))"
  shows "state_io_rel (\<lambda>w w'. private_to u (committed w) (committed w')) (exec_pool st)"
  using assms own.R_refl by (auto simp: state_io_rel_def exec_pool_def Let_def split: fault.splits)

lemma private_refl [simp]: "private_to u d d"
  by (simp add: private_to_def same_entities_refl)

lemma private_read: "snd (st d) = d \<Longrightarrow> private_to u d (snd (st d))"
  by simp

lemma filter_via:
  assumes "filter (\<lambda>r. f r \<noteq> u) xs' = filter (\<lambda>r. f r \<noteq> u) xs" "v \<noteq> u"
  shows "filter (\<lambda>r. f r = v) xs' = filter (\<lambda>r. f r = v) xs"
proof -
  have "filter (\<lambda>r. f r = v) ys = filter (\<lambda>r. f r = v) (filter (\<lambda>r. f r \<noteq> u) ys)" for ys
    using assms(2) by (auto intro: filter_cong)
  with assms(1) show ?thesis by metis
qed

lemma others_private: "others_kept u d d' \<Longrightarrow> private_to u d d'"
  unfolding private_to_def same_account_def same_entities_of_def others_kept_def by (auto intro: filter_via)

lemma same_entities_stmts:
  "same_entities_of v d (snd (UpsertPasswordCredential now u h d))" "same_entities_of v d (snd (RevokeAllUserRefreshTokens now u d))"
  "same_entities_of v d (snd (CreateIdentity now i u p s m d))"
  by (auto simp: same_entities_of_def UpsertPasswordCredential_def RevokeAllUserRefreshTokens_def revoke_where_def CreateIdentity_def)

lemma private_stmts:
  "private_to u d (snd (UpsertPasswordCredential now u h d))" "private_to u d (snd (RevokeAllUserRefreshTokens now u d))"
  "private_to u d (snd (CreateIdentity now i u p s m d))" "private_to u d (cascade u d)"
  by (simp_all add: private_to_def same_account_stmts same_entities_stmts cascade_others)

lemma private_device: "private_to u d (snd (UpsertDevice now i u n p d))"
  by (auto simp: private_to_def same_account_def same_entities_of_def UpsertDevice_def Let_def intro!: filter_update_other [where u = u])
    (auto simp: dv_key_def)

lemma auth_reads:
  "snd (GetUserByIdentity p s d) = d" "snd (GetUserByID i d) = d" "snd (GetPasswordCredentialByUserID i d) = d"
  by (simp_all add: GetUserByIdentity_def GetUserByID_def GetPasswordCredentialByUserID_def first_row_def split: option.splits)


subsection \<open>The operations behind authentication\<close>

lemma stats_reads: "snd (UserSolveStats fa u ev d) = d" "snd (UserSolveAoN u ev n d) = d"
  by (auto simp: UserSolveStats_def UserSolveAoN_def Let_def)

lemma averagesLoop_private: "state_io_rel (\<lambda>w w'. private_to u (committed w) (committed w')) (averagesLoop fa v ev k ns resp)"
  by (induction ns arbitrary: resp)
    (auto simp: computeAoN_def stats_reads intro!: own.io_return own.io_bind own.io_if own.io_sum own.io_option private_pool split: prod.split)

lemma history_reads: "snd (ListSessionsPaginated u ts i l d) = d" "snd (ListSolvesForSessionPaginated u j ts i l d) = d"
  by (simp_all add: ListSessionsPaginated_def ListSolvesForSessionPaginated_def)

lemma operation_private:
  "state_io_rel (\<lambda>w w'. private_to u (committed w) (committed w')) (LinkFederated s ae u prov input)"
  "state_io_rel (\<lambda>w w'. private_to u (committed w) (committed w')) (User u)"
  "state_io_rel (\<lambda>w w'. private_to u (committed w) (committed w')) (SetPassword ae u p)"
  "state_io_rel (\<lambda>w w'. private_to u (committed w) (committed w')) (DeleteAccount u)"
  "state_io_rel (\<lambda>w w'. private_to u (committed w) (committed w')) (ComputeStats fa u req)"
  "state_io_rel (\<lambda>w w'. private_to u (committed w) (committed w')) (listSessions lib u l c)"
  "state_io_rel (\<lambda>w w'. private_to u (committed w) (committed w')) (listSessionSolves lib u j l c)"
  "state_io_rel (\<lambda>w w'. private_to u (committed w) (committed w')) (Snapshot ss e u sreq)"
proof -
  show "state_io_rel (\<lambda>w w'. private_to u (committed w) (committed w')) (Snapshot ss e u sreq)"
    by (rule state_io_relI) (metis Snapshot_data private_device private_refl)
  show "state_io_rel (\<lambda>w w'. private_to u (committed w) (committed w')) (DeleteAccount u)"
    by (rule state_io_relI) (metis DeleteAccount_cases(1) private_stmts(4) private_refl)
qed (auto simp: LinkFederated_def User_def SetPassword_def pool_try_def ComputeStats_def listSessions_def listSessionSolves_def Let_def
    auth_reads stats_reads history_reads private_stmts split: prod.split
    intro!: own.io_return own.io_bind own.io_if own.io_sum own.io_option private_pool averagesLoop_private)

lemma ChangePassword_private: "state_io_rel (\<lambda>w w'. private_to u (committed w) (committed w')) (ChangePassword ae u p q)"
  unfolding ChangePassword_def
  by (intro own.io_bind own.io_sum own.io_return own.io_if private_pool operation_private) (simp_all add: auth_reads)


subsection \<open>Requests\<close>

lemma run_authenticate:
  "run_state (authenticate s e header k) w =
     (case authorized s e header of
        None \<Rightarrow> (unauthorized, w)
      | Some (u, claims) \<Rightarrow> run_state (k \<lparr> pr_user_id = u, pr_email_verified = ac_email_verified claims, pr_role = ac_user_role claims \<rparr>) w)"
  by (simp add: authenticate_def authorized_def split: option.split sum.split prod.split)

lemma authorized_holds:
  assumes "jwt_ok (ae_crypto e)" "authorized s e header = Some (u, claims)"
  shows "claims_hold (ae_now e) (tm_issuer (as_tokens s)) clientsAudience claims"
  using parse_holds [OF assms(1)] assms(2) by (fastforce simp: authorized_def split: option.splits sum.splits)

lemma decode_private:
  "(\<And>x. state_io_rel (\<lambda>w w'. private_to u (committed w) (committed w')) (k x)) \<Longrightarrow>
   state_io_rel (\<lambda>w w'. private_to u (committed w) (committed w')) (decodeJSON b k)"
  by (auto simp: decodeJSON_def intro!: own.io_option own.io_return)

lemma synchronize_private:
  assumes "run_state (synchronize s e p proto b) w = (r, w')" "tables_ok (committed w)"
  shows "private_to (pr_user_id p) (committed w) (committed w')"
proof (cases b)
  case (Some req)
  with assms(1) obtain q where "run_state (Sync s e (pr_user_id p) req (proto_version proto)) w = (q, w')"
    by (auto simp: synchronize_def decodeJSON_def split: prod.splits)
  from state_io_relD [OF others.service_Sync this] assms(2) show ?thesis by (simp add: others_private)
qed (use assms in \<open>simp add: synchronize_def decodeJSON_def\<close>)

lemma private_reading:
  "state_io_rel (\<lambda>w w'. committed w' = committed w) prog \<Longrightarrow> state_io_rel (\<lambda>w w'. private_to u (committed w) (committed w')) prog"
  by (simp add: state_io_rel_def)

lemmas admin_private = admin_handlers_read [THEN private_reading]

lemma handle_private:
  assumes "run_state (handle h ae e p ep) w = (r, w')" "\<not> public_route ep" "\<not> limited_route ep" "tables_ok (committed w)"
  shows "private_to (pr_user_id p) (committed w) (committed w')"
proof (cases "\<exists>proto b. ep = PostSync proto b")
  case True
  with assms show ?thesis by (auto intro: synchronize_private)
next
  case False
  have "state_io_rel (\<lambda>w w'. private_to (pr_user_id p) (committed w) (committed w')) (handle h ae e p ep)"
    using assms(2,3) False
    by (cases ep)
      (auto simp: linkFederated_handler_def me_handler_def deleteAccount_handler_def changePassword_handler_def snapshot_handler_def
        stats_handler_def intro!: decode_private own.io_bind own.io_return operation_private ChangePassword_private admin_private split: prod.split)
  from state_io_relD [OF this assms(1)] show ?thesis .
qed

lemma serve_guarded:
  assumes run: "run_state (serve h ae e allowed header ep) w = (r, w')" and guarded: "\<not> public_route ep" "\<not> limited_route ep"
    and ok: "tables_ok (committed w)"
  shows "case authorized (hn_auth h) ae header of
      None \<Rightarrow> r = unauthorized \<and> w' = w
    | Some (u, claims) \<Rightarrow>
        if verified_route ep \<and> \<not> ac_email_verified claims
        then r = ErrorReply 403 ''email_not_verified'' ''verify your email before synchronizing'' \<and> w' = w
        else if admin_route ep \<and> ac_user_role claims \<noteq> ''admin'' then r = forbidden \<and> w' = w
        else private_to u (committed w) (committed w')"
proof (cases "authorized (hn_auth h) ae header")
  case None
  with run guarded show ?thesis by (simp add: serve_def run_authenticate)
next
  case (Some x)
  obtain u claims where x: "x = (u, claims)" by (cases x)
  let ?p = "\<lparr> pr_user_id = u, pr_email_verified = ac_email_verified claims, pr_role = ac_user_role claims \<rparr>"
  have run': "run_state (if verified_route ep then requireVerified ?p (handle h ae e ?p ep)
      else if admin_route ep then requireAdmin ?p (handle h ae e ?p ep) else handle h ae e ?p ep) w = (r, w')"
    using run guarded Some x by (simp add: serve_def run_authenticate)
  have apart: "\<not> (verified_route ep \<and> admin_route ep)" by (cases ep) auto
  consider (unverified) "verified_route ep" "\<not> ac_email_verified claims" | (forbidden) "admin_route ep" "ac_user_role claims \<noteq> ''admin''"
    | (handled) "run_state (handle h ae e ?p ep) w = (r, w')" "\<not> (verified_route ep \<and> \<not> ac_email_verified claims)"
        "\<not> (admin_route ep \<and> ac_user_role claims \<noteq> ''admin'')"
    using run' by (auto simp: requireVerified_def requireAdmin_def split: if_splits)
  then show ?thesis
  proof cases
    case handled
    from handle_private [OF handled(1) guarded ok] handled(2,3) Some x show ?thesis by auto
  qed (use run' Some x apart in \<open>simp_all add: requireVerified_def requireAdmin_def\<close>)
qed


subsection \<open>From a session to a request\<close>

lemma bearer_token_of: "token \<noteq> [] \<Longrightarrow> bearer_token (''Bearer '' @ token) = Some token"
proof -
  have "map ascii_lower ''Bearer'' = ''bearer''" by code_simp
  then show "token \<noteq> [] \<Longrightarrow> ?thesis" by (simp add: bearer_token_def)
qed

lemma issued_authorizes:
  assumes jwt: "jwt_ok (ae_crypto e)" "ae_crypto e' = ae_crypto e"
    and issued: "session_issued s e user f session d d'"
    and dates: "date_range (as_tokens s) (ae_now e)" "ae_now e \<le> ae_now e'" "ae_now e' + Second \<le> ae_now e + tm_lifetime (as_tokens s)"
    and plain: "plain_text (tm_issuer (as_tokens s))" "plain_text (ae_jti e)" "plain_text (au_user_role user)"
  shows "\<exists>claims. authorized s e' (''Bearer '' @ an_access_token session) = Some (au_id user, claims) \<and>
    ac_email_verified claims = au_email_verified user \<and> (ac_user_role claims = ''admin'' \<longleftrightarrow> au_user_role user = ''admin'')"
proof -
  let ?c = "ae_crypto e" and ?m = "as_tokens s"
  obtain expires where iss: "IssueAccessToken ?c ?m (ae_now e) (ae_jti e) (au_id user) (au_email_verified user) (au_user_role user) =
      Inr (an_access_token session, expires)"
    using issued by (auto simp: session_issued_def)
  then have "an_access_token session \<noteq> []"
    using jwt(1) by (auto simp: IssueAccessToken_def jwt_ok_def split: option.splits)
  then have bearer: "bearer_token (''Bearer '' @ an_access_token session) = Some (an_access_token session)" by (rule bearer_token_of)
  have "NewNumericDate ?c (ae_now e - 5 * Second) \<le> ae_now e'"
    using numeric_date(1) [OF jwt(1), of "ae_now e - 5 * Second"] dates(2) by (simp add: Second_def)
  moreover have "ae_now e' < NewNumericDate ?c (ae_now e + tm_lifetime ?m)"
    using numeric_date(2) [OF jwt(1), of "ae_now e + tm_lifetime ?m"] dates(3) by simp
  ultimately have "ParseAccessToken ?c ?m (ae_now e') (an_access_token session) =
      Inr (au_id user, access_claims ?c ?m (ae_now e) (ae_jti e) (au_id user) (au_email_verified user) (au_user_role user))"
    using parse_issued [OF jwt(1) iss dates(1) plain, of "ae_now e'"] by simp
  with bearer jwt(2) show ?thesis by (simp add: authorized_def access_claims_def RoleUser_def)
qed

lemma serve_sync:
  assumes "authorized (hn_auth h) ae header = Some (u, claims)" "ac_email_verified claims"
  shows "run_state (serve h ae e allowed header (PostSync proto (Some req))) w =
    (case run_state (Sync (hn_sync h) e u req (proto_version proto)) w of
       (r, w') \<Rightarrow> (respond sync_error (\<lambda>response. Reply 200 (SyncBody response)) r, w'))"
  using assms
  by (simp add: serve_def run_authenticate requireVerified_def synchronize_def decodeJSON_def split: prod.split)

text \<open>A route of the operators is reached with the role of an administrator, and only reads.\<close>

lemma handle_admin_reads:
  assumes "admin_route ep" "run_state (handle h ae e p ep) w = (r, w')"
  shows "committed w' = committed w"
proof -
  have "state_io_rel (\<lambda>w w'. committed w' = committed w) (handle h ae e p ep)"
    using assms(1) by (cases ep) (auto intro!: reading.io_bind reading.io_return admin_handlers_read)
  from state_io_relD [OF this assms(2)] show ?thesis .
qed

lemma serve_admin:
  assumes "admin_route ep"
  shows "run_state (serve h ae e allowed header ep) w =
    (case authorized (hn_auth h) ae header of
       None \<Rightarrow> (unauthorized, w)
     | Some (u, claims) \<Rightarrow>
         if ac_user_role claims \<noteq> ''admin'' then (forbidden, w)
         else run_state (handle h ae e \<lparr> pr_user_id = u, pr_email_verified = ac_email_verified claims, pr_role = ac_user_role claims \<rparr> ep) w)"
proof -
  have "\<not> public_route ep" "\<not> limited_route ep" "\<not> verified_route ep" using assms by (cases ep; simp)+
  with assms show ?thesis by (simp add: serve_def run_authenticate requireAdmin_def split: option.split prod.split)
qed

end
