(* ===== verification/Http_Theorems.thy ===== *)
theory Http_Theorems
  imports Account_Theorems Http_Isolation History_Pages
begin

text \<open>
  The properties of the HTTP interface, which span the services behind it.
\<close>

subsection \<open>The history\<close>

text \<open>
  C33. A client that follows the text cursors of the history gets, within as many pages as there
  are rows plus one, every live session of the user and every live solve of a session exactly
  once, newest first.
\<close>

theorem history_complete:
  assumes lib: "uuids_ok lib" and clean: "faults w = []" and ok: "server_ok e (committed w)"
    and sessions: "\<forall>r\<in>set (history_sessions u (committed w)). session_pos r < LexPair far_future uuid_Max"
    and solves: "\<forall>r\<in>set (history_solves u j (committed w)). solve_pos r < LexPair far_future uuid_Max"
  shows "\<exists>w1 w2.
    drain (sessions_request lib u limit) (Suc (length (history_sessions u (committed w)))) [] w =
      Some (map (session_summary (committed w)) (rev (sort_key session_pos (history_sessions u (committed w)))), w1) \<and>
    drain (solves_request lib u j limit) (Suc (length (history_solves u j (committed w)))) [] w =
      Some (map solveFromDB (rev (sort_key solve_pos (history_solves u j (committed w)))), w2)"
proof -
  have start: "cursor_pos lib [] = Some (LexPair far_future uuid_Max)" by (simp add: cursor_pos_def parseCursor_def)
  have ready: "history_ready lib e w \<and> cursor_pos lib [] \<noteq> None" using lib clean ok start by (simp add: history_ready_def)
  have whole: "rows_before key (LexPair far_future uuid_Max) rows = rev (sort_key key rows)"
    if "\<forall>r\<in>set rows. key r < LexPair far_future uuid_Max" for key :: "'r \<Rightarrow> (time, uuid) lexpair" and rows
    using that by (simp add: rows_before_def)
  note s = whole [OF sessions] and v = whole [OF solves]
  have "\<exists>w1. drain (sessions_request lib u limit) (Suc (length (history_sessions u (committed w)))) [] w =
      Some (map (session_summary (committed w)) (rev (sort_key session_pos (history_sessions u (committed w)))), w1)"
    using session_pages.drain_complete [OF ready, of u "Suc (length (history_sessions u (committed w)))" limit] by (simp add: start s)
  moreover have "\<exists>w2. drain (solves_request lib u j limit) (Suc (length (history_solves u j (committed w)))) [] w =
      Some (map solveFromDB (rev (sort_key solve_pos (history_solves u j (committed w)))), w2)"
    using solve_pages.drain_complete [OF ready, of u j "Suc (length (history_solves u j (committed w)))" limit] by (simp add: start v)
  ultimately show ?thesis by blast
qed

definition hx_lib :: cursor_lib where
  "hx_lib = \<lparr> cu_general = (\<lambda>_. None), cu_uuid_string = UUIDString ay_crypto, cu_uuid_parse = UUIDParse ay_crypto \<rparr>"

lemma hx_uuids_ok: "uuids_ok hx_lib"
  using ay_jwt_ok by (simp add: uuids_ok_def hx_lib_def jwt_ok_def)

theorem history_complete_witness:
  "\<exists>w1. drain (sessions_request hx_lib 1 ''1'') (Suc (length (history_sessions 1 (committed ex_synced)))) [] ex_synced =
      Some (map (session_summary (committed ex_synced)) (rev (sort_key session_pos (history_sessions 1 (committed ex_synced)))), w1)"
proof -
  have "faults ex_synced = []" "server_ok (ex_env 0) (committed ex_synced)"
    "\<forall>r\<in>set (history_sessions 1 (committed ex_synced)). session_pos r < LexPair far_future uuid_Max"
    "\<forall>r\<in>set (history_solves 1 (ex_id ''s'') (committed ex_synced)). solve_pos r < LexPair far_future uuid_Max"
    by code_simp+
  from history_complete [OF hx_uuids_ok this, of "''1''"] show ?thesis by blast
qed


subsection \<open>Guarded routes\<close>


definition hx_pg :: pg_session where
  "hx_pg = \<lparr> pg_day_start = (\<lambda>t. t - t mod Day), pg_minus_days = (\<lambda>n t. t - n * Day), pg_sort_key = id \<rparr>"

definition hx_go_float :: "int go_float" where
  "hx_go_float = \<lparr> float64_of = id, float64_div = (\<lambda>x y. x div y) \<rparr>"

definition hx_handler :: "int Handler" where
  "hx_handler = \<lparr> hn_auth = ax_service, hn_sync = ex_service, hn_snapshot = ex_snapshot,
     hn_float = \<lparr> avg8 = (\<lambda>_. 0), stddev8 = (\<lambda>_. 0), float8_of = id, int64_of_float = id \<rparr>, hn_lib = hx_lib,
     hn_pg = hx_pg, hn_go_float = hx_go_float \<rparr>"

definition hx_env :: "int \<Rightarrow> auth_env" where
  "hx_env t = ax_env t ''jkl'' 4\<lparr>ae_crypto := ay_crypto\<rparr>"

definition hx_delete :: "(world, int body reply) state" where
  "hx_delete = serve hx_handler (hx_env 100) (ex_env 0) True ''bearer ts'' DeleteMe"

lemma hx_authorized: "authorized ax_service (hx_env 100) ''bearer ts'' = Some (1, ay_claims)"
  by code_simp


text \<open>
  C32. The access token of a successful sign-in, sent as a bearer token before it expires, is
  accepted by the synchronization route, which then runs Sync for exactly the user who signed in
  and reports its answer.
\<close>

theorem session_opens_sync:
  assumes login: "run_state (Login (hn_auth h) ae email password) w = (Inr session, w1)"
    and jwt: "jwt_ok (ae_crypto ae)" "ae_crypto ae' = ae_crypto ae"
    and dates: "date_range (as_tokens (hn_auth h)) (ae_now ae)" "ae_now ae \<le> ae_now ae'"
      "ae_now ae' + Second \<le> ae_now ae + tm_lifetime (as_tokens (hn_auth h))"
    and plain: "plain_text (tm_issuer (as_tokens (hn_auth h)))" "plain_text (ae_jti ae)" "plain_text (au_user_role (an_user session))"
  shows "\<exists>user\<in>set (users (committed w)). us_email user = ae_pg_lower ae (normalizeEmail ae email) \<and>
    run_state (serve h ae' e allowed (''Bearer '' @ an_access_token session) (PostSync proto (Some req))) w2 =
      (case run_state (Sync (hn_sync h) e (us_id user) req (proto_version proto)) w2 of
         (r, w3) \<Rightarrow> (respond sync_error (\<lambda>response. Reply 200 (SyncBody response)) r, w3))"
  using login
proof (rule Login_Inr)
  fix user cred
  assume user: "user \<in> set (users (committed w))" "us_email user = ae_pg_lower ae (normalizeEmail ae email)"
    and iss: "session_issued (hn_auth h) ae (password_user user) (ae_family_uuid ae) session (committed w) (committed w1)"
  have "an_user session = password_user user" using iss by (simp add: session_issued_def)
  with plain(3) have role: "plain_text (au_user_role (password_user user))" by simp
  obtain claims where "authorized (hn_auth h) ae' (''Bearer '' @ an_access_token session) = Some (us_id user, claims)" "ac_email_verified claims"
    using issued_authorizes [OF jwt iss dates plain(1,2) role] by (auto simp: password_user_def)
  from serve_sync [OF this] user show ?thesis by blast
qed

definition hx_login :: "(world, error + AuthSession) state" where
  "hx_login = Login ax_service (hx_env 60) ''ann@cube.org'' ax_pw"

definition hx_sync :: "(world, int body reply) state" where
  "hx_sync = serve hx_handler (hx_env 100) (ex_env 0) True
     (''Bearer '' @ an_access_token (projr (fst (run_state hx_login ax_verified)))) (PostSync ''2'' (Some (ex_request 1 0 ex_batch)))"

theorem session_opens_sync_witness:
  "\<exists>user\<in>set (users (committed ax_verified)). us_email user = ''ann@cube.org'' \<and>
    run_state hx_sync ax_verified = (case run_state (Sync ex_service (ex_env 0) (us_id user) (ex_request 1 0 ex_batch) 2) ax_verified of
         (r, w3) \<Rightarrow> (respond sync_error (\<lambda>response. Reply 200 (SyncBody response)) r, w3))"
proof -
  let ?s = "projr (fst (run_state hx_login ax_verified))"
  have facts: "case fst (run_state hx_login ax_verified) of Inl _ \<Rightarrow> False | Inr _ \<Rightarrow> True" "plain_text (au_user_role (an_user ?s))"
    "date_range (as_tokens ax_service) (60 * Second)" "plain_text (tm_issuer (as_tokens ax_service))" "plain_text (ae_jti (hx_env 60))"
    "100 * Second + Second \<le> 60 * Second + tm_lifetime (as_tokens ax_service)" "proto_version ''2'' = 2"
    "ae_pg_lower (hx_env 60) (normalizeEmail (hx_env 60) ''ann@cube.org'') = ''ann@cube.org''"
    by code_simp+
  have env: "ae_now (hx_env t) = t * Second" "ae_crypto (hx_env t) = ay_crypto" "hn_auth hx_handler = ax_service" "hn_sync hx_handler = ex_service" for t
    by (simp_all add: hx_env_def hx_handler_def)
  note run = run_Inr [OF facts(1)]
  show ?thesis
    using session_opens_sync [of hx_handler "hx_env 60" "''ann@cube.org''" ax_pw ax_verified ?s "snd (run_state hx_login ax_verified)"
        "hx_env 100" "ex_env 0" True "''2''" "ex_request 1 0 ex_batch" ax_verified] run [unfolded hx_login_def] facts(2-) ay_jwt_ok
    by (simp add: env hx_sync_def hx_login_def Second_def)
qed

end
