(* ===== verification/Admin_Theorems.thy ===== *)
theory Admin_Theorems
  imports Admin_Pages Admin_Stats Http_Theorems
begin

text \<open>
  The properties of the admin service and of its routes.
\<close>

subsection \<open>Recording\<close>

text \<open>
  C34. Whatever the senders, the tickers and the other parts of the server do, on a working
  connection every request that the admin service let in is counted exactly once under its hour,
  method, route and status, with its time in the sum and in the maximum: what is in the table, the
  buffer and the channel together is what there was plus what was let in. A loop that has ended
  has emptied its buffer, and once the service is told to stop the loop can run to its end with
  everything in the table. Cleanup takes only hours before its cutoff.
\<close>

theorem requests_counted:
  assumes run: "admin_run pg order c evs c'" and order: "map_order_ok order"
    and clean: "faults (cf_world c) = []" and row: "stored_ok k (stats_of (cf_world c))" and utf8: "text_key k"
    and fits: "tally_fits (booked k c + tally_of k (accepted_requests evs))"
    and kept: "\<forall>t. CleanedBefore t \<in> set evs \<longrightarrow> t \<le> fst k"
    and running: "cf_phase c = Running"
  shows "stored k (stats_of (cf_world c')) + tally_of k (cf_buffer c' @ ad_metrics (cf_service c')) =
      booked k c + tally_of k (accepted_requests evs) \<and>
    (cf_phase c' = Stopped \<longrightarrow> cf_buffer c' = []) \<and>
    (cf_phase c' = Running \<and> ad_stopChan (cf_service c') \<longrightarrow>
      (\<exists>c''. admin_run pg order c' [] c'' \<and> cf_phase c'' = Stopped \<and>
        stored k (stats_of (cf_world c'')) = booked k c + tally_of k (accepted_requests evs)))"
proof (intro conjI impI)
  have ok: "counting k c" "emptied c" using clean row running by (simp_all add: counting_def emptied_def)
  note booked = admin_run_booked [OF run order utf8 ok(1) fits kept]
  then show "stored k (stats_of (cf_world c')) + tally_of k (cf_buffer c' @ ad_metrics (cf_service c')) =
      booked k c + tally_of k (accepted_requests evs)" by (simp add: booked_def)
  show "cf_phase c' = Stopped \<Longrightarrow> cf_buffer c' = []" using admin_run_emptied [OF run ok(2)] by (simp add: emptied_def)
  assume c': "cf_phase c' = Running \<and> ad_stopChan (cf_service c')"
  let ?d = "c'\<lparr>cf_phase := Draining\<rparr>"
  have d: "admin_step pg order c' [] ?d" using c' by (simp add: stop)
  obtain e where e: "admin_run pg order ?d [] e" "cf_phase e = Stopped" "ad_metrics (cf_service e) = []"
    using drain_ends [of ?d] by auto
  have to_e: "admin_run pg order c' [] e" using admin_run_first [OF e(1) d] by simp
  have "booked k e = booked k c' \<and> counting k e" using admin_run_booked [OF to_e order utf8] booked fits by simp
  moreover have "cf_buffer e = []" using admin_run_emptied [OF to_e] admin_run_emptied [OF run ok(2)] e(2) by (simp add: emptied_def)
  ultimately show "\<exists>c''. admin_run pg order c' [] c'' \<and> cf_phase c'' = Stopped \<and>
        stored k (stats_of (cf_world c'')) = booked k c + tally_of k (accepted_requests evs)"
    using to_e e booked by (auto simp: booked_def)
qed

definition dx_metric :: metric where
  "dx_metric = \<lparr> mt_method = ''GET'', mt_route = ''/v1/sync'', mt_status = 200, mt_duration = 1500000, mt_at = 10 * Hour + 7 \<rparr>"

definition dx_event :: errorEvent where
  "dx_event = error_event 5 ''GET'' ''/v1/sync'' 409 ''cursor_expired'' ''resync''"

definition dx_start :: admin_conf where
  "dx_start = \<lparr> cf_service = NewAdminService, cf_sending = [], cf_sending_errors = [], cf_phase = Running,
     cf_buffer = [], cf_errBuffer = [], cf_world = ax_world \<rparr>"

definition dx_sent :: admin_conf where
  "dx_sent = dx_start\<lparr>cf_service := send_error dx_event (send_metric dx_metric NewAdminService)\<rparr>"

definition dx_end :: admin_conf where
  "dx_end = (flushAll rev (20 * Hour) (receive_error (20 * Hour) (receive_metric rev dx_sent)))"

definition dx_key :: stat_id where
  "dx_key = (10 * Hour, ''GET'', ''/v1/sync'', 200)"

lemma dx_run: "admin_run hx_pg rev dx_start [RequestAccepted dx_metric, ErrorAccepted dx_event] dx_end"
proof -
  let ?c1 = "dx_start\<lparr>cf_sending := [dx_metric]\<rparr>"
  let ?c2 = "dx_start\<lparr>cf_service := send_metric dx_metric NewAdminService\<rparr>"
  let ?c3 = "?c2\<lparr>cf_sending_errors := [dx_event]\<rparr>"
  let ?c4 = "receive_metric rev dx_sent" and ?c5 = "receive_error (20 * Hour) (receive_metric rev dx_sent)"
  have routes: "accepts_metric (cf_service dx_start) (mt_route dx_metric)" "accepts_error (cf_service ?c2) (ee_route dx_event) 409"
    "ee_statusCode dx_event = int32 409" "ad_metrics (cf_service dx_sent) \<noteq> []" "ad_errorLogs (cf_service ?c4) \<noteq> []"
    "cf_phase dx_sent = Running" "cf_phase ?c4 = Running" "cf_phase ?c5 = Running"
    "length (ad_metrics (cf_service ?c1)) < channel_size" "length (ad_errorLogs (cf_service ?c3)) < channel_size"
    by code_simp+
  have 1: "admin_step hx_pg rev dx_start [] ?c1" using check_metric [OF routes(1)] by (simp add: dx_start_def)
  have 2: "admin_step hx_pg rev ?c1 [RequestAccepted dx_metric] ?c2"
    using send_metric [of dx_metric ?c1 hx_pg rev] routes(9) by (simp add: dx_start_def)
  have 3: "admin_step hx_pg rev ?c2 [] ?c3" using check_error [OF routes(2,3)] by (simp add: dx_start_def)
  have 4: "admin_step hx_pg rev ?c3 [ErrorAccepted dx_event] dx_sent"
    using send_error [of dx_event ?c3 hx_pg rev] routes(10) by (simp add: dx_start_def dx_sent_def)
  have 5: "admin_step hx_pg rev dx_sent [] ?c4" by (rule receive_metric [OF routes(6,4)])
  have 6: "admin_step hx_pg rev ?c4 [] ?c5" by (rule receive_error [OF routes(7,5)])
  have 7: "admin_step hx_pg rev ?c5 [] dx_end" unfolding dx_end_def by (rule tick [OF routes(8)])
  from admin_run_first [OF admin_run_first [OF admin_run_first [OF admin_run_first [OF admin_run_first [OF admin_run_first
      [OF admin_run_first [OF admin_run.start 7] 6] 5] 4] 3] 2] 1] show ?thesis by simp
qed

lemma rev_order: "map_order_ok rev"
  by (simp add: map_order_ok_def)

theorem requests_counted_witness:
  "stored dx_key (stats_of (cf_world dx_end)) = Tally 1 1500 1500"
proof -
  have facts: "faults (cf_world dx_start) = []" "stored_ok dx_key (stats_of (cf_world dx_start))" "text_key dx_key"
    "tally_fits (booked dx_key dx_start + tally_of dx_key [dx_metric])" "cf_phase dx_start = Running"
    "tally_of dx_key (cf_buffer dx_end @ ad_metrics (cf_service dx_end)) = 0" "booked dx_key dx_start + tally_of dx_key [dx_metric] = Tally 1 1500 1500"
    by code_simp+
  then show ?thesis
    using requests_counted [OF dx_run rev_order facts(1-3), simplified accepted_requests.simps, OF facts(4) _ facts(5)] by auto
qed

text \<open>
  C35. On a working connection the log of request errors, followed by what is buffered and what is
  queued, is at any time the log of before followed by the errors let in since, in their order,
  with ids that grow; nothing is lost, doubled or swapped until cleanup deletes it by age.
\<close>

theorem errors_logged:
  assumes run: "admin_run pg order c evs c'" and clean: "faults (cf_world c) = []"
    and utf8: "list_all copy_text_ok (pending_errors c @ map error_params (accepted_errors evs))"
    and ids: "error_ids_ok (committed (cf_world c))" "ids_needed c + int (length (accepted_errors evs)) \<le> MaxInt64"
    and kept: "\<forall>t. CleanedBefore t \<notin> set evs"
  shows "map logged_params (request_errors (committed (cf_world c'))) @ pending_errors c' =
      map logged_params (request_errors (committed (cf_world c))) @ pending_errors c @ map error_params (accepted_errors evs) \<and>
    sorted_wrt (<) (map qe_id (request_errors (committed (cf_world c'))))"
proof -
  have "logging c" "list_all copy_text_ok (map error_params (accepted_errors evs))" using clean utf8 by (simp_all add: logging_def)
  note log = admin_run_log [OF run this(1) ids(2) this(2) kept]
  show ?thesis using log admin_run_ids [OF run ids(1)] by (simp add: error_history_def error_ids_ok_def)
qed

theorem errors_logged_witness:
  "map logged_params (request_errors (committed (cf_world dx_end))) = [error_params dx_event]"
proof -
  have facts: "faults (cf_world dx_start) = []" "list_all copy_text_ok (pending_errors dx_start @ map error_params [dx_event])"
    "error_ids_ok (committed (cf_world dx_start))" "ids_needed dx_start + int (length [dx_event]) \<le> MaxInt64"
    "pending_errors dx_end = []" "pending_errors dx_start = []" "request_errors (committed (cf_world dx_start)) = []"
    by code_simp+
  then show ?thesis using errors_logged [OF dx_run facts(1)] by simp
qed


subsection \<open>What the operators read\<close>

text \<open>
  C36. An operator who follows the two cursors of the error log, with any limit the handler
  accepts, gets every logged error exactly once, newest first, within as many pages as there are
  errors plus one, although a full last page announces another one.
\<close>

theorem error_log_complete:
  assumes "faults w = []" "error_ids_ok (committed w)" "parseErrorLimit limit \<noteq> None"
    and "\<forall>r\<in>set (request_errors (committed w)). 0 < qe_created_at r \<and> json_time_ok (qe_created_at r) \<and>
      error_pos r < LexPair now MaxInt64 \<and> qe_id r \<le> MaxInt64"
  shows "\<exists>w'. drain (errors_request lib now limit) (Suc (length (request_errors (committed w)))) ([], []) w =
    Some (map (error_log (cu_uuid_string lib)) (rev (sort_key error_pos (request_errors (committed w)))), w')"
proof -
  let ?rows = "request_errors (committed w)"
  have pos: "error_cursor_pos lib now ([], []) = Some (LexPair now MaxInt64)"
    by (simp add: error_cursor_pos_def parseBefore_def parseBeforeID_def IsZero_def)
  have ready: "(errors_ready w \<and> parseErrorLimit limit \<noteq> None) \<and> error_cursor_pos lib now ([], []) \<noteq> None"
    using assms pos by (simp add: errors_ready_def)
  have "rows_before error_pos (LexPair now MaxInt64) ?rows = rev (sort_key error_pos ?rows)"
    using assms(4) by (simp add: rows_before_def)
  then show ?thesis using error_pages.drain_complete [OF ready, of "Suc (length ?rows)"] pos by simp
qed

theorem error_log_complete_witness:
  "\<exists>w'. drain (errors_request hx_lib (21 * Hour) ''1'') 2 ([], []) (cf_world dx_end) =
    Some ([\<lparr> el_id = 1, el_created_at = 20 * Hour, el_user_id = Some (cu_uuid_string hx_lib 5), el_method = ''GET'',
      el_route = ''/v1/sync'', el_status = 409, el_code = ''cursor_expired'', el_message = ''resync'' \<rparr>], w')"
proof -
  have facts: "faults (cf_world dx_end) = []" "error_ids_ok (committed (cf_world dx_end))" "parseErrorLimit ''1'' \<noteq> None"
    "\<forall>r\<in>set (request_errors (committed (cf_world dx_end))). 0 < qe_created_at r \<and> json_time_ok (qe_created_at r) \<and>
      error_pos r < LexPair (21 * Hour) MaxInt64 \<and> qe_id r \<le> MaxInt64"
    by code_simp+
  have rows: "request_errors (committed (cf_world dx_end)) = [error_row (20 * Hour) 1 (error_params dx_event)]" by code_simp
  have view: "error_log f (error_row (20 * Hour) 1 (error_params dx_event)) =
     \<lparr> el_id = 1, el_created_at = 20 * Hour, el_user_id = Some (f 5), el_method = ''GET'',
      el_route = ''/v1/sync'', el_status = 409, el_code = ''cursor_expired'', el_message = ''resync'' \<rparr>" for f
  proof -
    have "error_params dx_event = \<lparr> ce_user_id = Some 5, ce_method = ''GET'', ce_route = ''/v1/sync'', ce_status_code = 409,
        ce_code = ''cursor_expired'', ce_message = ''resync'' \<rparr>" by code_simp
    then show ?thesis by (simp add: error_log_def error_row_def)
  qed
  show ?thesis using error_log_complete [OF facts, of hx_lib] by (simp add: rows view numeral_2_eq_2)
qed

text \<open>
  C37. On a working connection, for a range that is accepted and sums that fit, both statistics
  are answered, and they agree: the buckets are strictly ascending, the types are distinct and
  sorted by falling count, each type has the requests of its routes, and both add up to the
  requests stored for the hours of the range.
\<close>

theorem request_series_agree:
  assumes range: "resolveRange ul now q = Inr r" and rows: "rows = stats_between (qr_from r) (qr_to r) (committed w)"
    and clean: "faults w = []" and check: "\<forall>x\<in>set rows. stat_check x"
    and fits: "sum_list (map qh_request_count rows) \<le> MaxInt64" "sum_list (map qh_total_duration_ms rows) \<le> MaxInt64"
  shows "\<exists>series types.
    run_state (RequestStats pg fl ul now q) w = (Inr series, w) \<and> run_state (RequestTypeStats pg ul now q) w = (Inr types, w) \<and>
    sum_list (map sq_request_count (sy_points series)) = sum_list (map qh_request_count rows) \<and>
    sum_list (map tc_request_count (ty_types types)) = sum_list (map qh_request_count rows) \<and>
    sorted_wrt (<) (map sq_bucket (sy_points series)) \<and>
    distinct (map tc_type (ty_types types)) \<and> sorted_wrt (\<lambda>x y. tc_request_count y \<le> tc_request_count x) (ty_types types) \<and>
    (\<forall>c\<in>set (ty_types types). tc_request_count c =
      sum_list (map qh_request_count (filter (\<lambda>x. requestTypeForRoute (qh_route x) = tc_type c) rows)))"
proof -
  obtain types where types: "run_state (RequestTypeStats pg ul now q) w = (Inr types, w)"
      "sum_list (map tc_request_count (ty_types types)) = sum_list (map qh_request_count rows)"
      "distinct (map tc_type (ty_types types))" "sorted_wrt (\<lambda>x y. tc_request_count y \<le> tc_request_count x) (ty_types types)"
      "\<forall>c\<in>set (ty_types types). tc_request_count c =
        sum_list (map qh_request_count (filter (\<lambda>x. requestTypeForRoute (qh_route x) = tc_type c) rows))"
    using RequestTypeStats_ok [OF range rows clean check fits(1), of pg] by blast
  obtain series where series: "run_state (RequestStats pg fl ul now q) w = (Inr series, w)"
      "sum_list (map sq_request_count (sy_points series)) = sum_list (map qh_request_count rows)"
      "sorted_wrt (<) (map sq_bucket (sy_points series))"
    using RequestStats_ok [OF range rows clean check fits, of pg fl] by blast
  show ?thesis using types series by blast
qed

definition dx_query :: QueryRange where
  "dx_query = \<lparr> qr_from = 0, qr_to = 0, qr_interval = '' Day'' \<rparr>"

theorem request_series_agree_witness:
  "\<exists>series types. run_state (RequestStats hx_pg hx_go_float id (30 * Hour) dx_query) (cf_world dx_end) = (Inr series, cf_world dx_end) \<and>
    run_state (RequestTypeStats hx_pg id (30 * Hour) dx_query) (cf_world dx_end) = (Inr types, cf_world dx_end) \<and>
    sum_list (map sq_request_count (sy_points series)) = 1 \<and> sum_list (map tc_request_count (ty_types types)) = 1"
proof -
  let ?r = "\<lparr> qr_from = 6 * Hour, qr_to = 30 * Hour, qr_interval = ''day'' \<rparr>"
  let ?rows = "stats_between (qr_from ?r) (qr_to ?r) (committed (cf_world dx_end))"
  have facts: "resolveRange id (30 * Hour) dx_query = Inr ?r" "faults (cf_world dx_end) = []" "\<forall>x\<in>set ?rows. stat_check x"
    "sum_list (map qh_request_count ?rows) \<le> MaxInt64" "sum_list (map qh_total_duration_ms ?rows) \<le> MaxInt64"
    "sum_list (map qh_request_count ?rows) = 1"
    by code_simp+
  show ?thesis
    using request_series_agree [OF facts(1) refl facts(2-5), of hx_pg hx_go_float] unfolding facts(6) by blast
qed

text \<open>
  stats_range_exact
\<close>

theorem stats_range_exact:
  assumes now: "defaultLookback < now"
  shows "(if ToLower ul (TrimSpace (qr_interval q)) \<notin> {[], ''hour'', ''day''}
      then resolveRange ul now q = Inl (AdminError ''invalid_interval'' ''interval must be hour or day'')
      else if IsZero (qr_from q) \<and> IsZero (qr_to q) \<or>
        \<not> IsZero (qr_from q) \<and> \<not> IsZero (qr_to q) \<and> qr_from q < qr_to q \<and> qr_to q - qr_from q \<le> 90 * 24 * Hour
      then \<exists>r. resolveRange ul now q = Inr r \<and> qr_interval r \<in> {''hour'', ''day''} \<and>
        (if IsZero (qr_from q) then qr_from r = now - 24 * Hour \<and> qr_to r = now else qr_from r = qr_from q \<and> qr_to r = qr_to q)
      else \<exists>message. resolveRange ul now q = Inl (AdminError ''invalid_range'' message))"
proof -
  let ?i = "ToLower ul (TrimSpace (qr_interval q))"
  have sub: "maxRange < Sub t u \<longleftrightarrow> 90 * 24 * Hour < t - u" for t u
    by (auto simp: Sub_def maxRange_def MaxDuration_def Hour_def Second_def)
  have clock: "now \<noteq> 0" "now - defaultLookback \<noteq> 0" "now - (now - defaultLookback) \<le> 90 * 24 * Hour"
    using now by (auto simp: defaultLookback_def Hour_def Second_def)
  consider (interval) "?i \<notin> {[], ''hour'', ''day''}"
    | (missing) "?i \<in> {[], ''hour'', ''day''}" "IsZero (qr_from q)" "IsZero (qr_to q)"
    | (given) "?i \<in> {[], ''hour'', ''day''}" "\<not> (IsZero (qr_from q) \<and> IsZero (qr_to q))" by blast
  then show ?thesis
  proof cases
    case interval
    then show ?thesis by (simp add: resolveRange_def Let_def IntervalHour_def IntervalDay_def)
  next
    case missing
    then show ?thesis
      using now clock by (auto simp: resolveRange_def Let_def IntervalHour_def IntervalDay_def sub IsZero_def defaultLookback_def Hour_def Second_def)
  next
    case given
    then show ?thesis by (auto simp: resolveRange_def Let_def IntervalHour_def IntervalDay_def sub)
  qed
qed

theorem stats_range_exact_witness:
  "\<exists>r. resolveRange id (30 * Hour) dx_query = Inr r \<and> qr_interval r \<in> {''hour'', ''day''} \<and> qr_from r = 6 * Hour \<and> qr_to r = 30 * Hour"
proof -
  have "defaultLookback < 30 * Hour" "ToLower id (TrimSpace (qr_interval dx_query)) \<in> {[], ''hour'', ''day''}"
    "IsZero (qr_from dx_query)" "IsZero (qr_to dx_query)" by code_simp+
  with stats_range_exact [of "30 * Hour" id dx_query] show ?thesis by auto
qed


subsection \<open>Who may read\<close>

text \<open>
  C38. With the access token of a sign-in, a route of the operators is answered by its handler
  when the stored role of the user is admin, and with 403 otherwise; in neither case does it
  change the database.
\<close>

theorem admin_needs_role:
  assumes login: "run_state (Login (hn_auth h) ae email password) w = (Inr session, w1)"
    and jwt: "jwt_ok (ae_crypto ae)" "ae_crypto ae' = ae_crypto ae"
    and dates: "date_range (as_tokens (hn_auth h)) (ae_now ae)" "ae_now ae \<le> ae_now ae'"
      "ae_now ae' + Second \<le> ae_now ae + tm_lifetime (as_tokens (hn_auth h))"
    and plain: "plain_text (tm_issuer (as_tokens (hn_auth h)))" "plain_text (ae_jti ae)" "plain_text (au_user_role (an_user session))"
    and route: "admin_route ep"
    and run: "run_state (serve h ae' e allowed (''Bearer '' @ an_access_token session) ep) w2 = (r, w3)"
  shows "committed w3 = committed w2 \<and>
    (\<exists>user\<in>set (users (committed w)). us_email user = ae_pg_lower ae (normalizeEmail ae email) \<and>
      (if us_user_role user = ''admin'' then \<exists>p. pr_user_id p = us_id user \<and> run_state (handle h ae' e p ep) w2 = (r, w3)
       else r = forbidden \<and> w3 = w2))"
  using login
proof (rule Login_Inr)
  fix user cred
  assume user: "user \<in> set (users (committed w))" "us_email user = ae_pg_lower ae (normalizeEmail ae email)"
    and iss: "session_issued (hn_auth h) ae (password_user user) (ae_family_uuid ae) session (committed w) (committed w1)"
  have "an_user session = password_user user" using iss by (simp add: session_issued_def)
  with plain(3) have role: "plain_text (au_user_role (password_user user))" by simp
  obtain claims where claims: "authorized (hn_auth h) ae' (''Bearer '' @ an_access_token session) = Some (us_id user, claims)"
      "ac_user_role claims = ''admin'' \<longleftrightarrow> us_user_role user = ''admin''"
    using issued_authorizes [OF jwt iss dates plain(1,2) role] by (auto simp: password_user_def)
  let ?p = "\<lparr> pr_user_id = us_id user, pr_email_verified = ac_email_verified claims, pr_role = ac_user_role claims \<rparr>"
  have out: "if us_user_role user = ''admin'' then run_state (handle h ae' e ?p ep) w2 = (r, w3) else r = forbidden \<and> w3 = w2"
    using run claims serve_admin [OF route, of h ae' e allowed "''Bearer '' @ an_access_token session" w2] by (auto split: if_splits)
  have "pr_user_id ?p = us_id user" by simp
  with out user handle_admin_reads [OF route] show ?thesis by (metis (no_types, lifting))
qed

definition dx_overview :: "(world, int body reply) state" where
  "dx_overview = serve hx_handler (hx_env 100) (ex_env 0) True
     (''Bearer '' @ an_access_token (projr (fst (run_state hx_login ax_verified)))) GetOverview"

theorem admin_needs_role_witness:
  "run_state dx_overview ax_verified = (forbidden, ax_verified)"
proof -
  let ?s = "projr (fst (run_state hx_login ax_verified))"
  have facts: "case fst (run_state hx_login ax_verified) of Inl _ \<Rightarrow> False | Inr _ \<Rightarrow> True" "plain_text (au_user_role (an_user ?s))"
    "date_range (as_tokens ax_service) (60 * Second)" "plain_text (tm_issuer (as_tokens ax_service))" "plain_text (ae_jti (hx_env 60))"
    "100 * Second + Second \<le> 60 * Second + tm_lifetime (as_tokens ax_service)"
    "list_all (\<lambda>u. us_user_role u \<noteq> ''admin'') (users (committed ax_verified))"
    by code_simp+
  have env: "ae_now (hx_env t) = t * Second" "ae_crypto (hx_env t) = ay_crypto" "hn_auth hx_handler = ax_service" for t
    by (simp_all add: hx_env_def hx_handler_def)
  note run = run_Inr [OF facts(1)]
  show ?thesis
    using admin_needs_role [of hx_handler "hx_env 60" "''ann@cube.org''" ax_pw ax_verified ?s "snd (run_state hx_login ax_verified)"
        "hx_env 100" GetOverview "ex_env 0" True ax_verified "fst (run_state dx_overview ax_verified)" "snd (run_state dx_overview ax_verified)"]
      run [unfolded hx_login_def] facts(2-) ay_jwt_ok
    by (auto simp: env dx_overview_def hx_login_def Second_def list_all_iff prod_eq_iff)
qed

end
