(* ===== verification/Config.thy ===== *)
theory Config
  imports Rate_Limit Go_Time
begin

text \<open>
  \<open>internal/config/config.go\<close>: the configuration, read from the environment.

  The environment is a function from names to values, empty where a variable is not set. Durations of the
  configuration are in nanoseconds. The prefixes of \<open>net/netip\<close> are \<open>prefix_lib\<close>. \<open>time.ParseDuration\<close> computes
  the part after a decimal point in \<open>float64\<close>; that step is the argument \<open>frac\<close>, applied to the digits, how
  many there are, and the unit.
\<close>

subsection \<open>time.ParseDuration\<close>

definition unitMap :: "(string \<times> int) list" where
  "unitMap = [(''ns'', 1), (''us'', 10 ^ 3), ([CHR 0xC2, CHR 0xB5, CHR ''s''], 10 ^ 3), ([CHR 0xCE, CHR 0xBC, CHR ''s''], 10 ^ 3),
     (''ms'', 10 ^ 6), (''s'', 10 ^ 9), (''m'', 60 * 10 ^ 9), (''h'', 3600 * 10 ^ 9)]"

text \<open>Digits after a point are read while they fit; the others are skipped.\<close>

fun leadingFraction :: "int \<Rightarrow> nat \<Rightarrow> string \<Rightarrow> int \<times> nat" where
  "leadingFraction x n [] = (x, n)"
| "leadingFraction x n (c # cs) =
     (let y = 10 * x + (of_char c - 48) in
      if (2 ^ 63 - 1) div 10 < x \<or> 2 ^ 63 < y then (x, n) else leadingFraction y (Suc n) cs)"

definition unit_char :: "char \<Rightarrow> bool" where
  "unit_char c \<longleftrightarrow> c \<noteq> CHR ''.'' \<and> \<not> is_digit c"

text \<open>One number with its unit: the nanoseconds and the rest of the text.\<close>

definition duration_part :: "(int \<Rightarrow> nat \<Rightarrow> int \<Rightarrow> int) \<Rightarrow> string \<Rightarrow> (int \<times> string) option" where
  "duration_part frac s =
     (let pre = takeWhile is_digit s; v = digits_value pre; s1 = dropWhile is_digit s;
          point = (s1 \<noteq> [] \<and> hd s1 = CHR ''.'');
          post = (if point then takeWhile is_digit (tl s1) else []);
          s2 = (if point then dropWhile is_digit (tl s1) else s1);
          (f, n) = leadingFraction 0 0 post;
          u = takeWhile unit_char s2; s3 = dropWhile unit_char s2 in
      if 2 ^ 63 < v \<or> pre = [] \<and> post = [] \<or> u = [] then None
      else case map_of unitMap u of
        None \<Rightarrow> None
      | Some factor \<Rightarrow>
          if 2 ^ 63 div factor < v then None
          else
            let v' = v * factor + (if 0 < f then frac f n factor else 0) in
            if 2 ^ 63 < v' then None else Some (v', s3))"

lemma length_dropWhile_less: "takeWhile P xs \<noteq> [] \<Longrightarrow> length (dropWhile P xs) < length xs"
  by (cases xs) (auto simp: less_Suc_eq_le length_dropWhile_le split: if_splits)

lemma duration_part_shorter: "duration_part frac s = Some (v, s') \<Longrightarrow> length s' < length s"
proof -
  assume some: "duration_part frac s = Some (v, s')"
  let ?s1 = "dropWhile is_digit s"
  let ?s2 = "if ?s1 \<noteq> [] \<and> hd ?s1 = CHR ''.'' then dropWhile is_digit (tl ?s1) else ?s1"
  have s': "s' = dropWhile unit_char ?s2" "takeWhile unit_char ?s2 \<noteq> []"
    using some by (auto simp: duration_part_def Let_def split: option.splits if_splits prod.splits)
  have "length s' < length ?s2" unfolding s'(1) by (rule length_dropWhile_less [OF s'(2)])
  moreover have "length ?s2 \<le> length s"
    using length_dropWhile_le [of is_digit s] length_dropWhile_le [of is_digit "tl ?s1"] by (auto intro: le_trans)
  ultimately show ?thesis by linarith
qed

function duration_parts :: "(int \<Rightarrow> nat \<Rightarrow> int \<Rightarrow> int) \<Rightarrow> int \<Rightarrow> string \<Rightarrow> int option" where
  "duration_parts frac d s =
     (if s = [] then Some d
      else case duration_part frac s of
        None \<Rightarrow> None
      | Some (v, s') \<Rightarrow> if 2 ^ 63 < d + v then None else duration_parts frac (d + v) s')"
  by pat_completeness auto

termination
  by (relation "measure (\<lambda>(_, _, s). length s)") (auto dest: duration_part_shorter)

declare duration_parts.simps [simp del]

definition ParseDuration :: "(int \<Rightarrow> nat \<Rightarrow> int \<Rightarrow> int) \<Rightarrow> string \<Rightarrow> int option" where
  "ParseDuration frac s0 =
     (let sign = (s0 \<noteq> [] \<and> (hd s0 = CHR ''-'' \<or> hd s0 = CHR ''+'')); neg = (s0 \<noteq> [] \<and> hd s0 = CHR ''-'');
          s = (if sign then tl s0 else s0) in
      if s = ''0'' then Some 0
      else if s = [] then None
      else case duration_parts frac 0 s of
        None \<Rightarrow> None
      | Some d \<Rightarrow> if neg then Some (- d) else if 2 ^ 63 - 1 < d then None else Some d)"

lemma ParseDuration_samples:
  "ParseDuration frac ''1h30m'' = Some (5400 * 10 ^ 9)" "ParseDuration frac ''-2ms'' = Some (- 2000000)" "ParseDuration frac ''15'' = None"
  by code_simp+


subsection \<open>Other texts\<close>

definition ParseBool :: "string \<Rightarrow> bool option" where
  "ParseBool s =
     (if s \<in> {''1'', ''t'', ''T'', ''true'', ''TRUE'', ''True''} then Some True
      else if s \<in> {''0'', ''f'', ''F'', ''false'', ''FALSE'', ''False''} then Some False
      else None)"

definition TrimRightSlash :: "string \<Rightarrow> string" where
  "TrimRightSlash s = rev (dropWhile (\<lambda>c. c = CHR ''/'') (rev s))"

text \<open>
  \<open>base64.StdEncoding\<close>, with padding: line breaks are skipped, the length of the rest is a multiple of four,
  and at most two padding characters stand at its end.
\<close>

definition DecodePadded :: "string \<Rightarrow> string option" where
  "DecodePadded s =
     (let t = filter (\<lambda>c. \<not> line_break c) s; body = takeWhile (\<lambda>c. c \<noteq> CHR ''='') t; pads = dropWhile (\<lambda>c. c \<noteq> CHR ''='') t in
      if length t mod 4 \<noteq> 0 \<or> pads \<notin> {[], ''='', ''==''} then None else DecodeString StdAlphabet body)"


subsection \<open>Variables\<close>

type_synonym environment = "string \<Rightarrow> string"

datatype config_error =
    InvalidDuration string
  | InvalidInteger string
  | MustBePositive string
  | InvalidProxy string string
  | ConfigError string

record ('a, 'p) prefix_lib =
  ParsePrefix :: "string \<Rightarrow> 'p option"
  ParseProxyAddr :: "string \<Rightarrow> 'a option"
  Is6 :: "'a \<Rightarrow> bool"
  PrefixFrom :: "'a \<Rightarrow> int \<Rightarrow> 'p"

definition developmentJWTSecret :: string where
  "developmentJWTSecret = ''development-only-secret-change-me''"

definition loadJWTSecret :: "string \<Rightarrow> string" where
  "loadJWTSecret v =
     (if v = [] then developmentJWTSecret else case DecodePadded v of Some decoded \<Rightarrow> decoded | None \<Rightarrow> v)"

definition env_or :: "environment \<Rightarrow> string \<Rightarrow> string \<Rightarrow> string" where
  "env_or getenv key fallback = (if getenv key \<noteq> [] then getenv key else fallback)"

definition csvEnv :: "environment \<Rightarrow> string \<Rightarrow> string list" where
  "csvEnv getenv key =
     (let raw = TrimSpace (getenv key) in
      if raw = [] then [] else filter (\<lambda>v. v \<noteq> []) (map TrimSpace (Split CHR '','' raw)))"

text \<open>The value and the errors it adds.\<close>

definition durationEnv :: "(int \<Rightarrow> nat \<Rightarrow> int \<Rightarrow> int) \<Rightarrow> environment \<Rightarrow> string \<Rightarrow> int \<Rightarrow> bool \<Rightarrow> int \<times> config_error list" where
  "durationEnv frac getenv key fallback allowZero =
     (if getenv key = [] then (fallback, [])
      else case ParseDuration frac (getenv key) of
        None \<Rightarrow> (0, [InvalidDuration key])
      | Some parsed \<Rightarrow> (parsed, if parsed < 0 \<or> parsed = 0 \<and> \<not> allowZero then [MustBePositive key] else []))"

text \<open>What \<open>Atoi\<close> answers beside an error does not matter: the errors end the loading.\<close>

definition intEnv :: "environment \<Rightarrow> string \<Rightarrow> int \<Rightarrow> bool \<Rightarrow> int \<times> config_error list" where
  "intEnv getenv key fallback allowZero =
     (if getenv key = [] then (fallback, [])
      else case Atoi (getenv key) of
        None \<Rightarrow> (0, [InvalidInteger key])
      | Some parsed \<Rightarrow> (parsed, if parsed < 0 \<or> parsed = 0 \<and> \<not> allowZero then [MustBePositive key] else []))"

definition boolEnv :: "environment \<Rightarrow> string \<Rightarrow> bool \<Rightarrow> bool" where
  "boolEnv getenv key fallback =
     (if getenv key = [] then fallback else case ParseBool (getenv key) of None \<Rightarrow> fallback | Some b \<Rightarrow> b)"

definition proxy_prefix :: "('a, 'p) prefix_lib \<Rightarrow> string \<Rightarrow> 'p option" where
  "proxy_prefix lib part =
     (case ParsePrefix lib part of
        Some prefix \<Rightarrow> Some prefix
      | None \<Rightarrow> map_option (\<lambda>addr. PrefixFrom lib addr (if Is6 lib addr then 128 else 32)) (ParseProxyAddr lib part))"

fun proxyLoop :: "('a, 'p) prefix_lib \<Rightarrow> string \<Rightarrow> string list \<Rightarrow> config_error + 'p list" where
  "proxyLoop lib key [] = Inr []"
| "proxyLoop lib key (raw # parts) =
     (let part = TrimSpace raw in
      if part = [] then proxyLoop lib key parts
      else case proxy_prefix lib part of
        None \<Rightarrow> Inl (InvalidProxy key part)
      | Some prefix \<Rightarrow> map_sum id ((#) prefix) (proxyLoop lib key parts))"

definition trustedProxiesEnv :: "('a, 'p) prefix_lib \<Rightarrow> environment \<Rightarrow> string \<Rightarrow> config_error + 'p list" where
  "trustedProxiesEnv lib getenv key =
     (let v = TrimSpace (getenv key) in if v = [] then Inr [] else proxyLoop lib key (Split CHR '','' v))"


subsection \<open>The configuration\<close>

record 'p Config =
  cg_Environment :: string
  cg_HTTPAddress :: string
  cg_DatabaseURL :: string
  cg_PublicURL :: string
  cg_ClientURL :: string
  cg_JWTSecret :: string
  cg_AccessTokenTTL :: int
  cg_RefreshTokenTTL :: int
  cg_AllowedOrigins :: "string list"
  cg_GoogleClientIDs :: "string list"
  cg_GoogleClientSecret :: string
  cg_SMTPHost :: string
  cg_SMTPPort :: int
  cg_SMTPUsername :: string
  cg_SMTPPassword :: string
  cg_SMTPFrom :: string
  cg_SMTPStartTLS :: bool
  cg_LogOneTimeLinks :: bool
  cg_MaxSyncMutations :: int
  cg_MaxSyncChanges :: int
  cg_MaxSyncResponseBytes :: int
  cg_InactiveDeviceWindow :: int
  cg_RetentionRunInterval :: int
  cg_EnableCompression :: bool
  cg_ReadinessTimeout :: int
  cg_ShutdownGracePeriod :: int
  cg_TrustedProxies :: "'p list"

definition ns_second :: int where
  "ns_second = 10 ^ 9"

text \<open>The checks at the end of \<open>Load\<close>: the first that fails.\<close>

definition config_problem :: "string \<Rightarrow> 'p Config \<Rightarrow> string option" where
  "config_problem rawSecret cfg =
     (if cg_DatabaseURL cfg = [] then Some ''DATABASE_URL is required''
      else if cg_Environment cfg = ''production'' then
        (if rawSecret = [] then Some ''JWT_SECRET must be set to a random value in production (openssl rand -base64 48)''
         else if cg_JWTSecret cfg = developmentJWTSecret
         then Some ''JWT_SECRET must not use the development default in production (openssl rand -base64 48)''
         else if length (cg_JWTSecret cfg) < 32 then Some ''JWT_SECRET must decode to at least 32 bytes in production''
         else if cg_LogOneTimeLinks cfg then Some ''LOG_ONE_TIME_LINKS must be false in production''
         else None)
      else None)"

definition Load :: "(int \<Rightarrow> nat \<Rightarrow> int \<Rightarrow> int) \<Rightarrow> ('a, 'p) prefix_lib \<Rightarrow> environment \<Rightarrow> config_error list + 'p Config" where
  "Load frac lib getenv =
     (let rawSecret = getenv ''JWT_SECRET''; secret = loadJWTSecret rawSecret;
          (accessTokenTTL, e1) = durationEnv frac getenv ''ACCESS_TOKEN_TTL'' (15 * 60 * ns_second) False;
          (refreshTokenTTL, e2) = durationEnv frac getenv ''REFRESH_TOKEN_TTL'' (30 * 24 * 3600 * ns_second) False;
          (smtpPort, e3) = intEnv getenv ''SMTP_PORT'' 587 False;
          (maxSyncMutations, e4) = intEnv getenv ''MAX_SYNC_MUTATIONS'' 500 False;
          (maxSyncChanges, e5) = intEnv getenv ''MAX_SYNC_CHANGES'' 1000 False;
          (maxSyncResponseBytes, e6) = intEnv getenv ''MAX_SYNC_RESPONSE_BYTES'' (512 * 1024) True;
          (inactiveDeviceWindow, e7) = durationEnv frac getenv ''INACTIVE_DEVICE_WINDOW'' (90 * 24 * 3600 * ns_second) True;
          (retentionRunInterval, e8) = durationEnv frac getenv ''RETENTION_RUN_INTERVAL'' (3600 * ns_second) False;
          (readinessTimeout, e9) = durationEnv frac getenv ''READINESS_TIMEOUT'' (2 * ns_second) False;
          (shutdownGracePeriod, e10) = durationEnv frac getenv ''SHUTDOWN_GRACE_PERIOD'' (10 * ns_second) False;
          (trustedProxies, e11) = (case trustedProxiesEnv lib getenv ''TRUSTED_PROXIES'' of Inl err \<Rightarrow> ([], [err]) | Inr ps \<Rightarrow> (ps, []));
          errs = e1 @ e2 @ e3 @ e4 @ e5 @ e6 @ e7 @ e8 @ e9 @ e10 @ e11 in
      if errs \<noteq> [] then Inl errs
      else
        let cfg = \<lparr> cg_Environment = env_or getenv ''APP_ENV'' ''development'',
              cg_HTTPAddress = env_or getenv ''HTTP_ADDRESS'' '':43781'',
              cg_DatabaseURL = getenv ''DATABASE_URL'',
              cg_PublicURL = TrimRightSlash (env_or getenv ''PUBLIC_URL'' ''http://127.0.0.1:43781''),
              cg_ClientURL = TrimRightSlash (env_or getenv ''CLIENT_URL'' ''cubetimer://auth''),
              cg_JWTSecret = secret,
              cg_AccessTokenTTL = accessTokenTTL,
              cg_RefreshTokenTTL = refreshTokenTTL,
              cg_AllowedOrigins = csvEnv getenv ''ALLOWED_ORIGINS'',
              cg_GoogleClientIDs = csvEnv getenv ''GOOGLE_CLIENT_IDS'',
              cg_GoogleClientSecret = getenv ''GOOGLE_CLIENT_SECRET'',
              cg_SMTPHost = getenv ''SMTP_HOST'',
              cg_SMTPPort = smtpPort,
              cg_SMTPUsername = getenv ''SMTP_USERNAME'',
              cg_SMTPPassword = getenv ''SMTP_PASSWORD'',
              cg_SMTPFrom = env_or getenv ''SMTP_FROM'' ''CubeTimer <noreply@localhost>'',
              cg_SMTPStartTLS = boolEnv getenv ''SMTP_STARTTLS'' True,
              cg_LogOneTimeLinks = boolEnv getenv ''LOG_ONE_TIME_LINKS'' True,
              cg_MaxSyncMutations = maxSyncMutations,
              cg_MaxSyncChanges = maxSyncChanges,
              cg_MaxSyncResponseBytes = maxSyncResponseBytes,
              cg_InactiveDeviceWindow = inactiveDeviceWindow,
              cg_RetentionRunInterval = retentionRunInterval,
              cg_EnableCompression = boolEnv getenv ''ENABLE_COMPRESSION'' True,
              cg_ReadinessTimeout = readinessTimeout,
              cg_ShutdownGracePeriod = shutdownGracePeriod,
              cg_TrustedProxies = trustedProxies \<rparr> in
        case config_problem rawSecret cfg of Some message \<Rightarrow> Inl [ConfigError message] | None \<Rightarrow> Inr cfg)"

text \<open>\<open>fmt.Sprintf\<close> of host and port.\<close>

definition SMTPAddress :: "'p Config \<Rightarrow> string" where
  "SMTPAddress cfg = cg_SMTPHost cfg @ '':'' @ appendInt 1 (cg_SMTPPort cfg)"


subsection \<open>What a configuration guarantees\<close>

lemma durationEnv_positive:
  assumes "durationEnv frac getenv key fallback allowZero = (v, [])" "0 < fallback"
  shows "0 \<le> v" "\<not> allowZero \<Longrightarrow> 0 < v"
  using assms by (auto simp: durationEnv_def split: if_splits option.splits)

lemma intEnv_positive:
  assumes "intEnv getenv key fallback allowZero = (v, [])" "0 < fallback"
  shows "0 \<le> v" "\<not> allowZero \<Longrightarrow> 0 < v"
  using assms by (auto simp: intEnv_def split: if_splits option.splits)

lemma Load_production:
  assumes "Load frac lib getenv = Inr cfg"
  shows "cg_DatabaseURL cfg \<noteq> []"
    "cg_Environment cfg = ''production'' \<Longrightarrow>
      getenv ''JWT_SECRET'' \<noteq> [] \<and> 32 \<le> length (cg_JWTSecret cfg) \<and> cg_JWTSecret cfg \<noteq> developmentJWTSecret \<and> \<not> cg_LogOneTimeLinks cfg"
proof -
  have "config_problem (getenv ''JWT_SECRET'') cfg = None"
    using assms by (auto simp: Load_def Let_def split: prod.splits if_splits option.splits)
  then show "cg_DatabaseURL cfg \<noteq> []"
    "cg_Environment cfg = ''production'' \<Longrightarrow>
      getenv ''JWT_SECRET'' \<noteq> [] \<and> 32 \<le> length (cg_JWTSecret cfg) \<and> cg_JWTSecret cfg \<noteq> developmentJWTSecret \<and> \<not> cg_LogOneTimeLinks cfg"
    by (auto simp: config_problem_def split: if_splits)
qed

text \<open>\<open>time.NewTicker\<close> and the contexts with a timeout get positive durations.\<close>

lemma Load_settings:
  assumes "Load frac lib getenv = Inr cfg"
  shows "durationEnv frac getenv ''ACCESS_TOKEN_TTL'' (15 * 60 * ns_second) False = (cg_AccessTokenTTL cfg, [])"
    "durationEnv frac getenv ''REFRESH_TOKEN_TTL'' (30 * 24 * 3600 * ns_second) False = (cg_RefreshTokenTTL cfg, [])"
    "intEnv getenv ''SMTP_PORT'' 587 False = (cg_SMTPPort cfg, [])"
    "intEnv getenv ''MAX_SYNC_MUTATIONS'' 500 False = (cg_MaxSyncMutations cfg, [])"
    "intEnv getenv ''MAX_SYNC_CHANGES'' 1000 False = (cg_MaxSyncChanges cfg, [])"
    "intEnv getenv ''MAX_SYNC_RESPONSE_BYTES'' (512 * 1024) True = (cg_MaxSyncResponseBytes cfg, [])"
    "durationEnv frac getenv ''INACTIVE_DEVICE_WINDOW'' (90 * 24 * 3600 * ns_second) True = (cg_InactiveDeviceWindow cfg, [])"
    "durationEnv frac getenv ''RETENTION_RUN_INTERVAL'' (3600 * ns_second) False = (cg_RetentionRunInterval cfg, [])"
    "durationEnv frac getenv ''READINESS_TIMEOUT'' (2 * ns_second) False = (cg_ReadinessTimeout cfg, [])"
    "durationEnv frac getenv ''SHUTDOWN_GRACE_PERIOD'' (10 * ns_second) False = (cg_ShutdownGracePeriod cfg, [])"
  using assms unfolding Load_def Let_def by (auto split: prod.splits if_splits option.splits)

lemma Load_positive:
  assumes "Load frac lib getenv = Inr cfg"
  shows "0 < cg_AccessTokenTTL cfg" "0 < cg_RefreshTokenTTL cfg" "0 < cg_RetentionRunInterval cfg" "0 \<le> cg_InactiveDeviceWindow cfg"
    "0 < cg_ReadinessTimeout cfg" "0 < cg_ShutdownGracePeriod cfg" "0 < cg_SMTPPort cfg" "0 < cg_MaxSyncMutations cfg"
    "0 < cg_MaxSyncChanges cfg" "0 \<le> cg_MaxSyncResponseBytes cfg"
proof -
  note settings = Load_settings [OF assms]
  note durations = settings(1,2,8,9,10) [THEN durationEnv_positive(2)] settings(7) [THEN durationEnv_positive(1)]
  note numbers = settings(3,4,5) [THEN intEnv_positive(2)] settings(6) [THEN intEnv_positive(1)]
  show "0 < cg_AccessTokenTTL cfg" "0 < cg_RefreshTokenTTL cfg" "0 < cg_RetentionRunInterval cfg" "0 \<le> cg_InactiveDeviceWindow cfg"
    "0 < cg_ReadinessTimeout cfg" "0 < cg_ShutdownGracePeriod cfg" "0 < cg_SMTPPort cfg" "0 < cg_MaxSyncMutations cfg"
    "0 < cg_MaxSyncChanges cfg" "0 \<le> cg_MaxSyncResponseBytes cfg"
    by (auto intro!: durations numbers simp: ns_second_def)
qed

end
