(* ===== verification/Mailer.thy ===== *)
theory Mailer
  imports Config Auth_Service
begin

text \<open>
  \<open>internal/auth/mailer.go\<close>: the links of the one-time tokens and the dialogue with the SMTP server.

  The dialogue is the list of the commands that were attempted. What the network and the server answer to a
  command after those before it is the argument \<open>answer\<close>, an error or nothing; for \<open>AskStartTLS\<close> an error stands for a server
  that does not offer the extension. \<open>send\<close> answers what it logged, the dialogue and its error.
\<close>

datatype smtp_cmd =
    Dial string
  | NewClient string
  | AskStartTLS
  | StartTLS string
  | AuthPlain string string
  | MailFrom string
  | RcptTo string
  | DataCmd
  | WriteMessage string
  | CloseData
  | QuitCmd

type_synonym smtp_answer = "smtp_cmd list \<Rightarrow> smtp_cmd \<Rightarrow> error option"


subsection \<open>url.QueryEscape\<close>

definition unreserved :: "char \<Rightarrow> bool" where
  "unreserved c \<longleftrightarrow> c \<in> set ''ABCDEFGHIJKLMNOPQRSTUVWXYZabcdefghijklmnopqrstuvwxyz0123456789-_.~''"

definition upperhex :: "nat \<Rightarrow> char" where
  "upperhex n = ''0123456789ABCDEF'' ! n"

definition escape_byte :: "char \<Rightarrow> string" where
  "escape_byte c =
     (if unreserved c then [c]
      else if c = CHR '' '' then ''+''
      else [CHR ''%'', upperhex (of_char c div 16), upperhex (of_char c mod 16)])"

definition QueryEscape :: "string \<Rightarrow> string" where
  "QueryEscape s = concat (map escape_byte s)"

lemma QueryEscape_url_safe: "set s \<subseteq> set UrlAlphabet \<Longrightarrow> QueryEscape s = s"
proof (induction s)
  case (Cons c s)
  have "list_all unreserved UrlAlphabet" by code_simp
  with Cons show ?case by (auto simp: QueryEscape_def escape_byte_def list_all_iff)
qed (simp add: QueryEscape_def)


subsection \<open>Sending\<close>

definition crlf :: string where
  "crlf = [CHR 0x0D, CHR 0x0A]"

definition mail_message :: "'p Config \<Rightarrow> string \<Rightarrow> string \<Rightarrow> string \<Rightarrow> string" where
  "mail_message cfg recipient subject body =
     ''From: '' @ cg_SMTPFrom cfg @ crlf @ ''To: '' @ recipient @ crlf @ ''Subject: '' @ subject @ crlf @
     ''MIME-Version: 1.0'' @ crlf @ ''Content-Type: text/plain; charset=UTF-8'' @ crlf @ crlf @ body @ crlf"

text \<open>The commands in their order, up to the first error. A message that could not be written is still closed.\<close>

fun talk :: "smtp_answer \<Rightarrow> smtp_cmd list \<Rightarrow> smtp_cmd list \<Rightarrow> smtp_cmd list \<times> error option" where
  "talk answer sent [] = (sent, None)"
| "talk answer sent (c # cs) =
     (case answer sent c of
        None \<Rightarrow> talk answer (sent @ [c]) cs
      | Some err \<Rightarrow> (sent @ [c] @ (case c of WriteMessage _ \<Rightarrow> [CloseData] | _ \<Rightarrow> []), Some err))"

definition smtp_commands :: "'p Config \<Rightarrow> string \<Rightarrow> string \<Rightarrow> string \<Rightarrow> smtp_cmd list" where
  "smtp_commands cfg from_address recipient message =
     [Dial (SMTPAddress cfg), NewClient (cg_SMTPHost cfg)] @
     (if cg_SMTPStartTLS cfg then [AskStartTLS, StartTLS (cg_SMTPHost cfg)] else []) @
     (if cg_SMTPUsername cfg \<noteq> [] then [AuthPlain (cg_SMTPUsername cfg) (cg_SMTPPassword cfg)] else []) @
     [MailFrom from_address, RcptTo recipient, DataCmd, WriteMessage message, CloseData, QuitCmd]"

definition send ::
  "'p Config \<Rightarrow> (string \<Rightarrow> string option) \<Rightarrow> error option \<Rightarrow> smtp_answer \<Rightarrow> string \<Rightarrow> string \<Rightarrow> string \<Rightarrow> string \<Rightarrow>
   string list \<times> smtp_cmd list \<times> error option" where
  "send cfg parse_address ctx answer recipient subject body link =
     (case ctx of
        Some err \<Rightarrow> ([], [], Some err)
      | None \<Rightarrow>
          if cg_SMTPHost cfg = [] then
            (if cg_LogOneTimeLinks cfg then ([link], [], None)
             else ([], [], Some (OtherError ''SMTP_HOST is required when one-time link logging is disabled'')))
          else case parse_address (cg_SMTPFrom cfg) of
            None \<Rightarrow> ([], [], Some (OtherError ''parse SMTP_FROM''))
          | Some from_address \<Rightarrow>
              let (dialogue, err) = talk answer [] (smtp_commands cfg from_address recipient (mail_message cfg recipient subject body)) in
              ([], dialogue, err))"

definition verification_link :: "'p Config \<Rightarrow> string \<Rightarrow> string" where
  "verification_link cfg token = cg_ClientURL cfg @ ''/verify-email?token='' @ QueryEscape token"

definition reset_link :: "'p Config \<Rightarrow> string \<Rightarrow> string" where
  "reset_link cfg token = cg_ClientURL cfg @ ''/reset-password?token='' @ QueryEscape token"

definition blank_line :: string where
  "blank_line = [CHR 0x0A, CHR 0x0A]"

definition SendVerification ::
  "'p Config \<Rightarrow> (string \<Rightarrow> string option) \<Rightarrow> error option \<Rightarrow> smtp_answer \<Rightarrow> string \<Rightarrow> string \<Rightarrow> string list \<times> smtp_cmd list \<times> error option" where
  "SendVerification cfg parse_address ctx answer email token =
     (let link = verification_link cfg token in
      send cfg parse_address ctx answer email ''Verify your CubeTimer account''
        (''Open this link to verify your email:'' @ blank_line @ link) link)"

definition SendPasswordReset ::
  "'p Config \<Rightarrow> (string \<Rightarrow> string option) \<Rightarrow> error option \<Rightarrow> smtp_answer \<Rightarrow> string \<Rightarrow> string \<Rightarrow> string list \<times> smtp_cmd list \<times> error option" where
  "SendPasswordReset cfg parse_address ctx answer email token =
     (let link = reset_link cfg token in
      send cfg parse_address ctx answer email ''Reset your CubeTimer password''
        (''Open this link to reset your password:'' @ blank_line @ link) link)"

text \<open>The mailer as the authentication service sees it.\<close>

fun send_mail ::
  "'p Config \<Rightarrow> (string \<Rightarrow> string option) \<Rightarrow> error option \<Rightarrow> smtp_answer \<Rightarrow> Mail \<Rightarrow> string list \<times> smtp_cmd list \<times> error option" where
  "send_mail cfg parse_address ctx answer (VerificationMail email token) = SendVerification cfg parse_address ctx answer email token"
| "send_mail cfg parse_address ctx answer (PasswordResetMail email token) = SendPasswordReset cfg parse_address ctx answer email token"


subsection \<open>The dialogue\<close>

text \<open>Secrets are what is worth protecting on the wire: the credentials and the message.\<close>

fun secret_cmd :: "smtp_cmd \<Rightarrow> bool" where
  "secret_cmd (AuthPlain _ _) = True"
| "secret_cmd (WriteMessage _) = True"
| "secret_cmd _ = False"

definition encrypted_before :: "smtp_answer \<Rightarrow> string \<Rightarrow> smtp_cmd list \<Rightarrow> bool" where
  "encrypted_before answer host dialogue \<longleftrightarrow>
     (\<forall>i < length dialogue. secret_cmd (dialogue ! i) \<longrightarrow>
        (\<exists>j < i. dialogue ! j = StartTLS host \<and> answer (take j dialogue) (StartTLS host) = None))"

lemma talk_extends: "talk answer h cs = (dialogue, err) \<Longrightarrow> \<exists>rest. dialogue = h @ rest"
proof (induction cs arbitrary: h)
  case (Cons c cs)
  then show ?case by (cases "answer h c") fastforce+
qed simp

text \<open>Once the connection is encrypted, so is everything that follows.\<close>

lemma talk_encrypted:
  assumes "talk answer (h @ [StartTLS host]) cs = (dialogue, err)" "answer h (StartTLS host) = None" "list_all (\<lambda>c. \<not> secret_cmd c) h"
  shows "encrypted_before answer host dialogue"
proof -
  obtain rest where d: "dialogue = h @ StartTLS host # rest" using talk_extends [OF assms(1)] by auto
  show ?thesis
    unfolding encrypted_before_def
  proof (intro allI impI)
    fix i assume i: "i < length dialogue" "secret_cmd (dialogue ! i)"
    have "\<not> i \<le> length h"
      using i(2) assms(3) d by (auto simp: list_all_length nth_append less_le split: if_splits)
    with d assms(2) show "\<exists>j<i. dialogue ! j = StartTLS host \<and> answer (take j dialogue) (StartTLS host) = None"
      by (intro exI [of _ "length h"]) simp
  qed
qed

lemma nothing_secret: "list_all (\<lambda>c. \<not> secret_cmd c) dialogue \<Longrightarrow> encrypted_before answer host dialogue"
  by (auto simp: encrypted_before_def list_all_length)

lemma smtp_encrypted:
  assumes "cg_SMTPStartTLS cfg" "talk answer [] (smtp_commands cfg from_address recipient message) = (dialogue, err)"
  shows "encrypted_before answer (cg_SMTPHost cfg) dialogue"
proof -
  let ?h = "[Dial (SMTPAddress cfg), NewClient (cg_SMTPHost cfg), AskStartTLS]"
  have plan: "smtp_commands cfg from_address recipient message = ?h @ StartTLS (cg_SMTPHost cfg) #
      ((if cg_SMTPUsername cfg \<noteq> [] then [AuthPlain (cg_SMTPUsername cfg) (cg_SMTPPassword cfg)] else []) @
       [MailFrom from_address, RcptTo recipient, DataCmd, WriteMessage message, CloseData, QuitCmd])" (is "_ = _ @ _ # ?rest")
    using assms(1) by (simp add: smtp_commands_def)
  show ?thesis
  proof (cases "talk answer (?h @ [StartTLS (cg_SMTPHost cfg)]) ?rest = (dialogue, err) \<and> answer ?h (StartTLS (cg_SMTPHost cfg)) = None")
    case True
    then show ?thesis by (intro talk_encrypted [of answer ?h]) auto
  next
    case False
    with assms(2) have "list_all (\<lambda>c. \<not> secret_cmd c) dialogue"
      unfolding plan by (auto split: option.splits)
    then show ?thesis by (rule nothing_secret)
  qed
qed

text \<open>When the dialogue ends without an error, the message was written and the connection closed in order.\<close>

lemma talk_done: "talk answer h cs = (dialogue, None) \<Longrightarrow> dialogue = h @ cs"
  by (induction cs arbitrary: h) (fastforce split: option.splits)+

lemma send_log: "fst (send cfg pa ctx answer recipient subject body link) \<noteq> [] \<Longrightarrow> cg_LogOneTimeLinks cfg \<and> cg_SMTPHost cfg = []"
  by (auto simp: send_def split: option.splits if_splits prod.splits)

lemma send_encrypted:
  assumes "cg_SMTPStartTLS cfg" "send cfg pa ctx answer recipient subject body link = (logged, dialogue, err)"
  shows "encrypted_before answer (cg_SMTPHost cfg) dialogue"
  using assms smtp_encrypted [OF assms(1)]
  by (auto simp: send_def encrypted_before_def split: option.splits if_splits prod.splits)

lemma send_delivers:
  assumes "send cfg pa ctx answer recipient subject body link = (logged, dialogue, None)" "cg_SMTPHost cfg \<noteq> []"
  shows "WriteMessage (mail_message cfg recipient subject body) \<in> set dialogue" "RcptTo recipient \<in> set dialogue"
  using assms by (auto simp: send_def smtp_commands_def split: option.splits if_splits prod.splits dest!: talk_done)

end
