(* ===== verification/Create_Admin.thy ===== *)
theory Create_Admin
  imports Config Auth_Register
begin

text \<open>
  \<open>cmd/api/create_admin.go\<close>: the command that creates an account with the role of an administrator.

  \<open>terminal\<close> is what the command reads: whether there is a terminal, the line with the email (an error when
  no line ends), and the two passwords. The command answers what it printed to each stream and its error.
  The text of an error that is not one of the service is the argument \<open>error_text\<close>.
\<close>

text \<open>\<open>fmt.Fprintln\<close> ends what it prints with a line feed. The terminal is not one when there is no standard input.\<close>

definition println :: "string \<Rightarrow> string" where
  "println s = s @ [CHR 0x0A]"

record terminal =
  ta_is_terminal :: bool
  ta_line :: "string option"
  ta_password :: "string option"
  ta_confirm :: "string option"

record adminCredentials =
  ac_email :: string
  ac_password :: string

definition promptAdminCredentials :: "terminal \<Rightarrow> string list \<times> (string + adminCredentials)" where
  "promptAdminCredentials tty =
     (case ta_line tty of
        None \<Rightarrow> ([''Email: ''], Inl ''email could not be read'')
      | Some line \<Rightarrow>
          let email = TrimSpace line in
          if email = [] then ([''Email: ''], Inl ''email is required'')
          else case ta_password tty of
            None \<Rightarrow> ([''Email: '', ''Password: '', println []], Inl ''password could not be read'')
          | Some password \<Rightarrow>
              (case ta_confirm tty of
                 None \<Rightarrow> ([''Email: '', ''Password: '', println [], ''Confirm password: '', println []], Inl ''password could not be read'')
               | Some confirm \<Rightarrow> ([''Email: '', ''Password: '', println [], ''Confirm password: '', println []],
                   if password \<noteq> confirm then Inl ''passwords do not match''
                   else Inr \<lparr> ac_email = email, ac_password = password \<rparr>)))"

fun contains_text :: "string \<Rightarrow> string \<Rightarrow> bool" where
  "contains_text p [] \<longleftrightarrow> p = []"
| "contains_text p (c # s) \<longleftrightarrow> take (length p) (c # s) = p \<or> contains_text p s"

definition publicCreateAdminError :: "(string \<Rightarrow> string) \<Rightarrow> (error \<Rightarrow> string) \<Rightarrow> error \<Rightarrow> string" where
  "publicCreateAdminError ul error_text err =
     (case err of
        AuthError code message \<Rightarrow> message
      | _ \<Rightarrow>
          if contains_text ''request_stats_hourly'' (ToLower ul (error_text err)) \<or> contains_text ''user_role'' (ToLower ul (error_text err))
          then ''database schema is not up to date; run migrate first''
          else ''admin account could not be created'')"

text \<open>\<open>pool_error\<close> is what \<open>pgxpool.New\<close> makes of the database URL.\<close>

definition createAdmin ::
  "(error \<Rightarrow> string) \<Rightarrow> (string \<Rightarrow> error option) \<Rightarrow> auth_env \<Rightarrow> 'p Config \<Rightarrow> string list \<Rightarrow> terminal \<Rightarrow>
   (world, string list \<times> string list \<times> error option) state" where
  "createAdmin error_text pool_error e cfg args tty =
     (if args \<noteq> []
      then State_Monad.return ([], [println ''create-admin does not accept arguments; enter credentials when prompted''],
        Some (OtherError ''unexpected arguments''))
      else if \<not> ta_is_terminal tty
      then State_Monad.return ([], [println ''create-admin requires an interactive terminal''], Some (OtherError ''interactive terminal required''))
      else case promptAdminCredentials tty of
        (out, Inl message) \<Rightarrow> State_Monad.return (out, [println message], Some (OtherError message))
      | (out, Inr creds) \<Rightarrow>
          (case pool_error (cg_DatabaseURL cfg) of
             Some err \<Rightarrow> State_Monad.return (out, [println ''database is unavailable''], Some err)
           | None \<Rightarrow> do {
               ping \<leftarrow> exec_pool (\<lambda>d. (Inr (), d));
               case ping of
                 Inl err \<Rightarrow> State_Monad.return (out, [println ''database is unavailable''], Some (PgError err))
               | Inr _ \<Rightarrow> do {
                   r \<leftarrow> CreateAdmin e (ac_email creds) (ac_password creds);
                   State_Monad.return (case r of
                       Inl err \<Rightarrow> (out, [println (publicCreateAdminError (ae_unicode_lower e) error_text err)], Some err)
                     | Inr _ \<Rightarrow> (out @ [println ''admin account created''], [], None))
                 }
             }))"


subsection \<open>What it leaves behind\<close>

definition admin_user :: "auth_env \<Rightarrow> string \<Rightarrow> UserRow" where
  "admin_user e email = \<lparr> us_id = ae_user_uuid e, us_email = email, us_email_verified_at = Some (ae_db_now e),
     us_created_at = ae_db_now e, us_updated_at = ae_db_now e, us_user_role = ''admin'' \<rparr>"

lemma CreateAdmin_Inr:
  assumes "run_state (CreateAdmin e m password) w = (Inr x, w')"
  obtains ph where "hashPassword (ae_crypto e) (ae_hash_slot e) (ae_salt e) password = Inr ph"
    "text_ok (normalizeEmail e m)" "normalizeEmail e m = ae_pg_lower e (normalizeEmail e m)" "\<not> user_exists (ae_user_uuid e) (committed w)"
    "committed w' = (committed w)\<lparr>users := users (committed w) @ [admin_user e (normalizeEmail e m)],
       password_credentials := password_credentials (committed w) @ [registered_cred e ph]\<rparr>"
proof -
  let ?m = "normalizeEmail e m" and ?stmt = "CreateAdminUser (ae_pg_lower e) (ae_db_now e) (ae_user_uuid e) (normalizeEmail e m)"
  obtain ph where ph: "new_credentials e ?m password = Inr ph"
    and run: "run_state (in_tx (create_account (exec ?stmt) (\<lambda>row.
           tx_try (exec (CreatePasswordCredential (ae_db_now e) (ae_user_uuid e) ph)) (\<lambda>_.
           State_Monad.return (Commits (Inr (userFromDB row))))))) w = (Inr x, w')"
    using assms by (auto simp: CreateAdmin_def Let_def split: sum.splits)
  from run obtain t t' where t: "tables t = committed w" "\<not> aborted t" "committed w' = tables t'"
    and body: "run_state (create_account (exec ?stmt) (\<lambda>row.
           tx_try (exec (CreatePasswordCredential (ae_db_now e) (ae_user_uuid e) ph)) (\<lambda>_.
           State_Monad.return (Commits (Inr (userFromDB row)))))) t = (Commits (Inr x), t')"
    by (elim in_tx_Inr)
  obtain q t1 where q: "run_state (exec ?stmt) t = (q, t1)" by fastforce
  with body obtain row where row: "q = Inr row"
    and rest: "run_state (tx_try (exec (CreatePasswordCredential (ae_db_now e) (ae_user_uuid e) ph)) (\<lambda>_.
           State_Monad.return (Commits (Inr (userFromDB row))))) t1 = (Commits (Inr x), t')"
    by (auto simp: create_account_def split: sum.splits if_splits)
  have first: "?stmt (tables t) = (Inr row, tables t1)" using exec_Inr [of ?stmt t row t1] q row by (auto simp: prod_eq_iff)
  then have user: "text_ok ?m" "?m = ae_pg_lower e ?m" "\<not> user_exists (ae_user_uuid e) (tables t)"
      "tables t1 = (tables t)\<lparr>users := users (tables t) @ [admin_user e ?m]\<rparr>"
    by (auto simp: CreateAdminUser_def insert_user_def admin_user_def user_exists_def exists_row_iff split: if_splits)
  from rest have "tables t' = (tables t1)\<lparr>password_credentials := password_credentials (tables t1) @ [registered_cred e ph]\<rparr>"
    by (rule tx_try_Commits) (auto simp: CreatePasswordCredential_def registered_cred_def split: if_splits)
  with user t ph show thesis
    by (intro that [of ph]) (auto simp: new_credentials_def split: if_splits option.splits)
qed

lemma createAdmin_done:
  assumes "run_state (createAdmin error_text pool_error e cfg args tty) w = ((out, errs, None), w')"
  obtains line password w1 where "args = []" "ta_is_terminal tty" "ta_line tty = Some line" "TrimSpace line \<noteq> []"
    "ta_password tty = Some password" "ta_confirm tty = Some password" "committed w1 = committed w"
    "\<exists>user. run_state (CreateAdmin e (TrimSpace line) password) w1 = (Inr user, w')"
proof -
  have ping: "committed w1 = committed w" if "run_state (exec_pool (\<lambda>d. (Inr (), d))) w = (r, w1)" for r w1
    using that by (auto simp: exec_pool_def Let_def split: fault.splits)
  show thesis
    using assms
    by (auto simp: createAdmin_def promptAdminCredentials_def Let_def split: if_splits option.splits sum.splits prod.splits
        dest!: ping intro: that)
qed

end
