(* ===== verification/Command_Line.thy ===== *)
theory Command_Line
  imports Create_Admin Http_Api
begin

text \<open>
  \<open>cmd/api/main.go\<close>: the commands of the program and the exit status of each.

  What the process asks of the database driver, the migration tool and the HTTP library is \<open>process_lib\<close>: an
  error or nothing for each call that can fail, and how the server came to its end. \<open>serve_process\<close> answers the
  parts that were started and stopped, in their order: deferred calls run in the reverse order of their
  registration.
\<close>

datatype serve_end =
    Signalled "error option"
  | ServerClosed
  | ServerFailed error

record process_lib =
  pl_parse_config :: "string \<Rightarrow> error option"
  pl_new_pool :: "error option"
  pl_ping :: "error option"
  pl_serve_end :: serve_end
  pl_sql_open :: "string \<Rightarrow> error option"
  pl_set_dialect :: "string \<Rightarrow> error option"
  pl_goose_up :: "error option"
  pl_get :: "string \<Rightarrow> error + int"

datatype process_event =
    OpenPool string
  | StartAdmin
  | StartRetention int int
  | Listen string
  | ShutdownServer int
  | StopRetention
  | StopAdmin
  | ClosePool

definition serve_process :: "process_lib \<Rightarrow> 'p Config \<Rightarrow> process_event list \<times> error option" where
  "serve_process lib cfg =
     (case pl_parse_config lib (cg_DatabaseURL cfg) of
        Some err \<Rightarrow> ([], Some err)
      | None \<Rightarrow>
          (case pl_new_pool lib of
             Some err \<Rightarrow> ([], Some err)
           | None \<Rightarrow>
               (case pl_ping lib of
                  Some err \<Rightarrow> ([OpenPool (cg_DatabaseURL cfg), ClosePool], Some err)
                | None \<Rightarrow>
                    let started = [OpenPool (cg_DatabaseURL cfg), StartAdmin,
                          StartRetention (cg_InactiveDeviceWindow cfg) (cg_RetentionRunInterval cfg), Listen (cg_HTTPAddress cfg)];
                        deferred = [StopRetention, StopAdmin, ClosePool] in
                    (case pl_serve_end lib of
                       Signalled r \<Rightarrow> (started @ ShutdownServer (cg_ShutdownGracePeriod cfg) # deferred, r)
                     | ServerClosed \<Rightarrow> (started @ deferred, None)
                     | ServerFailed err \<Rightarrow> (started @ deferred, Some err)))))"

definition migrate :: "process_lib \<Rightarrow> string \<Rightarrow> error option" where
  "migrate lib databaseURL =
     (case pl_sql_open lib databaseURL of
        Some err \<Rightarrow> Some err
      | None \<Rightarrow> (case pl_set_dialect lib ''postgres'' of Some err \<Rightarrow> Some err | None \<Rightarrow> pl_goose_up lib))"

text \<open>The address from its last colon on, and the address itself when it has none.\<close>

definition from_last_colon :: "string \<Rightarrow> string" where
  "from_last_colon address =
     (if CHR '':'' \<in> set address then CHR '':'' # rev (takeWhile (\<lambda>c. c \<noteq> CHR '':'') (rev address)) else address)"

definition healthcheck :: "process_lib \<Rightarrow> string \<Rightarrow> error option" where
  "healthcheck lib address =
     (case pl_get lib (''http://127.0.0.1'' @ from_last_colon address @ ''/health/ready'') of
        Inl err \<Rightarrow> Some err
      | Inr code \<Rightarrow> if code \<noteq> 200 then Some (OtherError ''readiness endpoint returned a non-200 response'') else None)"

definition exit_status :: "error option \<Rightarrow> nat" where
  "exit_status err = (if err = None then 0 else 1)"

text \<open>The command line without the name of the program.\<close>

definition main ::
  "(int \<Rightarrow> nat \<Rightarrow> int \<Rightarrow> int) \<Rightarrow> ('a, 'p) prefix_lib \<Rightarrow> (error \<Rightarrow> string) \<Rightarrow> (string \<Rightarrow> error option) \<Rightarrow> process_lib \<Rightarrow>
   auth_env \<Rightarrow> terminal \<Rightarrow> environment \<Rightarrow> string list \<Rightarrow> (world, nat) state" where
  "main frac prefixes error_text pool_error lib e tty getenv args =
     (case Load frac prefixes getenv of
        Inl errs \<Rightarrow> State_Monad.return 1
      | Inr cfg \<Rightarrow>
          let command = (case args of [] \<Rightarrow> ''serve'' | a # _ \<Rightarrow> a) in
          if command = ''serve'' then State_Monad.return (exit_status (snd (serve_process lib cfg)))
          else if command = ''migrate'' then State_Monad.return (exit_status (migrate lib (cg_DatabaseURL cfg)))
          else if command = ''create-admin'' then do {
            r \<leftarrow> createAdmin error_text pool_error e cfg (drop 1 args) tty;
            State_Monad.return (exit_status (snd (snd r)))
          }
          else if command = ''healthcheck'' then State_Monad.return (exit_status (healthcheck lib (cg_HTTPAddress cfg)))
          else State_Monad.return 2)"


subsection \<open>What the commands do\<close>

lemma from_last_colon_port:
  assumes "CHR '':'' \<notin> set port"
  shows "from_last_colon (host @ '':'' @ port) = '':'' @ port"
proof -
  have "takeWhile (\<lambda>c. c \<noteq> CHR '':'') (rev port @ CHR '':'' # rev host) = rev port"
    using assms by (subst takeWhile_append2) auto
  then show ?thesis by (simp add: from_last_colon_def)
qed

text \<open>
  The check succeeds exactly when the route of the server that listens on the port of the address finds the
  database.
\<close>

lemma healthcheck_ready:
  assumes "CHR '':'' \<notin> set port"
    and "pl_get lib (''http://127.0.0.1:'' @ port @ route_pattern GetReady) =
      Inr (reply_status (fst (run_state (serve h ae e allowed header GetReady) w)))"
  shows "healthcheck lib (host @ '':'' @ port) = None \<longleftrightarrow> fst (run_state (exec_pool (\<lambda>d. (Inr (), d))) w) = Inr ()"
  using assms(2) from_last_colon_port [OF assms(1), of host]
  by (auto simp: healthcheck_def serve_def ready_handler_def split_def split: sum.splits)

text \<open>The background services end before the pool they use, and nothing is started after that.\<close>

lemma serve_process_order:
  assumes "serve_process lib cfg = (events, err)" "StartAdmin \<in> set events"
  obtains run where "events = run @ [StopRetention, StopAdmin, ClosePool]" "ClosePool \<notin> set run" "StopAdmin \<notin> set run"
  using assms by (auto simp: serve_process_def Let_def split: option.splits serve_end.splits)

lemma serve_process_closes:
  assumes "serve_process lib cfg = (events, err)" "OpenPool url \<in> set events"
  shows "url = cg_DatabaseURL cfg \<and> hd events = OpenPool url \<and> last events = ClosePool"
  using assms by (auto simp: serve_process_def Let_def split: option.splits serve_end.splits)

text \<open>The ticker of the retention job gets an interval that it accepts.\<close>

lemma serve_process_interval:
  assumes "Load frac prefixes getenv = Inr cfg" "serve_process lib cfg = (events, err)" "StartRetention window interval \<in> set events"
  shows "0 \<le> window \<and> 0 < interval"
  using assms(2,3) Load_positive [OF assms(1)]
  by (auto simp: serve_process_def Let_def split: option.splits serve_end.splits)

text \<open>Only the command \<open>create-admin\<close> touches the accounts.\<close>

lemma main_keeps:
  assumes "run_state (main frac prefixes error_text pool_error lib e tty getenv args) w = (code, w')" "args = [] \<or> hd args \<noteq> ''create-admin''"
  shows "w' = w"
  using assms by (cases args) (auto simp: main_def Let_def split: sum.splits if_splits)

end
