(* ===== verification/Setup_Theorems.thy ===== *)
theory Setup_Theorems
  imports Mailer Command_Line Auth_Theorems
begin

text \<open>
  The properties of the configuration, of the mail and of the command that creates administrators.
\<close>

subsection \<open>One-time links in production\<close>

lemma send_mail_send:
  obtains subject pre link where
    "send_mail cfg pa ctx answer mail = send cfg pa ctx answer (mail_to mail) subject (pre @ ''?token='' @ QueryEscape (mail_token mail)) link"
proof (cases mail)
  case (VerificationMail email token)
  show thesis
    by (rule that [of "''Verify your CubeTimer account''"
          "''Open this link to verify your email:'' @ blank_line @ cg_ClientURL cfg @ ''/verify-email''"])
      (simp add: VerificationMail SendVerification_def verification_link_def Let_def)
next
  case (PasswordResetMail email token)
  show thesis
    by (rule that [of "''Reset your CubeTimer password''"
          "''Open this link to reset your password:'' @ blank_line @ cg_ClientURL cfg @ ''/reset-password''"])
      (simp add: PasswordResetMail SendPasswordReset_def reset_link_def Let_def)
qed

text \<open>
  C39. A configuration that loads for production has a signing secret of at least 32 bytes that is
  not the development default. With it the mailer never logs a one-time link; with STARTTLS
  switched on, neither the credentials nor the message are sent before the server accepted the
  encryption for the configured host; and when a mail is reported as sent, its recipient was named
  to the server and the message with the token in its link was written.
\<close>

theorem production_links_private:
  assumes load: "Load frac lib getenv = Inr cfg" and prod: "cg_Environment cfg = ''production''"
    and mail: "send_mail cfg pa ctx answer mail = (logged, dialogue, err)"
  shows "32 \<le> length (cg_JWTSecret cfg) \<and> cg_JWTSecret cfg \<noteq> developmentJWTSecret \<and> logged = [] \<and>
    (cg_SMTPStartTLS cfg \<longrightarrow> encrypted_before answer (cg_SMTPHost cfg) dialogue) \<and>
    (err = None \<and> set (mail_token mail) \<subseteq> set UrlAlphabet \<longrightarrow> RcptTo (mail_to mail) \<in> set dialogue \<and>
      (\<exists>subject pre. WriteMessage (mail_message cfg (mail_to mail) subject (pre @ ''?token='' @ mail_token mail)) \<in> set dialogue))"
proof -
  note safe = Load_production(2) [OF load prod]
  obtain subject pre link where sent: "send cfg pa ctx answer (mail_to mail) subject (pre @ ''?token='' @ QueryEscape (mail_token mail)) link =
      (logged, dialogue, err)"
    using mail send_mail_send [of cfg pa ctx answer mail] by metis
  have "logged = []" using send_log [of cfg pa ctx answer "mail_to mail" subject _ link] safe sent by (metis fst_conv)
  moreover have "cg_SMTPStartTLS cfg \<longrightarrow> encrypted_before answer (cg_SMTPHost cfg) dialogue" using send_encrypted [OF _ sent] by blast
  moreover have "RcptTo (mail_to mail) \<in> set dialogue \<and>
      (\<exists>subject pre. WriteMessage (mail_message cfg (mail_to mail) subject (pre @ ''?token='' @ mail_token mail)) \<in> set dialogue)"
    if "err = None" "set (mail_token mail) \<subseteq> set UrlAlphabet"
  proof -
    have "cg_SMTPHost cfg \<noteq> []" using sent that(1) safe by (auto simp: send_def split: option.splits if_splits)
    with send_delivers [OF sent [unfolded that(1)]] show ?thesis unfolding QueryEscape_url_safe [OF that(2)] by blast
  qed
  ultimately show ?thesis using safe by blast
qed

definition sx_getenv :: environment where
  "sx_getenv key =
     (case map_of [(''APP_ENV'', ''production''), (''DATABASE_URL'', ''postgres://db''), (''LOG_ONE_TIME_LINKS'', ''false''),
        (''JWT_SECRET'', ''MDEyMzQ1Njc4OWFiY2RlZjAxMjM0NTY3ODlhYmNkZWY=''), (''SMTP_HOST'', ''smtp.cube.org''), (''SMTP_USERNAME'', ''cube''),
        (''ACCESS_TOKEN_TTL'', ''1h30m''), (''SMTP_PORT'', ''25'')] key of None \<Rightarrow> [] | Some v \<Rightarrow> v)"

definition sx_prefixes :: "(string, string) prefix_lib" where
  "sx_prefixes = \<lparr> ParsePrefix = Some, ParseProxyAddr = Some, Is6 = (\<lambda>_. False), PrefixFrom = (\<lambda>a _. a) \<rparr>"

definition sx_config :: "string Config" where
  "sx_config = projr (Load (\<lambda>f n u. f * u div 10 ^ n) sx_prefixes sx_getenv)"

theorem production_links_private_witness:
  "RcptTo ''ann@cube.org'' \<in> set (fst (snd (send_mail sx_config Some None (\<lambda>_ _. None) (VerificationMail ''ann@cube.org'' ''abc_-9'')))) \<and>
   encrypted_before (\<lambda>_ _. None) ''smtp.cube.org''
     (fst (snd (send_mail sx_config Some None (\<lambda>_ _. None) (VerificationMail ''ann@cube.org'' ''abc_-9''))))"
proof -
  let ?mail = "VerificationMail ''ann@cube.org'' ''abc_-9''"
  let ?r = "send_mail sx_config Some None (\<lambda>_ _. None) ?mail"
  have load: "Load (\<lambda>f n u. f * u div 10 ^ n) sx_prefixes sx_getenv = Inr sx_config"
  proof -
    have "case Load (\<lambda>f n u. f * u div 10 ^ n) sx_prefixes sx_getenv of Inl _ \<Rightarrow> False | Inr _ \<Rightarrow> True" by code_simp
    then show ?thesis by (auto simp: sx_config_def split: sum.splits)
  qed
  have facts: "cg_Environment sx_config = ''production''" "cg_SMTPStartTLS sx_config" "cg_SMTPHost sx_config = ''smtp.cube.org''"
    "snd (snd ?r) = None" "list_all (\<lambda>c. c \<in> set UrlAlphabet) (mail_token ?mail)" by code_simp+
  have split: "?r = (fst ?r, fst (snd ?r), snd (snd ?r))" by (simp only: prod.collapse)
  have token: "set (mail_token ?mail) \<subseteq> set UrlAlphabet" using facts(5) unfolding list_all_iff by blast
  from production_links_private [OF load facts(1) split] token facts(2-4) show ?thesis by simp
qed


subsection \<open>Creating an administrator\<close>

text \<open>
  C40. When the command that creates an administrator reports success, the two passwords that were
  typed agree, and with this email and password the person signs in, to a session with the role of
  an administrator and a verified address.
\<close>

theorem create_admin_signs_in:
  assumes run: "run_state (createAdmin error_text pool_error e cfg args tty) w = ((out, errs, None), w')"
    and ok: "accounts_ok (ae_pg_lower e) (committed w)"
    and crypto: "argon2_ok (ae_crypto e)" "ae_salt e = Inr salt" "ae_hash_slot e = None"
    and later: "same_server e e'" "ae_verify_slot e' = None" "faults w' = []"
    and can: "\<And>m. can_issue s e' (password_user (admin_user e m)) (committed w)"
  shows "\<exists>line password session w2. ta_line tty = Some line \<and> ta_password tty = Some password \<and> ta_confirm tty = Some password \<and>
    run_state (Login s e' (TrimSpace line) password) w' = (Inr session, w2) \<and>
    au_user_role (an_user session) = ''admin'' \<and> au_email_verified (an_user session)"
proof -
  obtain line password w1 user where typed: "ta_line tty = Some line" "ta_password tty = Some password" "ta_confirm tty = Some password"
    and w1: "committed w1 = committed w" and create: "run_state (CreateAdmin e (TrimSpace line) password) w1 = (Inr user, w')"
    using createAdmin_done [OF run] by metis
  let ?m = "normalizeEmail e (TrimSpace line)" and ?u = "admin_user e (normalizeEmail e (TrimSpace line))"
  obtain ph where ph: "hashPassword (ae_crypto e) (ae_hash_slot e) (ae_salt e) password = Inr ph" and m: "text_ok ?m" "?m = ae_pg_lower e ?m"
    and d: "committed w' = (committed w)\<lparr>users := users (committed w) @ [?u],
       password_credentials := password_credentials (committed w) @ [registered_cred e ph]\<rparr>"
    using CreateAdmin_Inr [OF create] w1 by metis
  have "account_writes (ae_pg_lower e) (\<lambda>_. True) (\<lambda>_. True) (committed w1) (committed w')"
    by (rule auth_call_writes [OF auth_call.admin [OF create refl]]) (auto simp: option.pred_True)
  then have ok': "accounts_ok (ae_pg_lower e) (committed w')" using account_writes_ok ok w1 by simp
  have same: "normalizeEmail e' (TrimSpace line) = ?m" "ae_pg_lower e' = ae_pg_lower e" "ae_crypto e' = ae_crypto e"
    using later(1) by (simp_all add: same_server_def normalizeEmail_def)
  have verify: "verifyPasswordInternal (ae_crypto e') password (pc_password_hash (registered_cred e ph)) = Inr True"
    using hash_verifies [OF crypto(1), of salt password ph] ph crypto(2,3) same(3) by (simp add: registered_cred_def)
  have user: "?u \<in> set (users (committed w'))" "registered_cred e ph \<in> set (password_credentials (committed w'))"
    "pc_user_id (registered_cred e ph) = us_id ?u" "us_email ?u = ae_pg_lower e' (normalizeEmail e' (TrimSpace line))"
    using d m same by (simp_all add: admin_user_def registered_cred_def)
  have login: "run_state (Login s e' (TrimSpace line) password) w' = run_state (issueSession s e' (password_user ?u)) w'"
    using Login_clean [OF later(3,2) ok' _ user(4,1-3) verify, of s] m(1) same(1) by (simp add: admin_user_def)
  have "refresh_tokens (committed w') = refresh_tokens (committed w)" using d by simp
  then have "can_issue s e' (password_user ?u) (committed w')" using can [of ?m] can_issue_cong by blast
  moreover have "user_exists (au_id (password_user ?u)) (committed w')"
    using user(1) by (auto simp: user_exists_def exists_row_iff password_user_def)
  ultimately obtain session w2 where "run_state (issueSession s e' (password_user ?u)) w' = (Inr session, w2)"
    "session_issued s e' (password_user ?u) (ae_family_uuid e') session (committed w') (committed w2)"
    using issueSession_clean [OF later(3)] by metis
  with typed login show ?thesis by (auto simp: session_issued_def password_user_def admin_user_def)
qed

definition sx_terminal :: terminal where
  "sx_terminal = \<lparr> ta_is_terminal = True, ta_line = Some ('' Root@cube.org'' @ [CHR 0x0A]), ta_password = Some ax_pw, ta_confirm = Some ax_pw \<rparr>"

definition sx_create :: "(world, string list \<times> string list \<times> error option) state" where
  "sx_create = createAdmin (\<lambda>_. []) (\<lambda>_. None) (ax_env 0 ''abc'' 1) sx_config [] sx_terminal"

theorem create_admin_signs_in_witness:
  "\<exists>session w2. run_state (Login ax_service (ax_env 60 ''def'' 2) (TrimSpace ('' Root@cube.org'' @ [CHR 0x0A])) ax_pw) (snd (run_state sx_create ax_world)) =
     (Inr session, w2) \<and> au_user_role (an_user session) = ''admin'' \<and> au_email_verified (an_user session)"
proof -
  let ?e = "ax_env 0 ''abc'' 1" and ?r = "run_state sx_create ax_world"
  have facts: "snd (snd (fst ?r)) = None" "faults (snd ?r) = []" by code_simp+
  then have run: "?r = ((fst (fst ?r), fst (snd (fst ?r)), None), snd ?r)" by (auto simp: prod_eq_iff)
  have can: "can_issue ax_service (ax_env 60 ''def'' 2) (password_user (admin_user ?e m)) (committed ax_world)" for m
  proof -
    have "can_issue ax_service (ax_env 60 ''def'' 2) (password_user (admin_user ?e [])) (committed ax_world)" by code_simp
    then show ?thesis by (simp add: can_issue_def password_user_def admin_user_def)
  qed
  from create_admin_signs_in [OF run [unfolded sx_create_def], of "''NaCl''" "ax_env 60 ''def'' 2" ax_service] can facts(2)
    ax_accounts_ok(1) ax_argon2_ok show ?thesis
    by (simp add: ax_env_simps ax_same_server sx_terminal_def sx_create_def)
qed

end
