(* ===== verification/Retention_Loop.thy ===== *)
theory Retention_Loop
  imports Retention
begin

text \<open>
  The background loop of \<open>RetentionService\<close>: a run of \<open>runOnce\<close> for every tick, until the service is told to
  stop. What arrives at the two channels is a list of events; the loop answers whether it has ended.
\<close>

datatype retention_event =
    Tick env
  | Done

fun loop :: "RetentionService \<Rightarrow> retention_event list \<Rightarrow> (world, bool) state" where
  "loop s [] = State_Monad.return False"
| "loop s (Done # _) = State_Monad.return True"
| "loop s (Tick e # events) = do {
     _ \<leftarrow> runOnce s e;
     loop s events
   }"

definition tick_cutoff :: "RetentionService \<Rightarrow> env \<Rightarrow> time" where
  "tick_cutoff s e = go_now e - effectiveInactiveWindow (retInactiveDeviceWindow s)"

text \<open>A later cutoff allows more.\<close>

lemma pruned_mono:
  assumes "pruned cutoff d d'" "cutoff \<le> cutoff'"
  shows "pruned cutoff' d d'"
proof -
  have "active cutoff u r" if "active cutoff' u r" for u r using that assms(2) by (auto simp: active_def)
  moreover obtain horizon keep where "d' = d\<lparr>change_log := filter (\<lambda>c. horizon (cl_user_id c) \<le> cl_change_id c) (change_log d),
        processed_mutations := filter keep (processed_mutations d)\<rparr>"
      "\<forall>u r. r \<in> set (devices d) \<longrightarrow> active cutoff u r \<longrightarrow> horizon u \<le> max 0 (dv_last_ack_cursor r)"
      "\<forall>p. cutoff \<le> pm_created_at p \<longrightarrow> keep p"
    using assms(1) unfolding pruned_def by blast
  ultimately show ?thesis
    unfolding pruned_def using assms(2) by (intro exI [of _ horizon] exI [of _ keep]) auto
qed

text \<open>
  Whatever fails, the loop only prunes, by the latest of its cutoffs: a device that was seen after it and a
  mutation processed after it are safe. After the shutdown nothing is pruned any more.
\<close>

lemma loop_prunes:
  "(\<And>e. Tick e \<in> set events \<Longrightarrow> tick_cutoff s e \<le> cutoff) \<Longrightarrow>
   state_io_rel (\<lambda>w w'. pruned cutoff (committed w) (committed w')) (loop s events)"
proof (induction s events rule: loop.induct)
  case (3 s e events)
  have "state_io_rel (\<lambda>w w'. pruned cutoff (committed w) (committed w')) (runOnce s e)"
  proof (rule state_io_relI)
    fix w x w' assume "run_state (runOnce s e) w = (x, w')"
    from state_io_relD [OF runOnce_pruned this] 3(2) [of e] show "pruned cutoff (committed w) (committed w')"
      by (auto simp: tick_cutoff_def intro: pruned_mono)
  qed
  with 3 show ?case by (auto intro!: pruning.io_bind)
qed (auto intro: pruning.io_return)

lemma loop_Done: "loop s (events @ Done # later) = loop s (events @ [Done])"
  by (induction s events rule: loop.induct) simp_all

end
