(* ===== verification/Spec2Isabelle.thy ===== *)
theory Spec2Isabelle
  imports Sync_Theorems Stats_Theorems Admin_Theorems Setup_Theorems Retention_Loop
begin

text \<open>
  A verification of the CubeSync backend (Go, \<open>src/\<close>).

  CubeSync stores the timing sessions and solves of speedcubers. Devices work offline and
  exchange batches of mutations and pages of changes with the server; a new device first pages
  through a snapshot. The server keeps everything in PostgreSQL. Its parts are

  \<^item> the synchronization service (\<open>internal/sync\<close>): \<open>Service.Sync\<close>, \<open>SnapshotService.Snapshot\<close>,
    \<open>RetentionService\<close>, which prunes the change log, and \<open>StatsService.ComputeStats\<close>;
  \<^item> the authentication service (\<open>internal/auth\<close>): accounts, passwords, access and refresh tokens,
    one-time tokens sent by mail, Google sign-in;
  \<^item> the HTTP interface (\<open>internal/httpapi\<close>): routes, middleware, the rate limiter, the history
    endpoints, and the mapping of service errors to replies;
  \<^item> the admin service (\<open>internal/admin\<close>): it counts requests and logs errors in the background and answers
    the statistics of the operators;
  \<^item> the process (\<open>cmd/api\<close>, \<open>internal/config\<close>): the configuration, the commands, and the creation of
    administrators;
  \<^item> the statements on the tables (\<open>internal/store/db\<close>, \<open>db/migrations\<close>).

  The HTTP interface calls the services, and they call the statements, either in a transaction or one by one
  on the pool; beside the database they share nothing. The HTTP interface also reports every request and
  every error reply to the admin service, over channels.

  \<^bold>\<open>State and effects.\<close> \<open>Prelude\<close> has the base types, the generic lemmas and the locale
  \<open>transition_preorder\<close>, which carries a preorder on states through the programs of a state monad.
  \<open>Models\<close> has the records of \<open>internal/sync/models.go\<close> and \<open>internal/store/db/models.go\<close> and the
  error values. \<open>Schema\<close> has the tables (\<open>db\<close>), transactions (\<open>tx\<close>, \<open>exec\<close>, \<open>in_tx\<close>) and the pool
  (\<open>world\<close>, \<open>exec_pool\<close>), with the failed state of a PostgreSQL transaction and with connection
  failures before and after the server did the work. Every operation is a program of the state monad
  that answers an error or a result, so each early return of the code is a branch. A theorem with the
  hypothesis \<open>faults w = []\<close> is about a working connection; all others hold whatever fails.

  \<^bold>\<open>Synchronization.\<close>
  \<^item> \<open>Sync_Queries\<close>: \<open>sync.sql.go\<close> and \<open>snapshot.sql.go\<close>, with the constraints of the schema.
  \<^item> \<open>Sync_Apply\<close>: validation and \<open>applySession\<close>, \<open>applySolve\<close>, \<open>applyMutation\<close> of \<open>service.go\<close>.
  \<^item> \<open>Sync_Service\<close>: \<open>Service.Sync\<close> and \<open>window.go\<close>. \<open>Sync_Snapshot\<close>: \<open>snapshot.go\<close>. \<open>Retention\<close>: a run
    of the job of \<open>retention.go\<close>; \<open>Retention_Loop\<close>: its loop. \<open>Stats\<close>: \<open>ComputeStats\<close>, its averages and its queries.
  \<^item> \<open>Sync_Spec\<close> is the abstract contract of a mutation (\<open>mutation_step\<close>, \<open>apply_step\<close>) and the
    invariants of the tables. \<open>Sync_Refine\<close> and \<open>Sync_Complete\<close> show that the code implements it, in both
    directions. \<open>Sync_Invariants\<close> proves what a step keeps, over the locales \<open>logged_table\<close>
    (instances: sessions and solves) and \<open>store_preorder\<close> (instances: the schema, the validity of rows,
    the journal, the versions, the isolation of users); \<open>Sync_Batch\<close>, \<open>Sync_Outcome\<close> and \<open>Sync_Calls\<close> lift it to a
    request and its retries.
  \<^item> \<open>Paging\<close> is the contract of a paged source and the client that drains it; \<open>Sync_Feed\<close> and
    \<open>Sync_Snapshot\<close> are instances. \<open>Sync_Converge\<close> and \<open>Sync_Bootstrap\<close> are about replicas: a client that
    applies what it is sent agrees with the server (\<open>client_ok\<close>), also when others write meanwhile.
  \<^item> \<open>Sync_Server\<close> is the transition system of all calls and of retention.

  \<^bold>\<open>Authentication.\<close>
  \<^item> \<open>Go_Text\<close>: base64, \<open>Sscanf\<close>, \<open>Split\<close>, \<open>TrimSpace\<close>. \<open>Auth_Crypto\<close>: \<open>password.go\<close> and \<open>tokens.go\<close>.
    \<open>Federated\<close>: \<open>federated.go\<close>. \<open>Auth_Queries\<close>: \<open>auth.sql.go\<close>. \<open>Auth_Service\<close>: every operation of
    \<open>service.go\<close>.
  \<^item> \<open>Auth_Cases\<close> reads off an answer which statements were executed; \<open>Auth_Invariants\<close> has the
    invariant \<open>accounts_ok\<close> over single statements (\<open>account_write\<close>); \<open>Auth_Server\<close> combines both parts of
    the server into one transition system. \<open>Auth_Flows\<close>, \<open>Auth_Accounts\<close>, \<open>Auth_Tokens\<close> and
    \<open>Auth_Register\<close> have the effects of the operations and the life of tokens.

  \<^bold>\<open>HTTP.\<close>
  \<^item> \<open>Go_Time\<close>: the calendar and the layout \<open>RFC3339Nano\<close> in both directions. \<open>History\<close>:
    \<open>history_handler.go\<close> and \<open>history.sql.go\<close>. \<open>History_Pages\<close>: the locale \<open>keyset_pages\<close>, which gives
    \<open>paged_source\<close>, with both history handlers as instances.
  \<^item> \<open>Rate_Limit\<close>: \<open>ratelimit.go\<close>. \<open>Http_Api\<close>: the handlers, \<open>Authenticate\<close>, CORS, and \<open>serve\<close> and
    \<open>ServeHTTP\<close> for the routes of \<open>router.go\<close> with the reports to the admin service. \<open>Http_Isolation\<close>: what a
    request may change.

  \<^bold>\<open>Administration.\<close>
  \<^item> \<open>Admin_Queries\<close>: \<open>admin.sql.go\<close> and \<open>copyfrom.go\<close>. \<open>Admin_Service\<close>: \<open>internal/admin/service.go\<close> with its
    channels, its buffers and the four statistics. \<open>Admin_Handlers\<close>: \<open>admin_handlers.go\<close>.
  \<^item> \<open>Admin_Loop\<close> is \<open>flushLoop\<close> as a transition system (\<open>admin_step\<close>): a step receives from a channel, answers
    a ticker, drains the channels at the shutdown, or is one of a sender or of another part of the server.
    \<open>Admin_Tally\<close> counts rows and metrics under their keys, which is what the steps keep; \<open>Admin_Stats\<close> has the
    series and the sums of the statistics; \<open>Admin_Pages\<close> makes the error log an instance of \<open>keyset_pages\<close>.

  \<^bold>\<open>Process.\<close>
  \<^item> \<open>Config\<close>: \<open>config.go\<close>, with \<open>time.ParseDuration\<close>. \<open>Mailer\<close>: \<open>internal/auth/mailer.go\<close>, the links and the
    dialogue with the SMTP server. \<open>Create_Admin\<close>: \<open>create_admin.go\<close>. \<open>Command_Line\<close>: \<open>main.go\<close>, the exit status of
    the commands and the order in which \<open>serve\<close> starts and stops its parts.

  \<^bold>\<open>Properties.\<close> \<open>Sync_Theorems\<close>: exactly-once application under retries, convergence of pulls and of the
  bootstrap, the invariant of the server, compare-and-set of versions, atomicity of errors, isolation
  of users, the change log as a journal, the bounds of a page, and what retention keeps.
  \<open>Stats_Theorems\<close>: the statistics against a reference definition. \<open>Auth_Theorems\<close>, \<open>Token_Theorems\<close> and
  \<open>Account_Theorems\<close>: the invariant of the accounts, sign-in, registration, rotation and reuse of refresh
  tokens, one-time tokens, takeover by federated sign-in, erasure of an account, round trips of
  password hashes and access tokens. \<open>Http_Theorems\<close>: isolation of requests, a session opens the
  synchronization route, and the history is complete. \<open>Admin_Theorems\<close>: every request let in is counted once,
  the error log keeps the order of the errors and is paged completely, both statistics agree, and the
  routes of the operators need the role. \<open>Setup_Theorems\<close>: one-time links stay private in production, and a
  created administrator can sign in. Each property with hypotheses is followed by a witness on the
  instances of \<open>Samples\<close>, \<open>Auth_Samples\<close> or its own theory.

  \<^bold>\<open>Bounds.\<close> Numbers of the code that can leave 64 bits wrap or are errors as in Go and PostgreSQL;
  times are microseconds and stay within the years that the code accepts. The only fuel is that of
  \<open>drain\<close>, the loop of a client: the theorems take one more than the number of rows, and show that this is
  enough. Every other loop is a total function.

  \<^bold>\<open>Libraries.\<close> Code that is not in the repository is an argument of the definitions: JSON decoding, Unicode
  case tables and document sizes (\<open>env\<close>), SHA-256, Argon2id and JWT (\<open>crypto\<close>), OpenID Connect
  (\<open>oidc\<close>), clocks, random bytes, the mailer and the address parser (\<open>auth_env\<close>), \<open>lower\<close> of the
  database locale, the rounding of \<open>float8\<close> (\<open>float_agg\<close>), the text of UUIDs and the general layout parser
  (\<open>cursor_lib\<close>), addresses, prefixes and token buckets (\<open>net_lib\<close>, \<open>prefix_lib\<close>, \<open>limiter_lib\<close>), the time zone of the
  database session (\<open>pg_session\<close>), \<open>float64\<close> (\<open>go_float\<close>, and \<open>frac\<close> in \<open>ParseDuration\<close>), the order of a Go map
  (\<open>map_order\<close>), the SMTP server (\<open>smtp_answer\<close>), and what the process asks of the driver, the migration tool
  and the HTTP library (\<open>process_lib\<close>). What is relied on of them are the hypotheses \<open>argon2_ok\<close>, \<open>jwt_ok\<close>,
  \<open>uuids_ok\<close> and \<open>map_order_ok\<close>.

  \<^bold>\<open>Not modelled.\<close>
  \<^item> Statements of different calls do not interleave: a call is one step of the transition systems. The
    advisory lock that \<open>Sync\<close> takes for its user is recorded, and calls of one user are serialized by it in
    the code.
  \<^item> The generated API types (\<open>internal/apicontract\<close>) and connection glue of the store have no logic.
  \<^item> URL matching, JSON encoding, the log output, compression and timeouts are libraries; a timeout appears as a
    failure of the connection. The ticker of the rate limiter only decides when
    \<open>evict\<close> runs, the settings of the pool and of the HTTP server are left out, and the
    migrations are the tables and constraints of the model.
\<close>

end
